theory Spec2Isabelle
  imports Complex_Main "HOL-Library.AList" "HOL-Library.Sublist"
begin

section \<open>Python and numpy values\<close>

text \<open>
  The scripts compute with Python floats and numpy arrays of floats and complex floats.
  The embedding computes with exact numbers: a float is a \<^typ>\<open>real\<close>, a complex float a
  \<^typ>\<open>complex\<close>, an array a list. Rounding is therefore not modelled, with one exception:
  the reveal index of the basis-fitting animations is the integer part of a float product
  that rounding can move across an integer, so it is computed with the rounding of
  double precision (\<open>round64\<close> below). Where numpy would
  continue with \<open>nan\<close> or \<open>inf\<close> entries (a division of an array by zero, which only
  warns), the embedding stops with \<open>NonFinite\<close>: exact numbers have no such values.
  The other constructors are the Python exceptions the scripts can raise.
\<close>

datatype error = ZeroDivisionError | ValueError | KeyError | IndexError | TypeError | NonFinite

definition bind :: "error + 'a \<Rightarrow> ('a \<Rightarrow> error + 'b) \<Rightarrow> error + 'b" where
  "bind m f = (case m of Inl e \<Rightarrow> Inl e | Inr x \<Rightarrow> f x)"

text \<open>A Python \<open>for\<close> loop over a list whose body may raise.\<close>

fun for_each :: "('a \<Rightarrow> 's \<Rightarrow> error + 's) \<Rightarrow> 'a list \<Rightarrow> 's \<Rightarrow> error + 's" where
  "for_each body [] s = Inr s"
| "for_each body (x # xs) s = bind (body x s) (for_each body xs)"

text \<open>\<open>frame/frames\<close> on Python ints: true division, raising on a zero divisor.\<close>

definition py_truediv :: "int \<Rightarrow> int \<Rightarrow> error + real" where
  "py_truediv a b = (if b = 0 then Inl ZeroDivisionError else Inr (real_of_int a / real_of_int b))"

text \<open>\<open>int(x)\<close> on a float truncates towards zero.\<close>

definition py_int :: "real \<Rightarrow> int" where
  "py_int x = (if 0 \<le> x then \<lfloor>x\<rfloor> else \<lceil>x\<rceil>)"

text \<open>\<open>xs[:i]\<close>: a negative bound counts from the end.\<close>

definition py_prefix :: "'a list \<Rightarrow> int \<Rightarrow> 'a list" where
  "py_prefix xs i = (if 0 \<le> i then take (nat i) xs else take (length xs - nat (- i)) xs)"

text \<open>An array divided by a scalar: \<open>xs / c\<close>.\<close>

definition np_div :: "'a::field list \<Rightarrow> 'a \<Rightarrow> error + 'a list" where
  "np_div xs c = (if xs \<noteq> [] \<and> c = 0 then Inl NonFinite else Inr (map (\<lambda>x. x / c) xs))"

text \<open>\<open>np.max(xs)\<close> and \<open>xs.max()\<close> raise on an empty array.\<close>

definition np_max :: "real list \<Rightarrow> error + real" where
  "np_max xs = (if xs = [] then Inl ValueError else Inr (Max (set xs)))"

text \<open>\<open>np.argmax(xs)\<close>: the first index of the maximum.\<close>

definition np_argmax :: "real list \<Rightarrow> error + nat" where
  "np_argmax xs = (if xs = [] then Inl ValueError
                   else Inr (length (takeWhile (\<lambda>x. x \<noteq> Max (set xs)) xs)))"

text \<open>Elementwise sum and product of two arrays of the same shape.\<close>

definition vadd :: "complex list \<Rightarrow> complex list \<Rightarrow> complex list" where
  "vadd xs ys = map2 (+) xs ys"

definition vmul :: "complex list \<Rightarrow> real list \<Rightarrow> complex list" where
  "vmul xs ds = map2 (\<lambda>z d. z * of_real d) xs ds"

definition zeros_like :: "real list \<Rightarrow> complex list" where
  "zeros_like t = map (\<lambda>_. 0) t"

text \<open>
  The builtin \<open>sum\<close> starts from the int \<open>0\<close> and adds the items from left to right;
  \<open>0 + array\<close> broadcasts. The sum of no items is the scalar \<open>0\<close>, not an array.
  Every array that the scripts add or multiply is sampled on the one axis of its script,
  so the operands have one length, and there \<open>+\<close> and \<open>*\<close> are elementwise. \<open>np_add\<close>,
  \<open>vadd\<close> and \<open>vmul\<close> stand for the numpy operations on such operands only: on arrays of
  different lengths numpy broadcasts an array of length 1 and raises \<open>ValueError\<close>
  otherwise, while these functions stop at the end of the shorter array.
\<close>

datatype 'a npval = Scalar 'a | Array "'a list"

fun np_add :: "'a::plus npval \<Rightarrow> 'a npval \<Rightarrow> 'a npval" where
  "np_add (Scalar a) (Scalar b) = Scalar (a + b)"
| "np_add (Scalar a) (Array ys) = Array (map (\<lambda>y. a + y) ys)"
| "np_add (Array xs) (Scalar b) = Array (map (\<lambda>x. x + b) xs)"
| "np_add (Array xs) (Array ys) = Array (map2 (+) xs ys)"

definition py_sum :: "'a::{plus,zero} list list \<Rightarrow> 'a npval" where
  "py_sum vs = foldl np_add (Scalar 0) (map Array vs)"

fun np_real :: "complex npval \<Rightarrow> real npval" where
  "np_real (Scalar z) = Scalar (Re z)"
| "np_real (Array zs) = Array (map Re zs)"

text \<open>\<open>np.linspace(start, stop, n)\<close>.\<close>

definition np_linspace :: "real \<Rightarrow> real \<Rightarrow> nat \<Rightarrow> real list" where
  "np_linspace start stop n =
     (if n = 1 then [start]
      else map (\<lambda>i. start + real i * ((stop - start) / real (n - 1))) [0..<n])"

text \<open>A dict is an association list with distinct keys, in insertion order.\<close>

definition dict_get :: "('k \<times> 'v) list \<Rightarrow> 'k \<Rightarrow> error + 'v" where
  "dict_get d k = (case map_of d k of None \<Rightarrow> Inl KeyError | Some v \<Rightarrow> Inr v)"

definition dict_put :: "('k \<times> 'v) list \<Rightarrow> 'k \<Rightarrow> 'v \<Rightarrow> ('k \<times> 'v) list" where
  "dict_put d k v = AList.update k v d"

text \<open>\<open>d[k].set_...(v)\<close>: the artist stored under \<open>k\<close> is looked up, then changed.\<close>

definition artist_set :: "('k \<times> 'v) list \<Rightarrow> 'k \<Rightarrow> ('v \<Rightarrow> 'v) \<Rightarrow> error + ('k \<times> 'v) list" where
  "artist_set d k f = (case map_of d k of None \<Rightarrow> Inl KeyError
                       | Some a \<Rightarrow> Inr (AList.update k (f a) d))"

section \<open>Globals: time axis and decay envelope\<close>

text \<open>
  Every script starts with \<open>t = np.arange(N)/BW\<close> and \<open>decay = np.exp(-t/T2)\<close>.
  No script checks \<open>BW\<close>, \<open>N\<close> or \<open>T2\<close>.
\<close>

definition time_axis :: "real \<Rightarrow> nat \<Rightarrow> error + real list" where
  "time_axis BW N = np_div (map real [0..<N]) BW"

definition decay_env :: "real list \<Rightarrow> real \<Rightarrow> error + real list" where
  "decay_env t T2 = bind (np_div (map uminus t) T2) (\<lambda>q. Inr (map exp q))"

record globals =
  t_arr :: "real list"
  decay_arr :: "real list"

definition mk_globals :: "real \<Rightarrow> nat \<Rightarrow> real \<Rightarrow> error + globals" where
  "mk_globals BW N T2 =
     bind (time_axis BW N) (\<lambda>t. bind (decay_env t T2) (\<lambda>decay.
       Inr \<lparr>t_arr = t, decay_arr = decay\<rparr>))"

section \<open>Multiplet synthesis\<close>

text \<open>The term \<open>a*np.exp(1j*2*np.pi*f*t)\<close> on the time axis.\<close>

definition osc :: "real list \<Rightarrow> real \<Rightarrow> real \<Rightarrow> complex list" where
  "osc t a f = map (\<lambda>\<tau>. of_real a * exp (\<i> * of_real (2 * pi * f * \<tau>))) t"

text \<open>
  \<open>multiplet(center, pattern, J)\<close> of the two basis-fitting scripts: the loop over
  \<open>enumerate(pattern)\<close> with the accumulator \<open>sig\<close>, then \<open>return sig*decay\<close>.
\<close>

fun multiplet_loop :: "real list \<Rightarrow> real \<Rightarrow> real \<Rightarrow> nat \<Rightarrow> complex list \<Rightarrow> (nat \<times> real) list
    \<Rightarrow> complex list" where
  "multiplet_loop t center J n sig [] = sig"
| "multiplet_loop t center J n sig ((i, a) # rest) =
     (let offset = (real i - (real n - 1) / 2) * J;
          f = center + offset
      in multiplet_loop t center J n (vadd sig (osc t a f)) rest)"

definition multiplet :: "globals \<Rightarrow> real \<Rightarrow> real list \<Rightarrow> real \<Rightarrow> complex list" where
  "multiplet g center pattern J =
     (let sig = zeros_like (t_arr g);
          n = length pattern;
          sig = multiplet_loop (t_arr g) center J n sig (enumerate 0 pattern)
      in vmul sig (decay_arr g))"

text \<open>
  \<open>multiplet(freqs, amps)\<close> of the FID-to-spectrum and concentration scripts: the loop
  over \<open>zip(freqs, amps)\<close>, returning the accumulator as it is.
\<close>

fun multiplet_fa_loop :: "real list \<Rightarrow> complex list \<Rightarrow> (real \<times> real) list \<Rightarrow> complex list" where
  "multiplet_fa_loop t signal [] = signal"
| "multiplet_fa_loop t signal ((f, a) # rest) = multiplet_fa_loop t (vadd signal (osc t a f)) rest"

definition multiplet_fa :: "globals \<Rightarrow> real list \<Rightarrow> real list \<Rightarrow> complex list" where
  "multiplet_fa g freqs amps = multiplet_fa_loop (t_arr g) (zeros_like (t_arr g)) (zip freqs amps)"

text \<open>
  \<open>molecule_type(kind)\<close> of the FID-to-spectrum script; the title string is left out.
  A \<open>kind\<close> other than 1, 2, 3 falls off the end and returns \<open>None\<close>.
\<close>

definition molecule_type :: "globals \<Rightarrow> int \<Rightarrow> complex list option" where
  "molecule_type g kind =
     (if kind = 1 then
        (let singlet = multiplet_fa g [80] [1];
             J = 7;
             doublet = multiplet_fa g [200 - J / 2, 200 + J / 2] [1, 1]
         in Some (vmul (vadd singlet doublet) (decay_arr g)))
      else if kind = 2 then
        (let singlet = multiplet_fa g [80] [1];
             J = 7;
             doublet = multiplet_fa g [180 - J / 2, 180 + J / 2] [1, 1];
             triplet = multiplet_fa g [300 - J, 300, 300 + J] [1, 2, 1]
         in Some (vmul (vadd (vadd singlet doublet) triplet) (decay_arr g)))
      else if kind = 3 then
        (let J = 7;
             complex_peak = multiplet_fa g
               [250 - 1.5 * J, 250 - 0.5 * J, 250 + 0.5 * J, 250 + 1.5 * J] [1, 3, 3, 1]
         in Some (vmul complex_peak (decay_arr g)))
      else None)"

section \<open>Rounding to double precision\<close>

text \<open>
  \<open>round64 x\<close> is the double nearest to \<open>x\<close>, a tie going to the even significand: the
  value an IEEE 754 binary64 operation returns when its exact result is \<open>x\<close>. The
  significand has 53 bits, so the unit in the last place of \<open>x\<close> is
  \<open>2 ^ (floor(log2 |x|) - 52)\<close>. The range of the exponent is not bounded here: overflow
  and subnormal numbers are left out. \<open>rne\<close> rounds to the nearest integer, a tie going
  to the even one.
\<close>

definition rne :: "real \<Rightarrow> int" where
  "rne x = (let f = \<lfloor>x\<rfloor>; d = x - of_int f
            in if d < 1 / 2 then f else if 1 / 2 < d then f + 1
               else if even f then f else f + 1)"

definition round64 :: "real \<Rightarrow> real" where
  "round64 x =
     (if x = 0 then 0
      else (let e = \<lfloor>log 2 \<bar>x\<bar>\<rfloor> - 52; u = 2 powr (of_int e)
            in sgn x * of_int (rne (\<bar>x\<bar> / u)) * u))"

section \<open>Phases of the basis-fitting animations\<close>

text \<open>
  Both \<open>update\<close> functions are five \<open>if\<close> statements in a row on
  \<open>phase = frame/frames\<close>, with the same conditions. \<open>guard\<close> is the condition of each
  statement, named after what its block displays.
\<close>

datatype phase = REVEAL_COMPONENTS | SHOW_SUM | SHOW_BASIS | SCALE_BASIS | SHOW_FIT

definition guard :: "phase \<Rightarrow> real \<Rightarrow> bool" where
  "guard ph p =
     (case ph of
        REVEAL_COMPONENTS \<Rightarrow> p < 0.3
      | SHOW_SUM \<Rightarrow> 0.3 \<le> p \<and> p < 0.45
      | SHOW_BASIS \<Rightarrow> 0.45 \<le> p \<and> p < 0.65
      | SCALE_BASIS \<Rightarrow> 0.65 \<le> p \<and> p < 0.9
      | SHOW_FIT \<Rightarrow> p \<ge> 0.9)"

definition phases_run :: "real \<Rightarrow> phase list" where
  "phases_run p =
     filter (\<lambda>ph. guard ph p) [REVEAL_COMPONENTS, SHOW_SUM, SHOW_BASIS, SCALE_BASIS, SHOW_FIT]"

text \<open>
  \<open>k = int((phase/0.3)*len(molecules))\<close> as the floats compute it. \<open>p\<close> is the exact
  quotient of \<open>frame\<close> by \<open>frames\<close>; \<open>phase\<close> is the double nearest to it, \<open>0.3\<close> the double
  nearest to three tenths, and the division and the multiplication each round their
  result. \<open>len(molecules)\<close> is a small integer, which a double holds exactly.
  \<open>s = (phase-0.65)/0.25\<close> is computed exactly.
\<close>

definition reveal_k :: "real \<Rightarrow> nat \<Rightarrow> int" where
  "reveal_k p n = py_int (round64 (round64 (round64 p / round64 0.3) * real n))"

definition scale_s :: "real \<Rightarrow> real" where
  "scale_s p = (p - 0.65) / 0.25"

text \<open>The indices \<open>i\<close> of \<open>enumerate(molecules.items())\<close> that pass \<open>if i<=k\<close>.\<close>

definition revealed :: "real \<Rightarrow> nat \<Rightarrow> nat list" where
  "revealed p n = filter (\<lambda>i. int i \<le> reveal_k p n) [0..<n]"

text \<open>
  The interval table of the specification, for comparison with the guards of the code.
\<close>

definition spec_phase :: "real \<Rightarrow> phase" where
  "spec_phase p =
     (if p < 3 / 10 then REVEAL_COMPONENTS
      else if p < 45 / 100 then SHOW_SUM
      else if p < 65 / 100 then SHOW_BASIS
      else if p < 9 / 10 then SCALE_BASIS
      else SHOW_FIT)"

section \<open>Artists\<close>

text \<open>
  A line artist holds the data of its last \<open>set_data(x, y)\<close>; \<open>plot([],[])\<close> starts it
  empty. A text artist holds a position and a text; the formatted strings are kept as
  constructors with the formatted values as arguments.
\<close>

type_synonym line = "real list \<times> real npval"

definition empty_line :: line where
  "empty_line = ([], Array [])"

datatype label_text =
    Blank
  | RealText string real
  | UnitText
  | ConcText real
  | MoleculeBText
  | MoleculeText string real

record label =
  pos :: "real \<times> real"
  caption :: label_text

definition empty_label :: label where
  "empty_label = \<lparr>pos = (0, 0), caption = Blank\<rparr>"

section \<open>Time-domain basis fitting\<close>

text \<open>
  A species of \<open>molecules\<close> is \<open>{"fid": ..., "conc": ...}\<close>. A dict literal inserts its
  items from left to right.
\<close>

type_synonym td_species = "complex list \<times> real"

definition dict_literal :: "('k \<times> 'v) list \<Rightarrow> ('k \<times> 'v) list" where
  "dict_literal items = foldl (\<lambda>d (k, v). dict_put d k v) [] items"

text \<open>The \<open>molecules\<close> of the script, with \<open>J\<close> at its default 7.\<close>

definition td_molecules_src :: "globals \<Rightarrow> (string \<times> td_species) list" where
  "td_molecules_src g = dict_literal
     [(''A'', (multiplet g 80 [1] 7, 5)),
      (''B'', (vadd (multiplet g 140 [1] 7) (multiplet g 200 [1, 1] 7), 10)),
      (''C'', (multiplet g 260 [1, 2, 1] 7, 3)),
      (''D'', (multiplet g 320 [1, 3, 3, 1] 7, 12))]"

text \<open>\<open>basis = fid / np.max(np.abs(fid))\<close>.\<close>

definition td_normalize :: "complex list \<Rightarrow> error + complex list" where
  "td_normalize fid = bind (np_max (map cmod fid)) (\<lambda>m. np_div fid (of_real m))"

text \<open>The body of the loop that fills \<open>basis_fids\<close> and \<open>real_fids\<close>.\<close>

fun td_build_step :: "string \<times> td_species
    \<Rightarrow> (string \<times> complex list) list \<times> (string \<times> complex list) list
    \<Rightarrow> error + (string \<times> complex list) list \<times> (string \<times> complex list) list" where
  "td_build_step (name, (fid, conc)) (basis_fids, real_fids) =
     bind (td_normalize fid) (\<lambda>basis.
       let real = map (\<lambda>z. z * of_real conc) basis
       in Inr (dict_put basis_fids name basis, dict_put real_fids name real))"

record td_signals =
  td_frames :: int
  td_t :: "real list"
  td_molecules :: "(string \<times> td_species) list"
  basis_fids :: "(string \<times> complex list) list"
  real_fids :: "(string \<times> complex list) list"
  td_real_sum :: "complex npval"

record td_artists =
  td_black_lines :: "(string \<times> line) list"
  td_red_lines :: "(string \<times> line) list"
  td_sum_black :: line
  td_sum_red :: line
  td_labels_real :: "(string \<times> label) list"
  td_labels_basis :: "(string \<times> label) list"

record td_world =
  td_sig :: td_signals
  td_art :: td_artists

text \<open>The figure section: one empty artist per key of \<open>molecules\<close>.\<close>

definition td_figure :: "(string \<times> td_species) list \<Rightarrow> td_artists" where
  "td_figure molecules =
     \<lparr>td_black_lines = map (\<lambda>(n, _). (n, empty_line)) molecules,
      td_red_lines = map (\<lambda>(n, _). (n, empty_line)) molecules,
      td_sum_black = empty_line,
      td_sum_red = empty_line,
      td_labels_real = map (\<lambda>(n, _). (n, empty_label)) molecules,
      td_labels_basis = map (\<lambda>(n, _). (n, empty_label)) molecules\<rparr>"

text \<open>Everything the script runs before the animation starts.\<close>

definition td_setup :: "int \<Rightarrow> real list \<Rightarrow> (string \<times> td_species) list \<Rightarrow> error + td_world" where
  "td_setup frames t molecules =
     bind (for_each td_build_step molecules ([], [])) (\<lambda>(bf, rf).
       Inr \<lparr>td_sig = \<lparr>td_frames = frames, td_t = t, td_molecules = molecules,
                       basis_fids = bf, real_fids = rf,
                       td_real_sum = py_sum (map snd rf)\<rparr>,
            td_art = td_figure molecules\<rparr>)"

definition td_script :: "real \<Rightarrow> nat \<Rightarrow> real \<Rightarrow> int \<Rightarrow> error + td_world" where
  "td_script BW N T2 frames =
     bind (mk_globals BW N T2) (\<lambda>g. td_setup frames (t_arr g) (td_molecules_src g))"

text \<open>\<open>sum(basis_fids[n]*molecules[n]["conc"] for n in molecules)\<close>.\<close>

fun td_fitted_items :: "td_signals \<Rightarrow> string list \<Rightarrow> error + complex list list" where
  "td_fitted_items s [] = Inr []"
| "td_fitted_items s (n # ns) =
     bind (dict_get (basis_fids s) n) (\<lambda>b.
     bind (dict_get (td_molecules s) n) (\<lambda>(fid, conc).
     bind (td_fitted_items s ns) (\<lambda>rest.
       Inr (map (\<lambda>z. z * of_real conc) b # rest))))"

definition td_fitted :: "td_signals \<Rightarrow> error + complex npval" where
  "td_fitted s = bind (td_fitted_items s (map fst (td_molecules s))) (\<lambda>items. Inr (py_sum items))"

text \<open>The five blocks of \<open>update\<close>.\<close>

definition td_reveal_body :: "td_signals \<Rightarrow> int \<Rightarrow> nat \<times> string \<times> td_species \<Rightarrow> td_artists
    \<Rightarrow> error + td_artists" where
  "td_reveal_body s k = (\<lambda>(i, name, (fid, conc)) a.
     if int i \<le> k then
       bind (dict_get (real_fids s) name) (\<lambda>rf.
       let y = map Re rf in
       bind (artist_set (td_black_lines a) name (\<lambda>_. (td_t s, Array y))) (\<lambda>bl.
       bind (artist_set (td_labels_real a) name
               (\<lambda>l. l\<lparr>pos := (0.25, 18 - 4 * real i)\<rparr>)) (\<lambda>lr.
       bind (artist_set lr name (\<lambda>l. l\<lparr>caption := RealText name conc\<rparr>)) (\<lambda>lr.
         Inr (a\<lparr>td_black_lines := bl, td_labels_real := lr\<rparr>)))))
     else Inr a)"

definition td_phase1 :: "td_signals \<Rightarrow> real \<Rightarrow> td_artists \<Rightarrow> error + td_artists" where
  "td_phase1 s p a =
     (let k = reveal_k p (length (td_molecules s))
      in for_each (td_reveal_body s k) (enumerate 0 (td_molecules s)) a)"

definition td_hide_body :: "string \<Rightarrow> td_artists \<Rightarrow> error + td_artists" where
  "td_hide_body n a =
     bind (artist_set (td_black_lines a) n (\<lambda>_. empty_line)) (\<lambda>bl.
     bind (artist_set (td_labels_real a) n (\<lambda>l. l\<lparr>caption := Blank\<rparr>)) (\<lambda>lr.
       Inr (a\<lparr>td_black_lines := bl, td_labels_real := lr\<rparr>)))"

definition td_phase2 :: "td_signals \<Rightarrow> td_artists \<Rightarrow> error + td_artists" where
  "td_phase2 s a =
     for_each td_hide_body (map fst (td_molecules s))
       (a\<lparr>td_sum_black := (td_t s, np_real (td_real_sum s))\<rparr>)"

definition td_basis_body :: "td_signals \<Rightarrow> nat \<times> string \<times> td_species \<Rightarrow> td_artists
    \<Rightarrow> error + td_artists" where
  "td_basis_body s = (\<lambda>(i, name, data) a.
     bind (dict_get (basis_fids s) name) (\<lambda>b.
     let y = map Re b in
     bind (artist_set (td_red_lines a) name (\<lambda>_. (td_t s, Array y))) (\<lambda>rl.
     bind (artist_set (td_labels_basis a) name
             (\<lambda>l. l\<lparr>pos := (0.25, 18 - 4 * real i)\<rparr>)) (\<lambda>lb.
     bind (artist_set lb name (\<lambda>l. l\<lparr>caption := UnitText\<rparr>)) (\<lambda>lb.
       Inr (a\<lparr>td_red_lines := rl, td_labels_basis := lb\<rparr>))))))"

definition td_phase3 :: "td_signals \<Rightarrow> td_artists \<Rightarrow> error + td_artists" where
  "td_phase3 s a = for_each (td_basis_body s) (enumerate 0 (td_molecules s)) a"

definition td_scale_body :: "td_signals \<Rightarrow> real \<Rightarrow> nat \<times> string \<times> td_species \<Rightarrow> td_artists
    \<Rightarrow> error + td_artists" where
  "td_scale_body s sc = (\<lambda>(i, name, (fid, conc)) a.
     bind (dict_get (basis_fids s) name) (\<lambda>b.
     let y = map (\<lambda>z. Re (z * of_real conc * of_real sc)) b in
     bind (artist_set (td_red_lines a) name (\<lambda>_. (td_t s, Array y))) (\<lambda>rl.
     bind (artist_set (td_labels_basis a) name
             (\<lambda>l. l\<lparr>pos := (0.25, 18 - 4 * real i)\<rparr>)) (\<lambda>lb.
     bind (artist_set lb name (\<lambda>l. l\<lparr>caption := ConcText conc\<rparr>)) (\<lambda>lb.
       Inr (a\<lparr>td_red_lines := rl, td_labels_basis := lb\<rparr>))))))"

definition td_phase4 :: "td_signals \<Rightarrow> real \<Rightarrow> td_artists \<Rightarrow> error + td_artists" where
  "td_phase4 s p a =
     (let sc = scale_s p
      in for_each (td_scale_body s sc) (enumerate 0 (td_molecules s)) a)"

definition td_phase5 :: "td_signals \<Rightarrow> td_artists \<Rightarrow> error + td_artists" where
  "td_phase5 s a =
     bind (td_fitted s) (\<lambda>fitted. Inr (a\<lparr>td_sum_red := (td_t s, np_real fitted)\<rparr>))"

definition td_block :: "phase \<Rightarrow> td_signals \<Rightarrow> real \<Rightarrow> td_artists \<Rightarrow> error + td_artists" where
  "td_block ph s p a =
     (case ph of
        REVEAL_COMPONENTS \<Rightarrow> td_phase1 s p a
      | SHOW_SUM \<Rightarrow> td_phase2 s a
      | SHOW_BASIS \<Rightarrow> td_phase3 s a
      | SCALE_BASIS \<Rightarrow> td_phase4 s p a
      | SHOW_FIT \<Rightarrow> td_phase5 s a)"

definition td_step :: "phase \<Rightarrow> td_signals \<Rightarrow> real \<Rightarrow> td_artists \<Rightarrow> error + td_artists" where
  "td_step ph s p a = (if guard ph p then td_block ph s p a else Inr a)"

definition td_update :: "td_world \<Rightarrow> int \<Rightarrow> error + td_world" where
  "td_update w frame =
     (let s = td_sig w in
      bind (py_truediv frame (td_frames s)) (\<lambda>p.
      bind (td_step REVEAL_COMPONENTS s p (td_art w)) (\<lambda>a.
      bind (td_step SHOW_SUM s p a) (\<lambda>a.
      bind (td_step SHOW_BASIS s p a) (\<lambda>a.
      bind (td_step SCALE_BASIS s p a) (\<lambda>a.
      bind (td_step SHOW_FIT s p a) (\<lambda>a.
        Inr (w\<lparr>td_art := a\<rparr>))))))))"

section \<open>Spectra\<close>

text \<open>
  \<open>np.fft.fft\<close> is the discrete Fourier transform of numpy's documentation,
  \<open>A\<^sub>k = \<Sum>\<^sub>m a\<^sub>m exp(-2\<pi>i mk/n)\<close>; it raises on a 0-d value and on an empty array.
  \<open>np.fft.fftshift\<close> rolls the array by \<open>n // 2\<close>.
\<close>

definition dft :: "complex list \<Rightarrow> complex list" where
  "dft xs = map (\<lambda>k. \<Sum>m<length xs.
               xs ! m * exp (- (2 * of_real pi * \<i> * of_nat m * of_nat k / of_nat (length xs))))
             [0..<length xs]"

definition np_fft :: "complex npval \<Rightarrow> error + complex list" where
  "np_fft v = (case v of Scalar _ \<Rightarrow> Inl IndexError
               | Array xs \<Rightarrow> if xs = [] then Inl ValueError else Inr (dft xs))"

definition fftshift :: "'a list \<Rightarrow> 'a list" where
  "fftshift xs = (let k = length xs - length xs div 2 in drop k xs @ take k xs)"

text \<open>\<open>np.abs(np.fft.fftshift(np.fft.fft(x)))\<close>.\<close>

definition spectrum :: "complex npval \<Rightarrow> error + real list" where
  "spectrum x = bind (np_fft x) (\<lambda>F. Inr (map cmod (fftshift F)))"

text \<open>\<open>xs[i]\<close> with an index that is not negative.\<close>

definition np_index :: "'a list \<Rightarrow> nat \<Rightarrow> error + 'a" where
  "np_index xs i = (if i < length xs then Inr (xs ! i) else Inl IndexError)"

section \<open>Spectral-domain basis fitting\<close>

text \<open>
  A species is \<open>{"peaks": [...], "conc": ...}\<close>; the unused \<open>"split"\<close> entry of
  molecule B is left out.
\<close>

type_synonym sd_species = "complex list list \<times> real"

definition sd_molecules_src :: "globals \<Rightarrow> (string \<times> sd_species) list" where
  "sd_molecules_src g = dict_literal
     [(''A'', ([multiplet g 80 [1] 7], 5)),
      (''B'', ([multiplet g 140 [1] 7, multiplet g 200 [1, 1] 7], 10)),
      (''C'', ([multiplet g 260 [1, 2, 1] 7], 3)),
      (''D'', ([multiplet g 320 [1, 3, 3, 1] 7], 12))]"

text \<open>\<open>basis = spec/spec.max()\<close>.\<close>

definition sd_normalize :: "real list \<Rightarrow> error + real list" where
  "sd_normalize spec = bind (np_max spec) (\<lambda>m. np_div spec m)"

fun sd_build_step :: "string \<times> sd_species
    \<Rightarrow> (string \<times> real list) list \<times> (string \<times> real list) list
    \<Rightarrow> error + (string \<times> real list) list \<times> (string \<times> real list) list" where
  "sd_build_step (name, (peaks, conc)) (basis_specs, real_specs) =
     (let mol_sum = py_sum peaks in
      bind (spectrum mol_sum) (\<lambda>spec.
      bind (sd_normalize spec) (\<lambda>basis.
        let real = map (\<lambda>x. x * conc) basis
        in Inr (dict_put basis_specs name basis, dict_put real_specs name real))))"

record sd_signals =
  sd_frames :: int
  sd_freq :: "real list"
  sd_molecules :: "(string \<times> sd_species) list"
  basis_specs :: "(string \<times> real list) list"
  real_specs :: "(string \<times> real list) list"
  sd_real_sum :: "real npval"

record sd_artists =
  sd_black_lines :: "(string \<times> line) list"
  sd_red_lines :: "(string \<times> line) list"
  sd_sum_black :: line
  sd_sum_red :: line
  sd_labels_real :: "(string \<times> label) list"
  sd_labels_basis :: "(string \<times> label) list"

record sd_world =
  sd_sig :: sd_signals
  sd_art :: sd_artists

definition sd_figure :: "(string \<times> sd_species) list \<Rightarrow> sd_artists" where
  "sd_figure molecules =
     \<lparr>sd_black_lines = map (\<lambda>(n, _). (n, empty_line)) molecules,
      sd_red_lines = map (\<lambda>(n, _). (n, empty_line)) molecules,
      sd_sum_black = empty_line,
      sd_sum_red = empty_line,
      sd_labels_real = map (\<lambda>(n, _). (n, empty_label)) molecules,
      sd_labels_basis = map (\<lambda>(n, _). (n, empty_label)) molecules\<rparr>"

definition sd_setup :: "int \<Rightarrow> real list \<Rightarrow> (string \<times> sd_species) list \<Rightarrow> error + sd_world" where
  "sd_setup frames freq molecules =
     bind (for_each sd_build_step molecules ([], [])) (\<lambda>(bs, rs).
       Inr \<lparr>sd_sig = \<lparr>sd_frames = frames, sd_freq = freq, sd_molecules = molecules,
                       basis_specs = bs, real_specs = rs,
                       sd_real_sum = py_sum (map snd rs)\<rparr>,
            sd_art = sd_figure molecules\<rparr>)"

text \<open>The script has \<open>freq = np.linspace(-400,400,N)\<close>.\<close>

definition sd_script :: "real \<Rightarrow> nat \<Rightarrow> real \<Rightarrow> int \<Rightarrow> error + sd_world" where
  "sd_script BW N T2 frames =
     bind (mk_globals BW N T2) (\<lambda>g.
       sd_setup frames (np_linspace (- 400) 400 N) (sd_molecules_src g))"

text \<open>\<open>sum(basis_specs[n]*molecules[n]["conc"] for n in molecules)\<close>.\<close>

fun sd_fitted_items :: "sd_signals \<Rightarrow> string list \<Rightarrow> error + real list list" where
  "sd_fitted_items s [] = Inr []"
| "sd_fitted_items s (n # ns) =
     bind (dict_get (basis_specs s) n) (\<lambda>b.
     bind (dict_get (sd_molecules s) n) (\<lambda>(peaks, conc).
     bind (sd_fitted_items s ns) (\<lambda>rest.
       Inr (map (\<lambda>x. x * conc) b # rest))))"

definition sd_fitted :: "sd_signals \<Rightarrow> error + real npval" where
  "sd_fitted s = bind (sd_fitted_items s (map fst (sd_molecules s))) (\<lambda>items. Inr (py_sum items))"

text \<open>\<open>x0 = freq[np.argmax(y)]\<close> and \<open>y0 = y.max()*1.05\<close>.\<close>

definition sd_label_pos :: "real list \<Rightarrow> real list \<Rightarrow> error + real \<times> real" where
  "sd_label_pos freq y =
     bind (np_argmax y) (\<lambda>i.
     bind (np_index freq i) (\<lambda>x0.
     bind (np_max y) (\<lambda>m.
       Inr (x0, m * 1.05))))"

definition sd_reveal_body :: "sd_signals \<Rightarrow> int \<Rightarrow> nat \<times> string \<times> sd_species \<Rightarrow> sd_artists
    \<Rightarrow> error + sd_artists" where
  "sd_reveal_body s k = (\<lambda>(i, name, (peaks, conc)) a.
     if int i \<le> k then
       bind (dict_get (real_specs s) name) (\<lambda>y.
       bind (artist_set (sd_black_lines a) name (\<lambda>_. (sd_freq s, Array y))) (\<lambda>bl.
       bind (sd_label_pos (sd_freq s) y) (\<lambda>xy.
       let tx = (if name = ''B'' then MoleculeBText else MoleculeText name conc) in
       bind (artist_set (sd_labels_real a) name (\<lambda>l. l\<lparr>pos := xy\<rparr>)) (\<lambda>lr.
       bind (artist_set lr name (\<lambda>l. l\<lparr>caption := tx\<rparr>)) (\<lambda>lr.
         Inr (a\<lparr>sd_black_lines := bl, sd_labels_real := lr\<rparr>))))))
     else Inr a)"

definition sd_phase1 :: "sd_signals \<Rightarrow> real \<Rightarrow> sd_artists \<Rightarrow> error + sd_artists" where
  "sd_phase1 s p a =
     (let k = reveal_k p (length (sd_molecules s))
      in for_each (sd_reveal_body s k) (enumerate 0 (sd_molecules s)) a)"

definition sd_hide_body :: "string \<Rightarrow> sd_artists \<Rightarrow> error + sd_artists" where
  "sd_hide_body n a =
     bind (artist_set (sd_black_lines a) n (\<lambda>_. empty_line)) (\<lambda>bl.
     bind (artist_set (sd_labels_real a) n (\<lambda>l. l\<lparr>caption := Blank\<rparr>)) (\<lambda>lr.
       Inr (a\<lparr>sd_black_lines := bl, sd_labels_real := lr\<rparr>)))"

definition sd_phase2 :: "sd_signals \<Rightarrow> sd_artists \<Rightarrow> error + sd_artists" where
  "sd_phase2 s a =
     for_each sd_hide_body (map fst (sd_molecules s))
       (a\<lparr>sd_sum_black := (sd_freq s, sd_real_sum s)\<rparr>)"

definition sd_basis_body :: "sd_signals \<Rightarrow> string \<Rightarrow> sd_artists \<Rightarrow> error + sd_artists" where
  "sd_basis_body s name a =
     bind (dict_get (basis_specs s) name) (\<lambda>y.
     bind (artist_set (sd_red_lines a) name (\<lambda>_. (sd_freq s, Array y))) (\<lambda>rl.
     bind (sd_label_pos (sd_freq s) y) (\<lambda>xy.
     bind (artist_set (sd_labels_basis a) name (\<lambda>l. l\<lparr>pos := xy\<rparr>)) (\<lambda>lb.
     bind (artist_set lb name (\<lambda>l. l\<lparr>caption := UnitText\<rparr>)) (\<lambda>lb.
       Inr (a\<lparr>sd_red_lines := rl, sd_labels_basis := lb\<rparr>))))))"

definition sd_phase3 :: "sd_signals \<Rightarrow> sd_artists \<Rightarrow> error + sd_artists" where
  "sd_phase3 s a = for_each (sd_basis_body s) (map fst (sd_molecules s)) a"

definition sd_scale_body :: "sd_signals \<Rightarrow> real \<Rightarrow> string \<times> sd_species \<Rightarrow> sd_artists
    \<Rightarrow> error + sd_artists" where
  "sd_scale_body s sc = (\<lambda>(name, (peaks, conc)) a.
     bind (dict_get (basis_specs s) name) (\<lambda>b.
     let y = map (\<lambda>x. x * conc * sc) b in
     bind (artist_set (sd_red_lines a) name (\<lambda>_. (sd_freq s, Array y))) (\<lambda>rl.
     bind (sd_label_pos (sd_freq s) y) (\<lambda>xy.
     bind (artist_set (sd_labels_basis a) name (\<lambda>l. l\<lparr>pos := xy\<rparr>)) (\<lambda>lb.
     bind (artist_set lb name (\<lambda>l. l\<lparr>caption := ConcText conc\<rparr>)) (\<lambda>lb.
       Inr (a\<lparr>sd_red_lines := rl, sd_labels_basis := lb\<rparr>)))))))"

definition sd_phase4 :: "sd_signals \<Rightarrow> real \<Rightarrow> sd_artists \<Rightarrow> error + sd_artists" where
  "sd_phase4 s p a =
     (let sc = scale_s p
      in for_each (sd_scale_body s sc) (sd_molecules s) a)"

definition sd_phase5 :: "sd_signals \<Rightarrow> sd_artists \<Rightarrow> error + sd_artists" where
  "sd_phase5 s a =
     bind (sd_fitted s) (\<lambda>fitted. Inr (a\<lparr>sd_sum_red := (sd_freq s, fitted)\<rparr>))"

definition sd_block :: "phase \<Rightarrow> sd_signals \<Rightarrow> real \<Rightarrow> sd_artists \<Rightarrow> error + sd_artists" where
  "sd_block ph s p a =
     (case ph of
        REVEAL_COMPONENTS \<Rightarrow> sd_phase1 s p a
      | SHOW_SUM \<Rightarrow> sd_phase2 s a
      | SHOW_BASIS \<Rightarrow> sd_phase3 s a
      | SCALE_BASIS \<Rightarrow> sd_phase4 s p a
      | SHOW_FIT \<Rightarrow> sd_phase5 s a)"

definition sd_step :: "phase \<Rightarrow> sd_signals \<Rightarrow> real \<Rightarrow> sd_artists \<Rightarrow> error + sd_artists" where
  "sd_step ph s p a = (if guard ph p then sd_block ph s p a else Inr a)"

definition sd_update :: "sd_world \<Rightarrow> int \<Rightarrow> error + sd_world" where
  "sd_update w frame =
     (let s = sd_sig w in
      bind (py_truediv frame (sd_frames s)) (\<lambda>p.
      bind (sd_step REVEAL_COMPONENTS s p (sd_art w)) (\<lambda>a.
      bind (sd_step SHOW_SUM s p a) (\<lambda>a.
      bind (sd_step SHOW_BASIS s p a) (\<lambda>a.
      bind (sd_step SCALE_BASIS s p a) (\<lambda>a.
      bind (sd_step SHOW_FIT s p a) (\<lambda>a.
        Inr (w\<lparr>sd_art := a\<rparr>))))))))"

section \<open>Truncated FID animations\<close>

text \<open>\<open>idx = int((frame/frames)*N)\<close> of the FID-to-spectrum and concentration scripts.\<close>

definition trunc_idx :: "int \<Rightarrow> nat \<Rightarrow> int \<Rightarrow> error + int" where
  "trunc_idx frames N frame =
     bind (py_truediv frame frames) (\<lambda>p. Inr (py_int (p * real N)))"

text \<open>
  \<open>padded[:idx] = current\<close>: the value must have the shape of the slice, or one entry
  that is broadcast.
\<close>

definition slice_assign :: "'a list \<Rightarrow> int \<Rightarrow> 'a list \<Rightarrow> error + 'a list" where
  "slice_assign padded idx current =
     (let l = length (py_prefix padded idx) in
      if length current = l then Inr (current @ drop l padded)
      else if length current = 1 then Inr (replicate l (hd current) @ drop l padded)
      else Inl ValueError)"

record fts_artists =
  fts_line_fid :: "real list \<times> real list"
  fts_line_spec :: "real list \<times> real list"

text \<open>
  \<open>update\<close> inside \<open>create_animation\<close> of the FID-to-spectrum script; \<open>fid\<close> is the
  signal of \<open>molecule_type(kind)\<close>, \<open>freq_axis = np.linspace(-BW/2, BW/2, N)\<close>.
\<close>

definition fts_update :: "int \<Rightarrow> nat \<Rightarrow> real list \<Rightarrow> real list \<Rightarrow> complex list \<Rightarrow> int
    \<Rightarrow> error + fts_artists" where
  "fts_update frames N t freq_axis fid frame =
     bind (trunc_idx frames N frame) (\<lambda>idx.
     let current = py_prefix fid idx;
         padded = replicate N 0 in
     bind (slice_assign padded idx current) (\<lambda>padded.
     bind (spectrum (Array padded)) (\<lambda>spec.
       Inr \<lparr>fts_line_fid = (py_prefix t idx, map Re current),
            fts_line_spec = (freq_axis, spec)\<rparr>)))"

text \<open>
  \<open>build_case(kind)\<close> and \<open>update\<close> inside \<open>animate_case\<close> of the concentration script.
  The text panel is kept as the total amplitude and the percentage of each part.
\<close>

definition build_case :: "globals \<Rightarrow> int \<Rightarrow> complex list list \<times> string list" where
  "build_case g kind =
     (let parts = []; labels = [];
          (parts, labels) =
            (if kind \<ge> 1
             then (parts @ [vmul (multiplet_fa g [80] [1]) (decay_arr g)], labels @ [''Singlet''])
             else (parts, labels));
          (parts, labels) =
            (if kind \<ge> 2
             then (let J = 7 in
                   (parts @ [vmul (multiplet_fa g [200 - J / 2, 200 + J / 2] [1, 1]) (decay_arr g)],
                    labels @ [''Doublet'']))
             else (parts, labels));
          (parts, labels) =
            (if kind \<ge> 3
             then (let J = 7 in
                   (parts @ [vmul (multiplet_fa g
                       [320 - 1.5 * J, 320 - 0.5 * J, 320 + 0.5 * J, 320 + 1.5 * J] [1, 3, 3, 1])
                       (decay_arr g)],
                    labels @ [''Multiplet'']))
             else (parts, labels))
      in (parts, labels))"

record conc_artists =
  conc_line_total :: "real list \<times> real list"
  conc_part_lines :: "(real list \<times> real list) list"
  conc_total_amp :: real
  conc_fractions :: "(string \<times> real) list"

fun conc_fractions_loop :: "real \<Rightarrow> (complex list \<times> string) list \<Rightarrow> error + (string \<times> real) list" where
  "conc_fractions_loop total_amp [] = Inr []"
| "conc_fractions_loop total_amp ((p, l) # rest) =
     bind (np_index p 0) (\<lambda>p0.
     let amp = cmod p0;
         frac = (if total_amp > 0 then 100 * amp / total_amp else 0) in
     bind (conc_fractions_loop total_amp rest) (\<lambda>more. Inr ((l, frac) # more)))"

definition conc_update :: "int \<Rightarrow> nat \<Rightarrow> real list \<Rightarrow> complex list list \<Rightarrow> string list \<Rightarrow> int
    \<Rightarrow> error + conc_artists" where
  "conc_update frames N t parts labels frame =
     (let total_fid = py_sum parts in
      bind (trunc_idx frames N frame) (\<lambda>idx.
      case total_fid of
        Scalar _ \<Rightarrow> Inl TypeError
      | Array tot \<Rightarrow>
          (let current = py_prefix tot idx;
               line_total = (py_prefix t idx, map Re current);
               part_lines = map (\<lambda>p. (py_prefix t idx, map Re (py_prefix p idx))) parts in
           bind (np_index tot 0) (\<lambda>s0.
           let total_amp = cmod s0 in
           bind (conc_fractions_loop total_amp (zip parts labels)) (\<lambda>fr.
             Inr \<lparr>conc_line_total = line_total, conc_part_lines = part_lines,
                  conc_total_amp = total_amp, conc_fractions = fr\<rparr>)))))"

section \<open>RF pulse to FID\<close>

text \<open>
  The settings of the script. The magnetisation arrays \<open>Mx\<close>, \<open>My\<close>, \<open>Mz\<close>, the
  \<open>phases\<close> and the list \<open>fid\<close> are module globals that \<open>update\<close> changes in place.
  The initial phases are random, so they are an argument of the initial state. Of the
  drawing, the arrows of the spins and of the net magnetisation, the FID line and the
  title of the FID axes are kept.
\<close>

definition rf_fps :: int where "rf_fps = 30"
definition rf_seconds :: int where "rf_seconds = 20"
definition rf_frames :: int where "rf_frames = rf_fps * rf_seconds"
definition rf_frame :: int where "rf_frame = py_int (real_of_int rf_frames * 0.2)"
definition TE_frame :: int where "TE_frame = py_int (real_of_int rf_frames * 0.35)"
definition n_spins :: nat where "n_spins = 6"
definition rf_T2 :: real where "rf_T2 = 250"
definition freq_offsets :: "real list" where "freq_offsets = np_linspace (- 0.1) 0.1 n_spins"

datatype rf_title = TitleFID | TitleWaiting | TitleRecording

record rf_state =
  rf_Mx :: "real list"
  rf_My :: "real list"
  rf_Mz :: "real list"
  rf_phases :: "real list"
  rf_fid :: "real list"
  rf_fid_line :: "real list \<times> real list"
  rf_title :: rf_title
  rf_arrows :: "(real \<times> real \<times> real) list"

definition rf_init :: "real list \<Rightarrow> rf_state" where
  "rf_init phases0 =
     \<lparr>rf_Mx = replicate n_spins 0, rf_My = replicate n_spins 0, rf_Mz = replicate n_spins 1,
      rf_phases = phases0, rf_fid = [], rf_fid_line = ([], []), rf_title = TitleFID,
      rf_arrows = []\<rparr>"

text \<open>\<open>xs[i] = v\<close> with an index that is not negative.\<close>

definition np_set :: "'a list \<Rightarrow> nat \<Rightarrow> 'a \<Rightarrow> error + 'a list" where
  "np_set xs i v = (if i < length xs then Inr (xs[i := v]) else Inl IndexError)"

definition rf_before_body :: "nat \<Rightarrow> rf_state \<Rightarrow> error + rf_state" where
  "rf_before_body i st =
     bind (np_set (rf_Mx st) i 0) (\<lambda>mx.
     bind (np_set (rf_My st) i 0) (\<lambda>my.
     bind (np_set (rf_Mz st) i 1) (\<lambda>mz.
       Inr (st\<lparr>rf_Mx := mx, rf_My := my, rf_Mz := mz\<rparr>))))"

definition rf_after_body :: "int \<Rightarrow> nat \<Rightarrow> rf_state \<Rightarrow> error + rf_state" where
  "rf_after_body frame i st =
     bind (np_index (rf_phases st) i) (\<lambda>ph.
     bind (np_index freq_offsets i) (\<lambda>off.
     bind (np_set (rf_phases st) i (ph + (0.3 + off))) (\<lambda>phases.
     let decay = exp (- real_of_int (frame - rf_frame) / rf_T2) in
     bind (np_index phases i) (\<lambda>ph.
     bind (np_set (rf_Mx st) i (decay * cos ph)) (\<lambda>mx.
     bind (np_set (rf_My st) i (decay * sin ph)) (\<lambda>my.
     bind (np_set (rf_Mz st) i 0) (\<lambda>mz.
       Inr (st\<lparr>rf_Mx := mx, rf_My := my, rf_Mz := mz, rf_phases := phases\<rparr>))))))))"

definition rf_spin_arrow :: "rf_state \<Rightarrow> nat \<Rightarrow> (real \<times> real \<times> real) list
    \<Rightarrow> error + (real \<times> real \<times> real) list" where
  "rf_spin_arrow st i acc =
     bind (np_index (rf_Mx st) i) (\<lambda>x.
     bind (np_index (rf_My st) i) (\<lambda>y.
     bind (np_index (rf_Mz st) i) (\<lambda>z.
       Inr (acc @ [(x, y, z)]))))"

definition rf_update :: "rf_state \<Rightarrow> int \<Rightarrow> error + rf_state" where
  "rf_update st frame =
     bind (if frame < rf_frame then for_each rf_before_body [0..<n_spins] st
           else if frame = rf_frame then
             Inr (st\<lparr>rf_Mx := map (\<lambda>_. 1) (rf_Mx st),
                     rf_My := map (\<lambda>_. 0) (rf_My st),
                     rf_Mz := map (\<lambda>_. 0) (rf_Mz st)\<rparr>)
           else for_each (rf_after_body frame) [0..<n_spins] st) (\<lambda>st.
     bind (for_each (rf_spin_arrow st) [0..<n_spins] []) (\<lambda>spin_arrows.
     let Mx_net = sum_list (rf_Mx st);
         My_net = sum_list (rf_My st);
         Mz_net = sum_list (rf_Mz st);
         net_arrow = (Mx_net / real n_spins, My_net / real n_spins, Mz_net / real n_spins);
         fid = rf_fid st @ [if frame > rf_frame then Mx_net else 0];
         st = st\<lparr>rf_fid := fid, rf_arrows := spin_arrows @ [net_arrow]\<rparr>
     in if frame > TE_frame
        then Inr (st\<lparr>rf_fid_line := (np_linspace 0 (real_of_int rf_seconds) (length fid), fid),
                     rf_title := TitleRecording\<rparr>)
        else Inr (st\<lparr>rf_title := TitleWaiting, rf_fid_line := ([], [])\<rparr>)))"

text \<open>
  \<open>FuncAnimation(fig, update, frames=frames, ...)\<close> calls \<open>update\<close> with the frame
  indices in increasing order; \<open>rf_run st n\<close> is the calls for the frames \<open>0\<close> to \<open>n - 1\<close>.
\<close>

definition rf_run :: "rf_state \<Rightarrow> nat \<Rightarrow> error + rf_state" where
  "rf_run st n = for_each (\<lambda>frame st. rf_update st (int frame)) [0..<n] st"

section \<open>Reference definitions and invariants\<close>

text \<open>
  The signal of a pattern-based multiplet as the specification states it: peak \<open>i\<close> at
  \<open>center + (i - (n-1)/2) J\<close>, the signal the sum of \<open>amplitude\<^sub>i exp(i 2\<pi> f\<^sub>i t)\<close>.
\<close>

definition spec_peak :: "real \<Rightarrow> nat \<Rightarrow> real \<Rightarrow> nat \<Rightarrow> real" where
  "spec_peak center n J i = center + (real i - (real n - 1) / 2) * J"

definition spec_multiplet :: "real list \<Rightarrow> real \<Rightarrow> real list \<Rightarrow> real \<Rightarrow> complex list" where
  "spec_multiplet t center pattern J =
     map (\<lambda>\<tau>. \<Sum>i<length pattern.
            of_real (pattern ! i)
              * exp (\<i> * of_real (2 * pi * spec_peak center (length pattern) J i * \<tau>))) t"

text \<open>The same for explicit frequencies and amplitudes, paired as \<open>zip\<close> pairs them.\<close>

definition spec_multiplet_fa :: "real list \<Rightarrow> real list \<Rightarrow> real list \<Rightarrow> complex list" where
  "spec_multiplet_fa t freqs amps =
     map (\<lambda>\<tau>. \<Sum>i<min (length freqs) (length amps).
            of_real (amps ! i) * exp (\<i> * of_real (2 * pi * (freqs ! i) * \<tau>))) t"

text \<open>
  What holds of the globals of a basis-fitting script once its setup has run: the keys of
  \<open>molecules\<close> are distinct, and every derived dict has the same keys in the same order.
\<close>

definition td_wf :: "td_world \<Rightarrow> bool" where
  "td_wf w =
     (let s = td_sig w; a = td_art w; names = map fst (td_molecules s)
      in distinct names \<and> td_frames s \<noteq> 0
         \<and> map fst (basis_fids s) = names \<and> map fst (real_fids s) = names
         \<and> map fst (td_black_lines a) = names \<and> map fst (td_red_lines a) = names
         \<and> map fst (td_labels_real a) = names \<and> map fst (td_labels_basis a) = names)"

definition sd_wf :: "sd_world \<Rightarrow> bool" where
  "sd_wf w =
     (let s = sd_sig w; a = sd_art w; names = map fst (sd_molecules s)
      in distinct names \<and> sd_frames s \<noteq> 0
         \<and> map fst (basis_specs s) = names \<and> map fst (real_specs s) = names
         \<and> map fst (sd_black_lines a) = names \<and> map fst (sd_red_lines a) = names
         \<and> map fst (sd_labels_real a) = names \<and> map fst (sd_labels_basis a) = names)"

text \<open>
  Two small example worlds with one species and 100 frames: what the time-domain setup
  returns for a signal of two samples, and what the spectral-domain setup returns for a
  signal of one sample.
\<close>

definition td_demo :: td_world where
  "td_demo =
     \<lparr>td_sig = \<lparr>td_frames = 100, td_t = [0, 1 / 2000],
                 td_molecules = [(''A'', ([1, 1 / 2], 5))],
                 basis_fids = [(''A'', [1, 1 / 2])],
                 real_fids = [(''A'', [5, 5 / 2])],
                 td_real_sum = Array [5, 5 / 2]\<rparr>,
      td_art = td_figure [(''A'', ([1, 1 / 2], 5))]\<rparr>"

definition sd_demo :: sd_world where
  "sd_demo =
     \<lparr>sd_sig = \<lparr>sd_frames = 100, sd_freq = [- 400],
                 sd_molecules = [(''A'', ([[1]], 5))],
                 basis_specs = [(''A'', [1])],
                 real_specs = [(''A'', [5])],
                 sd_real_sum = Array [5]\<rparr>,
      sd_art = sd_figure [(''A'', ([[1]], 5))]\<rparr>"

text \<open>
  Two example worlds with the four species of the scripts and 100 frames, on an axis of
  one sample: what \<open>td_script 2000 1 0.18 100\<close> and \<open>sd_script 2000 1 0.15 100\<close> return.
\<close>

definition td_four :: td_world where
  "td_four =
     \<lparr>td_sig = \<lparr>td_frames = 100, td_t = [0],
                 td_molecules = [(''A'', ([1], 5)), (''B'', ([3], 10)),
                                 (''C'', ([4], 3)), (''D'', ([8], 12))],
                 basis_fids = [(''A'', [1]), (''B'', [1]), (''C'', [1]), (''D'', [1])],
                 real_fids = [(''A'', [5]), (''B'', [10]), (''C'', [3]), (''D'', [12])],
                 td_real_sum = Array [30]\<rparr>,
      td_art = td_figure [(''A'', ([1], 5)), (''B'', ([3], 10)),
                          (''C'', ([4], 3)), (''D'', ([8], 12))]\<rparr>"

definition sd_four :: sd_world where
  "sd_four =
     \<lparr>sd_sig = \<lparr>sd_frames = 100, sd_freq = [- 400],
                 sd_molecules = [(''A'', ([[1]], 5)), (''B'', ([[1], [2]], 10)),
                                 (''C'', ([[4]], 3)), (''D'', ([[8]], 12))],
                 basis_specs = [(''A'', [1]), (''B'', [1]), (''C'', [1]), (''D'', [1])],
                 real_specs = [(''A'', [5]), (''B'', [10]), (''C'', [3]), (''D'', [12])],
                 sd_real_sum = Array [30]\<rparr>,
      sd_art = sd_figure [(''A'', ([[1]], 5)), (''B'', ([[1], [2]], 10)),
                          (''C'', ([[4]], 3)), (''D'', ([[8]], 12))]\<rparr>"

text \<open>
  The shape of the RF-pulse state: the script creates \<open>Mx\<close>, \<open>My\<close>, \<open>Mz\<close> and \<open>phases\<close>
  with \<open>n_spins\<close> entries each.
\<close>

definition rf_shape :: "rf_state \<Rightarrow> bool" where
  "rf_shape st \<longleftrightarrow>
     length (rf_Mx st) = n_spins \<and> length (rf_My st) = n_spins
     \<and> length (rf_Mz st) = n_spins \<and> length (rf_phases st) = n_spins"

text \<open>Two artist records whose dicts have the same keys in the same order.\<close>

definition td_same_keys :: "td_artists \<Rightarrow> td_artists \<Rightarrow> bool" where
  "td_same_keys a a' \<longleftrightarrow>
     map fst (td_black_lines a') = map fst (td_black_lines a)
     \<and> map fst (td_red_lines a') = map fst (td_red_lines a)
     \<and> map fst (td_labels_real a') = map fst (td_labels_real a)
     \<and> map fst (td_labels_basis a') = map fst (td_labels_basis a)"

definition sd_same_keys :: "sd_artists \<Rightarrow> sd_artists \<Rightarrow> bool" where
  "sd_same_keys a a' \<longleftrightarrow>
     map fst (sd_black_lines a') = map fst (sd_black_lines a)
     \<and> map fst (sd_red_lines a') = map fst (sd_red_lines a)
     \<and> map fst (sd_labels_real a') = map fst (sd_labels_real a)
     \<and> map fst (sd_labels_basis a') = map fst (sd_labels_basis a)"

section \<open>Loops and error propagation\<close>

lemma bind_Inl [simp]: "bind (Inl e) f = Inl e"
  by (simp add: bind_def)

lemma bind_Inr [simp]: "bind (Inr x) f = f x"
  by (simp add: bind_def)

lemma bind_eq_Inr: "bind m f = Inr y \<longleftrightarrow> (\<exists>x. m = Inr x \<and> f x = Inr y)"
  by (cases m) simp_all

lemma for_each_invariant:
  assumes "for_each body xs s = Inr s'" and "I s"
    and "\<And>x u u'. x \<in> set xs \<Longrightarrow> I u \<Longrightarrow> body x u = Inr u' \<Longrightarrow> I u'"
  shows "I s'"
  using assms
proof (induction xs arbitrary: s)
  case Nil
  then show ?case by simp
next
  case (Cons x xs)
  from Cons.prems(1) obtain u where u: "body x s = Inr u" "for_each body xs u = Inr s'"
    by (auto simp: bind_eq_Inr)
  have "I u" by (rule Cons.prems(3) [OF _ Cons.prems(2) u(1)]) simp
  show ?case
  proof (rule Cons.IH [OF u(2) \<open>I u\<close>])
    fix z v v' assume "z \<in> set xs" "I v" "body z v = Inr v'"
    then show "I v'" using Cons.prems(3) [of z v v'] by simp
  qed
qed

lemma for_each_total:
  assumes "I s"
    and "\<And>x u. x \<in> set xs \<Longrightarrow> I u \<Longrightarrow> \<exists>u'. body x u = Inr u' \<and> I u'"
  shows "\<exists>s'. for_each body xs s = Inr s' \<and> I s'"
  using assms
proof (induction xs arbitrary: s)
  case Nil
  then show ?case by simp
next
  case (Cons x xs)
  from Cons.prems obtain u where u: "body x s = Inr u" "I u"
    by fastforce
  from Cons.IH [OF u(2)] Cons.prems(2) obtain s' where "for_each body xs u = Inr s'" "I s'"
    by auto
  then show ?case using u by simp
qed

lemma for_each_establish:
  assumes "for_each body xs s = Inr s'" and "x \<in> set xs"
    and "\<And>u u'. body x u = Inr u' \<Longrightarrow> Q u'"
    and "\<And>y u u'. y \<in> set xs \<Longrightarrow> y \<noteq> x \<Longrightarrow> Q u \<Longrightarrow> body y u = Inr u' \<Longrightarrow> Q u'"
  shows "Q s'"
  using assms
proof (induction xs arbitrary: s)
  case Nil
  then show ?case by simp
next
  case (Cons y ys)
  from Cons.prems(1) obtain u where u: "body y s = Inr u" "for_each body ys u = Inr s'"
    by (auto simp: bind_eq_Inr)
  show ?case
  proof (cases "x \<in> set ys")
    case True
    show ?thesis
    proof (rule Cons.IH [OF u(2) True])
      fix v v' assume "body x v = Inr v'"
      then show "Q v'" by (rule Cons.prems(3))
    next
      fix z v v' assume "z \<in> set ys" "z \<noteq> x" "Q v" "body z v = Inr v'"
      then show "Q v'" using Cons.prems(4) [of z v v'] by simp
    qed
  next
    case False
    with Cons.prems(2) have xy: "x = y" by simp
    have "Q u" using Cons.prems(3) [of s u] u(1) xy by simp
    show ?thesis
    proof (rule for_each_invariant [where I = Q, OF u(2) \<open>Q u\<close>])
      fix z v v' assume "z \<in> set ys" "Q v" "body z v = Inr v'"
      moreover have "z \<noteq> x" using False \<open>z \<in> set ys\<close> by auto
      ultimately show "Q v'" using Cons.prems(4) [of z v v'] by simp
    qed
  qed
qed

lemma td_demo_setup: "td_setup 100 [0, 1 / 2000] [(''A'', ([1, 1 / 2], 5))] = Inr td_demo"
  by (simp add: td_setup_def td_normalize_def np_max_def np_div_def dict_put_def py_sum_def
      td_demo_def)

lemma sd_demo_setup: "sd_setup 100 [- 400] [(''A'', ([[1]], 5))] = Inr sd_demo"
  by (simp add: sd_setup_def sd_normalize_def np_max_def np_div_def dict_put_def py_sum_def
      sd_demo_def spectrum_def np_fft_def dft_def fftshift_def)

lemma td_four_script: "td_script 2000 1 0.18 100 = Inr td_four"
proof -
  have g: "mk_globals 2000 1 0.18 = Inr \<lparr>t_arr = [0], decay_arr = [1]\<rparr>"
    by (simp add: mk_globals_def time_axis_def decay_env_def np_div_def)
  have m: "td_molecules_src \<lparr>t_arr = [0], decay_arr = [1]\<rparr> =
             [(''A'', ([1], 5)), (''B'', ([3], 10)), (''C'', ([4], 3)), (''D'', ([8], 12))]"
    by (simp add: td_molecules_src_def dict_literal_def dict_put_def multiplet_def
        zeros_like_def vadd_def vmul_def osc_def)
  show ?thesis
    unfolding td_script_def g bind_Inr globals.simps m
    by (simp add: td_setup_def td_normalize_def np_max_def np_div_def dict_put_def py_sum_def
        td_four_def)
qed

lemma sd_four_script: "sd_script 2000 1 0.15 100 = Inr sd_four"
proof -
  have g: "mk_globals 2000 1 0.15 = Inr \<lparr>t_arr = [0], decay_arr = [1]\<rparr>"
    by (simp add: mk_globals_def time_axis_def decay_env_def np_div_def)
  have m: "sd_molecules_src \<lparr>t_arr = [0], decay_arr = [1]\<rparr> =
             [(''A'', ([[1]], 5)), (''B'', ([[1], [2]], 10)), (''C'', ([[4]], 3)),
              (''D'', ([[8]], 12))]"
    by (simp add: sd_molecules_src_def dict_literal_def dict_put_def multiplet_def
        zeros_like_def vadd_def vmul_def osc_def)
  show ?thesis
    unfolding sd_script_def g bind_Inr m
    by (simp add: sd_setup_def sd_normalize_def np_max_def np_div_def dict_put_def py_sum_def
        sd_four_def spectrum_def np_fft_def dft_def fftshift_def np_linspace_def)
qed

lemma td_four_wf: "td_wf td_four"
  by (simp add: td_wf_def td_four_def td_figure_def)

lemma sd_four_wf: "sd_wf sd_four"
  by (simp add: sd_wf_def sd_four_def sd_figure_def)

lemma td_demo_wf: "td_wf td_demo"
  by (simp add: td_wf_def td_demo_def td_figure_def)

lemma sd_demo_wf: "sd_wf sd_demo"
  by (simp add: sd_wf_def sd_demo_def sd_figure_def)

section \<open>The phase of a frame\<close>

lemma guard_exclusive:
  "0 \<le> p \<Longrightarrow> p < 1 \<Longrightarrow> phases_run p = [spec_phase p]"
  by (simp add: phases_run_def guard_def spec_phase_def)

lemma phases_run_guard:
  "phases_run p = [ph] \<Longrightarrow> guard ph' p \<longleftrightarrow> ph' = ph"
  by (cases ph'; simp add: phases_run_def split: if_splits)

lemma td_update_phase:
  assumes "td_frames (td_sig w) \<noteq> 0"
    and "phases_run (real_of_int frame / real_of_int (td_frames (td_sig w))) = [ph]"
  shows "td_update w frame =
           bind (td_block ph (td_sig w) (real_of_int frame / real_of_int (td_frames (td_sig w)))
                   (td_art w))
             (\<lambda>a. Inr (w\<lparr>td_art := a\<rparr>))"
  using assms(1) phases_run_guard [OF assms(2)]
  by (cases ph; simp add: td_update_def td_step_def py_truediv_def Let_def)

lemma sd_update_phase:
  assumes "sd_frames (sd_sig w) \<noteq> 0"
    and "phases_run (real_of_int frame / real_of_int (sd_frames (sd_sig w))) = [ph]"
  shows "sd_update w frame =
           bind (sd_block ph (sd_sig w) (real_of_int frame / real_of_int (sd_frames (sd_sig w)))
                   (sd_art w))
             (\<lambda>a. Inr (w\<lparr>sd_art := a\<rparr>))"
  using assms(1) phases_run_guard [OF assms(2)]
  by (cases ph; simp add: sd_update_def sd_step_def py_truediv_def Let_def)

text \<open>
  C5. For a frame index in \<open>[0, frames)\<close> the progress fraction \<open>p = frame/frames\<close> lies in
  \<open>[0,1)\<close>, exactly one of the five guards of \<open>update\<close> holds, and it is the guard of the
  phase that the interval table gives: \<open>[0,0.30)\<close> REVEAL_COMPONENTS, \<open>[0.30,0.45)\<close>
  SHOW_SUM, \<open>[0.45,0.65)\<close> SHOW_BASIS, \<open>[0.65,0.90)\<close> SCALE_BASIS, \<open>[0.90,1)\<close> SHOW_FIT, a
  boundary value belonging to the interval it starts. Both \<open>update\<close> functions then run
  the block of that phase and no other. With 100 frames, frame 29 is REVEAL_COMPONENTS,
  frame 30 SHOW_SUM, frame 89 SCALE_BASIS and frame 90 SHOW_FIT. (Arithmetic is exact.)
\<close>

theorem phase_of_frame:
  assumes "0 \<le> frame" and "frame < frames" and "p = real_of_int frame / real_of_int frames"
  shows "py_truediv frame frames = Inr p \<and> 0 \<le> p \<and> p < 1
         \<and> phases_run p = [spec_phase p]
         \<and> (td_frames (td_sig w) = frames \<longrightarrow>
              td_update w frame =
                bind (td_block (spec_phase p) (td_sig w) p (td_art w))
                  (\<lambda>a. Inr (w\<lparr>td_art := a\<rparr>)))
         \<and> (sd_frames (sd_sig v) = frames \<longrightarrow>
              sd_update v frame =
                bind (sd_block (spec_phase p) (sd_sig v) p (sd_art v))
                  (\<lambda>a. Inr (v\<lparr>sd_art := a\<rparr>)))
         \<and> (frames = 100 \<longrightarrow>
               (frame = 29 \<longrightarrow> phases_run p = [REVEAL_COMPONENTS])
             \<and> (frame = 30 \<longrightarrow> phases_run p = [SHOW_SUM])
             \<and> (frame = 89 \<longrightarrow> phases_run p = [SCALE_BASIS])
             \<and> (frame = 90 \<longrightarrow> phases_run p = [SHOW_FIT]))"
proof -
  have nz: "frames \<noteq> 0" using assms by simp
  have p0: "0 \<le> p" using assms by simp
  have p1: "p < 1" using assms by simp
  have run: "phases_run p = [spec_phase p]" by (rule guard_exclusive [OF p0 p1])
  have td: "td_update w frame =
      bind (td_block (spec_phase p) (td_sig w) p (td_art w)) (\<lambda>a. Inr (w\<lparr>td_art := a\<rparr>))"
    if "td_frames (td_sig w) = frames"
    using td_update_phase [of w frame "spec_phase p"] that nz run assms(3) by simp
  have sd: "sd_update v frame =
      bind (sd_block (spec_phase p) (sd_sig v) p (sd_art v)) (\<lambda>a. Inr (v\<lparr>sd_art := a\<rparr>))"
    if "sd_frames (sd_sig v) = frames"
    using sd_update_phase [of v frame "spec_phase p"] that nz run assms(3) by simp
  have conc: "frames = 100 \<longrightarrow>
               (frame = 29 \<longrightarrow> phases_run p = [REVEAL_COMPONENTS])
             \<and> (frame = 30 \<longrightarrow> phases_run p = [SHOW_SUM])
             \<and> (frame = 89 \<longrightarrow> phases_run p = [SCALE_BASIS])
             \<and> (frame = 90 \<longrightarrow> phases_run p = [SHOW_FIT])"
    using assms(3) by (simp add: phases_run_def guard_def)
  have "py_truediv frame frames = Inr p" using nz assms(3) by (simp add: py_truediv_def)
  then show ?thesis using p0 p1 run td sd conc by blast
qed

theorem phase_of_frame_witness:
  "py_truediv 30 100 = Inr (3 / 10)
   \<and> phases_run (3 / 10) = [SHOW_SUM]
   \<and> td_update td_demo 30 =
       bind (td_block SHOW_SUM (td_sig td_demo) (3 / 10) (td_art td_demo))
         (\<lambda>a. Inr (td_demo\<lparr>td_art := a\<rparr>))
   \<and> sd_update sd_demo 30 =
       bind (sd_block SHOW_SUM (sd_sig sd_demo) (3 / 10) (sd_art sd_demo))
         (\<lambda>a. Inr (sd_demo\<lparr>sd_art := a\<rparr>))"
proof -
  have f: "td_frames (td_sig td_demo) = 100" "sd_frames (sd_sig sd_demo) = 100"
    by (simp_all add: td_demo_def sd_demo_def)
  have s: "spec_phase (3 / 10) = SHOW_SUM" by (simp add: spec_phase_def)
  show ?thesis
    using phase_of_frame [of 30 100 "3 / 10" td_demo sd_demo] f s by simp
qed

section \<open>The truncation index\<close>

lemma trunc_idx_bounds:
  assumes "0 \<le> frame" and "frame < frames" and "0 < N"
  shows "\<exists>idx. trunc_idx frames N frame = Inr idx \<and> 0 \<le> idx \<and> idx < int N
           \<and> idx = \<lfloor>real_of_int frame / real_of_int frames * real N\<rfloor>"
proof -
  define p where "p = real_of_int frame / real_of_int frames"
  have nz: "frames \<noteq> 0" using assms by simp
  have p0: "0 \<le> p" using assms by (simp add: p_def)
  have p1: "p < 1" using assms by (simp add: p_def)
  have x0: "0 \<le> p * real N" using p0 by simp
  have "p * real N < 1 * real N" using p1 assms(3) by (intro mult_strict_right_mono) simp_all
  then have x1: "p * real N < real_of_int (int N)" by simp
  have "\<lfloor>p * real N\<rfloor> < int N" using x1 by (simp only: floor_less_iff)
  moreover have "0 \<le> \<lfloor>p * real N\<rfloor>" using x0 by simp
  moreover have "trunc_idx frames N frame = Inr \<lfloor>p * real N\<rfloor>"
    using nz x0 by (simp add: trunc_idx_def py_truediv_def py_int_def p_def)
  ultimately show ?thesis by (simp add: p_def)
qed

lemma py_prefix_strict:
  assumes "0 \<le> idx" and "idx < int (length xs)"
  shows "py_prefix xs idx = take (nat idx) xs" and "strict_prefix (py_prefix xs idx) xs"
    and "length (py_prefix xs idx) = nat idx"
proof -
  show a: "py_prefix xs idx = take (nat idx) xs" using assms by (simp add: py_prefix_def)
  show "length (py_prefix xs idx) = nat idx" using assms by (simp add: a)
  have "prefix (take (nat idx) xs) xs" by (rule take_is_prefix)
  moreover have "take (nat idx) xs \<noteq> xs"
  proof
    assume "take (nat idx) xs = xs"
    then have "length (take (nat idx) xs) = length xs" by simp
    then show False using assms by simp
  qed
  ultimately show "strict_prefix (py_prefix xs idx) xs" by (simp add: a strict_prefix_def)
qed

lemma fts_update_result:
  assumes "trunc_idx frames N frame = Inr idx" and "0 \<le> idx" and "idx < int N"
    and "length fid = N"
  shows "\<exists>spec. fts_update frames N t freq_axis fid frame =
           Inr \<lparr>fts_line_fid = (py_prefix t idx, map Re (py_prefix fid idx)),
                fts_line_spec = (freq_axis, spec)\<rparr>"
proof -
  have cur: "py_prefix fid idx = take (nat idx) fid" "length (py_prefix fid idx) = nat idx"
    using py_prefix_strict [of idx fid] assms by simp_all
  have pad: "length (py_prefix (replicate N (0::complex)) idx) = nat idx"
    using py_prefix_strict(3) [of idx "replicate N (0::complex)"] assms by simp
  have sl: "slice_assign (replicate N (0::complex)) idx (py_prefix fid idx)
              = Inr (take (nat idx) fid @ drop (nat idx) (replicate N 0))"
    using cur pad by (simp add: slice_assign_def Let_def)
  have ne: "take (nat idx) fid @ drop (nat idx) (replicate N (0::complex)) \<noteq> []"
    using assms by auto
  show ?thesis
    using assms(1) sl ne cur
    by (simp add: fts_update_def Let_def spectrum_def np_fft_def)
qed

lemma conc_update_line:
  assumes "trunc_idx frames N frame = Inr idx" and "py_sum parts = Array tot"
    and "conc_update frames N t parts labels frame = Inr r"
  shows "conc_line_total r = (py_prefix t idx, map Re (py_prefix tot idx))"
  using assms by (auto simp: conc_update_def Let_def bind_eq_Inr)

text \<open>
  C10. In the FID-to-spectrum animation and in the concentration animation, for every
  frame index in \<open>[0, frames)\<close> and \<open>N > 0\<close> samples the truncation index
  \<open>idx = int((frame/frames)*N)\<close> is computed without error and satisfies \<open>0 \<le> idx < N\<close>.
  The slice \<open>fid[:idx]\<close> is therefore the first \<open>idx\<close> samples, a strict prefix of the
  full signal of length \<open>N\<close>; the FID-to-spectrum \<open>update\<close> returns, showing that prefix
  against \<open>t[:idx]\<close>, and the concentration \<open>update\<close>, when it returns, shows the same
  prefix of the total FID.
\<close>

theorem truncation_index_in_bounds:
  assumes "0 \<le> frame" and "frame < frames" and "0 < N"
    and "length fid = N" and "py_sum parts = Array tot" and "length tot = N"
  shows "\<exists>idx. trunc_idx frames N frame = Inr idx \<and> 0 \<le> idx \<and> idx < int N
           \<and> py_prefix fid idx = take (nat idx) fid
           \<and> strict_prefix (py_prefix fid idx) fid
           \<and> (\<exists>spec. fts_update frames N t freq_axis fid frame =
                  Inr \<lparr>fts_line_fid = (py_prefix t idx, map Re (py_prefix fid idx)),
                       fts_line_spec = (freq_axis, spec)\<rparr>)
           \<and> strict_prefix (py_prefix tot idx) tot
           \<and> (\<forall>r. conc_update frames N t parts labels frame = Inr r \<longrightarrow>
                  conc_line_total r = (py_prefix t idx, map Re (py_prefix tot idx)))"
proof -
  from trunc_idx_bounds [OF assms(1-3)] obtain idx where
    idx: "trunc_idx frames N frame = Inr idx" "0 \<le> idx" "idx < int N"
    by blast
  have a: "py_prefix fid idx = take (nat idx) fid" "strict_prefix (py_prefix fid idx) fid"
    using py_prefix_strict [of idx fid] idx assms(4) by simp_all
  have b: "strict_prefix (py_prefix tot idx) tot"
    using py_prefix_strict(2) [of idx tot] idx assms(6) by simp
  have c: "\<exists>spec. fts_update frames N t freq_axis fid frame =
                  Inr \<lparr>fts_line_fid = (py_prefix t idx, map Re (py_prefix fid idx)),
                       fts_line_spec = (freq_axis, spec)\<rparr>"
    by (rule fts_update_result [OF idx assms(4)])
  have d: "\<forall>r. conc_update frames N t parts labels frame = Inr r \<longrightarrow>
                  conc_line_total r = (py_prefix t idx, map Re (py_prefix tot idx))"
    using conc_update_line [OF idx(1) assms(5)] by blast
  show ?thesis using idx a b c d by blast
qed

theorem truncation_index_in_bounds_witness:
  "\<exists>idx. trunc_idx 4 2 2 = Inr idx \<and> 0 \<le> idx \<and> idx < 2
      \<and> strict_prefix (py_prefix [1, 1 :: complex] idx) [1, 1]
      \<and> (\<exists>spec. fts_update 4 2 [0, 1 / 2000] [- 1000, 1000] [1, 1] 2 =
             Inr \<lparr>fts_line_fid = (py_prefix [0, 1 / 2000] idx, map Re (py_prefix [1, 1] idx)),
                  fts_line_spec = ([- 1000, 1000], spec)\<rparr>)
      \<and> conc_update 4 2 [0, 1 / 2000] [[1, 1]] [''Singlet''] 2 =
           Inr \<lparr>conc_line_total = ([0], [1]), conc_part_lines = [([0], [1])],
                conc_total_amp = 1, conc_fractions = [(''Singlet'', 100)]\<rparr>
      \<and> (py_prefix [0, 1 / 2000 :: real] idx, map Re (py_prefix [1, 1] idx)) = ([0], [1])"
proof -
  have s: "py_sum [[1, 1 :: complex]] = Array [1, 1]" by (simp add: py_sum_def)
  have ev: "conc_update 4 2 [0, 1 / 2000] [[1, 1]] [''Singlet''] 2 =
           Inr \<lparr>conc_line_total = ([0], [1]), conc_part_lines = [([0], [1])],
                conc_total_amp = 1, conc_fractions = [(''Singlet'', 100)]\<rparr>"
    by (simp add: conc_update_def py_sum_def trunc_idx_def py_truediv_def py_int_def
        py_prefix_def np_index_def)
  from truncation_index_in_bounds [of 2 4 2 "[1, 1]" "[[1, 1]]" "[1, 1]"
      "[0, 1 / 2000]" "[- 1000, 1000]" "[''Singlet'']"] s
  obtain idx where i: "trunc_idx 4 2 2 = Inr idx" "0 \<le> idx" "idx < 2"
      "strict_prefix (py_prefix [1, 1 :: complex] idx) [1, 1]"
      "\<exists>spec. fts_update 4 2 [0, 1 / 2000] [- 1000, 1000] [1, 1] 2 =
             Inr \<lparr>fts_line_fid = (py_prefix [0, 1 / 2000] idx, map Re (py_prefix [1, 1] idx)),
                  fts_line_spec = ([- 1000, 1000], spec)\<rparr>"
      "\<forall>r. conc_update 4 2 [0, 1 / 2000] [[1, 1]] [''Singlet''] 2 = Inr r \<longrightarrow>
                  conc_line_total r = (py_prefix [0, 1 / 2000] idx, map Re (py_prefix [1, 1] idx))"
    by auto
  from i(6) ev have "(py_prefix [0, 1 / 2000 :: real] idx, map Re (py_prefix [1, 1] idx)) = ([0], [1])"
    by simp
  with i ev show ?thesis by (intro exI [of _ idx]) simp
qed

section \<open>The relaxation constant\<close>

lemma mk_globals_value:
  assumes "BW \<noteq> 0" and "T2 \<noteq> 0"
  shows "mk_globals BW N T2 =
           Inr \<lparr>t_arr = map (\<lambda>k. real k / BW) [0..<N],
                decay_arr = map (\<lambda>k. exp (- (real k / BW) / T2)) [0..<N]\<rparr>"
  using assms by (simp add: mk_globals_def time_axis_def decay_env_def np_div_def comp_def)

text \<open>
  C8, as the code has it. No script validates \<open>T2\<close>: the scripts hard-code positive
  values and compute \<open>decay = np.exp(-t/T2)\<close> unconditionally. For every \<open>T2\<close> other than
  zero, negative values included, the globals are built without error and the envelope
  is \<open>exp(-t/T2)\<close> on the time axis; for a negative \<open>T2\<close> (and a positive \<open>BW\<close>) no entry
  of the envelope is below 1, so the envelope does not decay.
\<close>

theorem relaxation_not_validated:
  assumes "BW \<noteq> 0" and "T2 \<noteq> 0"
  shows "\<exists>g. mk_globals BW N T2 = Inr g
           \<and> t_arr g = map (\<lambda>k. real k / BW) [0..<N]
           \<and> decay_arr g = map (\<lambda>\<tau>. exp (- \<tau> / T2)) (t_arr g)
           \<and> (T2 < 0 \<and> 0 < BW \<longrightarrow> (\<forall>d \<in> set (decay_arr g). 1 \<le> d))"
proof -
  let ?g = "\<lparr>t_arr = map (\<lambda>k. real k / BW) [0..<N],
             decay_arr = map (\<lambda>k. exp (- (real k / BW) / T2)) [0..<N]\<rparr>"
  have g: "mk_globals BW N T2 = Inr ?g" by (rule mk_globals_value [OF assms])
  have d: "decay_arr ?g = map (\<lambda>\<tau>. exp (- \<tau> / T2)) (t_arr ?g)" by (simp add: comp_def)
  have grow: "1 \<le> d" if "T2 < 0" "0 < BW" "d \<in> set (decay_arr ?g)" for d
  proof -
    from that(3) obtain k where k: "d = exp (- (real k / BW) / T2)" by auto
    have "- (real k / BW) \<le> 0" using that(2) by simp
    then have "0 \<le> - (real k / BW) / T2" using that(1) by (intro divide_nonpos_neg)
    then show ?thesis by (simp only: k one_le_exp_iff)
  qed
  show ?thesis using g d grow by (intro exI [of _ ?g]) auto
qed

theorem relaxation_not_validated_witness:
  "\<exists>g. mk_globals 2000 2 (- 1) = Inr g
       \<and> t_arr g = map (\<lambda>k. real k / 2000) [0..<2]
       \<and> decay_arr g = map (\<lambda>\<tau>. exp (- \<tau> / (- 1))) (t_arr g)
       \<and> (\<forall>d \<in> set (decay_arr g). 1 \<le> d)"
  using relaxation_not_validated [of 2000 "- 1" 2] by simp

theorem negative_T2_accepted:
  "mk_globals 2000 2 (- 1) = Inr \<lparr>t_arr = [0, 1 / 2000], decay_arr = [1, exp (1 / 2000)]\<rparr>
   \<and> map_sum id (td_real_sum \<circ> td_sig) (td_script 2000 1 (- 1) 450) = Inr (Array [30])"
  by (simp add: mk_globals_def time_axis_def decay_env_def np_div_def eval_nat_numeral
      td_script_def td_setup_def td_molecules_src_def dict_literal_def dict_put_def
      multiplet_def zeros_like_def vmul_def vadd_def osc_def td_normalize_def np_max_def
      py_sum_def Let_def)

section \<open>What a frame update changes\<close>

lemma td_update_signals: "td_update w frame = Inr w' \<Longrightarrow> td_sig w' = td_sig w"
  by (auto simp: td_update_def Let_def bind_eq_Inr)

lemma sd_update_signals: "sd_update v frame = Inr v' \<Longrightarrow> sd_sig v' = sd_sig v"
  by (auto simp: sd_update_def Let_def bind_eq_Inr)

lemma rf_update_fid:
  "rf_update st frame = Inr st' \<Longrightarrow>
     rf_fid st' = rf_fid st @ [if frame > rf_frame then sum_list (rf_Mx st') else 0]"
proof -
  assume a: "rf_update st frame = Inr st'"
  have before: "rf_fid u' = rf_fid u" if "rf_before_body i u = Inr u'" for i u u'
    using that by (auto simp: rf_before_body_def bind_eq_Inr)
  have after: "rf_fid u' = rf_fid u" if "rf_after_body frame i u = Inr u'" for i u u'
    using that by (auto simp: rf_after_body_def bind_eq_Inr Let_def)
  from a obtain u sa where
    u: "(if frame < rf_frame then for_each rf_before_body [0..<n_spins] st
         else if frame = rf_frame then
           Inr (st\<lparr>rf_Mx := map (\<lambda>_. 1) (rf_Mx st), rf_My := map (\<lambda>_. 0) (rf_My st),
                   rf_Mz := map (\<lambda>_. 0) (rf_Mz st)\<rparr>)
         else for_each (rf_after_body frame) [0..<n_spins] st) = Inr u"
    and r: "rf_fid st' = rf_fid u @ [if frame > rf_frame then sum_list (rf_Mx u) else 0]"
           "rf_Mx st' = rf_Mx u"
    by (auto simp: rf_update_def bind_eq_Inr Let_def split: if_splits)
  have "rf_fid u = rf_fid st"
  proof (cases "frame < rf_frame")
    case True
    with u have l: "for_each rf_before_body [0..<n_spins] st = Inr u" by simp
    show ?thesis
      by (rule for_each_invariant [where I = "\<lambda>v. rf_fid v = rf_fid st", OF l])
         (simp_all add: before)
  next
    case False
    show ?thesis
    proof (cases "frame = rf_frame")
      case True
      with u show ?thesis by auto
    next
      case ne: False
      with False u have l: "for_each (rf_after_body frame) [0..<n_spins] st = Inr u" by simp
      show ?thesis
        by (rule for_each_invariant [where I = "\<lambda>v. rf_fid v = rf_fid st", OF l])
           (simp_all add: after)
    qed
  qed
  with r show ?thesis by simp
qed

lemma rf_frame_val: "rf_frame = 120"
  by (simp add: rf_frame_def rf_frames_def rf_fps_def rf_seconds_def py_int_def)

lemma TE_frame_val: "TE_frame = 210"
  by (simp add: TE_frame_def rf_frames_def rf_fps_def rf_seconds_def py_int_def)

lemma freq_offsets_val: "freq_offsets = [- 1 / 10, - 3 / 50, - 1 / 50, 1 / 50, 3 / 50, 1 / 10]"
  by (simp add: freq_offsets_def np_linspace_def n_spins_def upt_rec_numeral eval_nat_numeral)

lemma length_six:
  "length xs = 6 \<Longrightarrow> \<exists>a b c d e f. xs = [a, b, c, d, e, f]"
  by (auto simp: length_Suc_conv eval_nat_numeral)

lemma rf_update_before:
  assumes "rf_shape st" and "frame < rf_frame"
  shows "\<exists>st'. rf_update st frame = Inr st'
           \<and> rf_Mx st' = replicate n_spins 0 \<and> rf_My st' = replicate n_spins 0
           \<and> rf_Mz st' = replicate n_spins 1 \<and> rf_phases st' = rf_phases st \<and> rf_shape st'"
proof -
  from assms(1) obtain x1 x2 x3 x4 x5 x6 y1 y2 y3 y4 y5 y6 z1 z2 z3 z4 z5 z6 where
    l: "rf_Mx st = [x1, x2, x3, x4, x5, x6]" "rf_My st = [y1, y2, y3, y4, y5, y6]"
       "rf_Mz st = [z1, z2, z3, z4, z5, z6]"
    unfolding rf_shape_def n_spins_def by (metis length_six)
  have f: "frame < 120" "\<not> 210 < frame" using assms(2) by (simp_all add: rf_frame_val)
  have ph: "length (rf_phases st) = 6" using assms(1) by (simp add: rf_shape_def n_spins_def)
  show ?thesis
    using f l ph
    by (simp add: rf_shape_def rf_update_def rf_frame_val TE_frame_val n_spins_def upt_rec_numeral
        rf_before_body_def np_set_def rf_spin_arrow_def np_index_def eval_nat_numeral)
qed

lemma rf_update_pulse:
  assumes "rf_shape st" and "frame = rf_frame"
  shows "\<exists>st'. rf_update st frame = Inr st'
           \<and> rf_Mx st' = replicate n_spins 1 \<and> rf_My st' = replicate n_spins 0
           \<and> rf_Mz st' = replicate n_spins 0 \<and> rf_phases st' = rf_phases st \<and> rf_shape st'"
proof -
  from assms(1) obtain x1 x2 x3 x4 x5 x6 y1 y2 y3 y4 y5 y6 z1 z2 z3 z4 z5 z6 where
    l: "rf_Mx st = [x1, x2, x3, x4, x5, x6]" "rf_My st = [y1, y2, y3, y4, y5, y6]"
       "rf_Mz st = [z1, z2, z3, z4, z5, z6]"
    unfolding rf_shape_def n_spins_def by (metis length_six)
  have ph: "length (rf_phases st) = 6" using assms(1) by (simp add: rf_shape_def n_spins_def)
  show ?thesis
    using assms(2) l ph
    by (simp add: rf_shape_def rf_update_def rf_frame_val TE_frame_val n_spins_def upt_rec_numeral
        rf_spin_arrow_def np_index_def eval_nat_numeral)
qed

lemma rf_update_after:
  assumes "rf_shape st" and "rf_frame < frame"
  shows "\<exists>st'. rf_update st frame = Inr st'
           \<and> rf_phases st' = map2 (\<lambda>ph off. ph + (0.3 + off)) (rf_phases st) freq_offsets
           \<and> rf_Mx st' = map (\<lambda>ph. exp (- real_of_int (frame - rf_frame) / rf_T2) * cos ph)
                            (rf_phases st')
           \<and> rf_My st' = map (\<lambda>ph. exp (- real_of_int (frame - rf_frame) / rf_T2) * sin ph)
                            (rf_phases st')
           \<and> rf_Mz st' = replicate n_spins 0 \<and> rf_shape st'"
proof -
  from assms(1) obtain x1 x2 x3 x4 x5 x6 y1 y2 y3 y4 y5 y6 z1 z2 z3 z4 z5 z6
      p1 p2 p3 p4 p5 p6 where
    l: "rf_Mx st = [x1, x2, x3, x4, x5, x6]" "rf_My st = [y1, y2, y3, y4, y5, y6]"
       "rf_Mz st = [z1, z2, z3, z4, z5, z6]" "rf_phases st = [p1, p2, p3, p4, p5, p6]"
    unfolding rf_shape_def n_spins_def by (metis length_six)
  have f: "\<not> frame < 120" "frame \<noteq> 120" "120 < frame" using assms(2) by (simp_all add: rf_frame_val)
  show ?thesis
    using f l
    by (simp add: rf_shape_def rf_update_def rf_frame_val TE_frame_val n_spins_def upt_rec_numeral
        rf_after_body_def np_set_def rf_spin_arrow_def np_index_def eval_nat_numeral
        freq_offsets_val Let_def)
qed


lemma for_each_snoc:
  "for_each body (xs @ [x]) s = bind (for_each body xs s) (body x)"
proof (induction xs arbitrary: s)
  case Nil
  then show ?case by (cases "body x s") simp_all
next
  case (Cons y ys)
  then show ?case by (cases "body y s") simp_all
qed

lemma rf_update_waiting:
  assumes "rf_shape st" and "frame < rf_frame"
  shows "rf_update st frame =
           Inr (st\<lparr>rf_Mx := replicate n_spins 0, rf_My := replicate n_spins 0,
                   rf_Mz := replicate n_spins 1, rf_fid := rf_fid st @ [0],
                   rf_fid_line := ([], []), rf_title := TitleWaiting,
                   rf_arrows := replicate (Suc n_spins) (0, 0, 1)\<rparr>)"
proof -
  from assms(1) obtain x1 x2 x3 x4 x5 x6 y1 y2 y3 y4 y5 y6 z1 z2 z3 z4 z5 z6 where
    l: "rf_Mx st = [x1, x2, x3, x4, x5, x6]" "rf_My st = [y1, y2, y3, y4, y5, y6]"
       "rf_Mz st = [z1, z2, z3, z4, z5, z6]"
    unfolding rf_shape_def n_spins_def by (metis length_six)
  have f: "frame < 120" "\<not> 210 < frame" using assms(2) by (simp_all add: rf_frame_val)
  show ?thesis
    using f l
    by (simp add: rf_update_def rf_frame_val TE_frame_val n_spins_def upt_rec_numeral
        rf_before_body_def np_set_def rf_spin_arrow_def np_index_def eval_nat_numeral)
qed

lemma rf_run_waiting:
  assumes "length ph = n_spins" and "n < 120"
  shows "rf_run (rf_init ph) (Suc n) =
           Inr ((rf_init ph)\<lparr>rf_fid := replicate (Suc n) 0, rf_title := TitleWaiting,
                              rf_arrows := replicate (Suc n_spins) (0, 0, 1)\<rparr>)"
  using assms(2)
proof (induction n)
  case 0
  have s: "rf_shape (rf_init ph)" using assms(1) by (simp add: rf_shape_def rf_init_def)
  have "rf_run (rf_init ph) (Suc 0) = rf_update (rf_init ph) 0"
    by (cases "rf_update (rf_init ph) 0") (simp_all add: rf_run_def)
  also have "\<dots> = Inr ((rf_init ph)\<lparr>rf_fid := replicate (Suc 0) 0, rf_title := TitleWaiting,
                              rf_arrows := replicate (Suc n_spins) (0, 0, 1)\<rparr>)"
    using rf_update_waiting [OF s, of 0] by (simp add: rf_frame_val rf_init_def)
  finally show ?case .
next
  case (Suc n)
  let ?s = "(rf_init ph)\<lparr>rf_fid := replicate (Suc n) 0, rf_title := TitleWaiting,
                              rf_arrows := replicate (Suc n_spins) (0, 0, 1)\<rparr>"
  have r: "rf_run (rf_init ph) (Suc n) = Inr ?s" using Suc by simp
  have s: "rf_shape ?s" using assms(1) by (simp add: rf_shape_def rf_init_def)
  have f: "int (Suc n) < rf_frame" using Suc.prems by (simp add: rf_frame_val)
  have "rf_run (rf_init ph) (Suc (Suc n)) = bind (rf_run (rf_init ph) (Suc n))
          (\<lambda>st. rf_update st (int (Suc n)))"
    unfolding rf_run_def by (simp only: upt_Suc_append [of 0 "Suc n"] le0 for_each_snoc)
  also have "\<dots> = rf_update ?s (int (Suc n))" by (simp only: r bind_Inr)
  also have "\<dots> = Inr ((rf_init ph)\<lparr>rf_fid := replicate (Suc (Suc n)) 0, rf_title := TitleWaiting,
                              rf_arrows := replicate (Suc n_spins) (0, 0, 1)\<rparr>)"
    using rf_update_waiting [OF s f] by (simp add: rf_init_def replicate_append_same)
  finally show ?case .
qed

lemma td_update_show_fit:
  assumes "td_frames (td_sig w) \<noteq> 0"
    and "0.9 \<le> real_of_int frame / real_of_int (td_frames (td_sig w))"
  shows "td_update w frame =
           bind (td_fitted (td_sig w)) (\<lambda>fitted.
             Inr (w\<lparr>td_art := (td_art w)\<lparr>td_sum_red := (td_t (td_sig w), np_real fitted)\<rparr>\<rparr>))"
proof -
  define p where "p = real_of_int frame / real_of_int (td_frames (td_sig w))"
  have "0.9 \<le> p" using assms(2) by (simp only: p_def)
  then have g: "\<not> guard REVEAL_COMPONENTS p" "\<not> guard SHOW_SUM p" "\<not> guard SHOW_BASIS p"
      "\<not> guard SCALE_BASIS p" "guard SHOW_FIT p"
    by (simp_all add: guard_def)
  have d: "py_truediv frame (td_frames (td_sig w)) = Inr p"
    using assms(1) by (simp add: py_truediv_def p_def)
  show ?thesis
    unfolding td_update_def Let_def d bind_Inr td_step_def
    by (cases "td_fitted (td_sig w)") (simp_all add: g td_block_def td_phase5_def)
qed

lemma sd_update_show_fit:
  assumes "sd_frames (sd_sig v) \<noteq> 0"
    and "0.9 \<le> real_of_int frame / real_of_int (sd_frames (sd_sig v))"
  shows "sd_update v frame =
           bind (sd_fitted (sd_sig v)) (\<lambda>fitted.
             Inr (v\<lparr>sd_art := (sd_art v)\<lparr>sd_sum_red := (sd_freq (sd_sig v), fitted)\<rparr>\<rparr>))"
proof -
  define p where "p = real_of_int frame / real_of_int (sd_frames (sd_sig v))"
  have "0.9 \<le> p" using assms(2) by (simp only: p_def)
  then have g: "\<not> guard REVEAL_COMPONENTS p" "\<not> guard SHOW_SUM p" "\<not> guard SHOW_BASIS p"
      "\<not> guard SCALE_BASIS p" "guard SHOW_FIT p"
    by (simp_all add: guard_def)
  have d: "py_truediv frame (sd_frames (sd_sig v)) = Inr p"
    using assms(1) by (simp add: py_truediv_def p_def)
  show ?thesis
    unfolding sd_update_def Let_def d bind_Inr sd_step_def
    by (cases "sd_fitted (sd_sig v)") (simp_all add: g sd_block_def sd_phase5_def)
qed


lemma rf_first_frame:
  "rf_update (rf_init [0, 0, 0, 0, 0, 0]) 0 =
     Inr \<lparr>rf_Mx = [0, 0, 0, 0, 0, 0], rf_My = [0, 0, 0, 0, 0, 0], rf_Mz = [1, 1, 1, 1, 1, 1],
          rf_phases = [0, 0, 0, 0, 0, 0], rf_fid = [0], rf_fid_line = ([], []),
          rf_title = TitleWaiting,
          rf_arrows = [(0, 0, 1), (0, 0, 1), (0, 0, 1), (0, 0, 1), (0, 0, 1), (0, 0, 1),
                       (0, 0, 1)]\<rparr>"
  by (simp add: rf_update_def rf_init_def rf_frame_def rf_frames_def rf_fps_def rf_seconds_def
      py_int_def n_spins_def upt_rec_numeral rf_before_body_def np_set_def rf_spin_arrow_def
      np_index_def TE_frame_def eval_nat_numeral)

text \<open>
  C9, as the code has it. In the two basis-fitting scripts the axis, \<open>molecules\<close>, the
  basis and real signals of each species and \<open>real_sum\<close> are computed during setup, and
  a frame update that returns leaves all of them as they were: \<open>update\<close> assigns to none
  of these names and changes none of the arrays in place, so the blocks of the embedding
  read the signals and return artists. The fitted signal is not one of them: it is a
  local of \<open>update\<close>, which in every frame with \<open>p \<ge> 0.9\<close> does nothing but compute it
  from the basis signals and the concentrations and give it to the red sum line, and
  raises if that computation raises. In the RF-pulse script \<open>update\<close> changes the module
  globals in every frame. It appends one sample to \<open>fid\<close>: 0 up to the pulse frame, the
  sum of \<open>Mx\<close> after it. With arrays of \<open>n_spins\<close> entries it returns and rewrites
  \<open>Mx\<close>, \<open>My\<close>, \<open>Mz\<close>: to 0, 0, 1 before the pulse frame and to 1, 0, 0 in the pulse frame,
  the phases staying as they were; after the pulse frame it adds \<open>0.3 + freq_offsets[i]\<close>
  to every phase and sets \<open>Mx\<close>, \<open>My\<close>, \<open>Mz\<close> to \<open>decay*cos(phase)\<close>, \<open>decay*sin(phase)\<close>, 0
  with \<open>decay = exp(-(frame-rf_frame)/T2)\<close>.
\<close>

theorem update_effect_on_signals:
  "(td_update w frame = Inr w' \<longrightarrow> td_sig w' = td_sig w)
   \<and> (sd_update v frame' = Inr v' \<longrightarrow> sd_sig v' = sd_sig v)
   \<and> (td_frames (td_sig w) \<noteq> 0
        \<and> 0.9 \<le> real_of_int frame / real_of_int (td_frames (td_sig w)) \<longrightarrow>
        td_update w frame =
          bind (td_fitted (td_sig w)) (\<lambda>fitted.
            Inr (w\<lparr>td_art := (td_art w)\<lparr>td_sum_red := (td_t (td_sig w), np_real fitted)\<rparr>\<rparr>)))
   \<and> (sd_frames (sd_sig v) \<noteq> 0
        \<and> 0.9 \<le> real_of_int frame' / real_of_int (sd_frames (sd_sig v)) \<longrightarrow>
        sd_update v frame' =
          bind (sd_fitted (sd_sig v)) (\<lambda>fitted.
            Inr (v\<lparr>sd_art := (sd_art v)\<lparr>sd_sum_red := (sd_freq (sd_sig v), fitted)\<rparr>\<rparr>)))
   \<and> (rf_update st frame'' = Inr st' \<longrightarrow>
        rf_fid st' = rf_fid st @ [if frame'' > rf_frame then sum_list (rf_Mx st') else 0])
   \<and> (rf_shape st \<longrightarrow>
        (\<exists>u. rf_update st frame'' = Inr u \<and> rf_shape u
           \<and> (frame'' < rf_frame \<longrightarrow>
                rf_Mx u = replicate n_spins 0 \<and> rf_My u = replicate n_spins 0
                \<and> rf_Mz u = replicate n_spins 1 \<and> rf_phases u = rf_phases st)
           \<and> (frame'' = rf_frame \<longrightarrow>
                rf_Mx u = replicate n_spins 1 \<and> rf_My u = replicate n_spins 0
                \<and> rf_Mz u = replicate n_spins 0 \<and> rf_phases u = rf_phases st)
           \<and> (frame'' > rf_frame \<longrightarrow>
                rf_phases u = map2 (\<lambda>ph off. ph + (0.3 + off)) (rf_phases st) freq_offsets
                \<and> rf_Mx u = map (\<lambda>ph. exp (- real_of_int (frame'' - rf_frame) / rf_T2) * cos ph)
                              (rf_phases u)
                \<and> rf_My u = map (\<lambda>ph. exp (- real_of_int (frame'' - rf_frame) / rf_T2) * sin ph)
                              (rf_phases u)
                \<and> rf_Mz u = replicate n_spins 0)))"
proof -
  have rf: "\<exists>u. rf_update st frame'' = Inr u \<and> rf_shape u
           \<and> (frame'' < rf_frame \<longrightarrow>
                rf_Mx u = replicate n_spins 0 \<and> rf_My u = replicate n_spins 0
                \<and> rf_Mz u = replicate n_spins 1 \<and> rf_phases u = rf_phases st)
           \<and> (frame'' = rf_frame \<longrightarrow>
                rf_Mx u = replicate n_spins 1 \<and> rf_My u = replicate n_spins 0
                \<and> rf_Mz u = replicate n_spins 0 \<and> rf_phases u = rf_phases st)
           \<and> (frame'' > rf_frame \<longrightarrow>
                rf_phases u = map2 (\<lambda>ph off. ph + (0.3 + off)) (rf_phases st) freq_offsets
                \<and> rf_Mx u = map (\<lambda>ph. exp (- real_of_int (frame'' - rf_frame) / rf_T2) * cos ph)
                              (rf_phases u)
                \<and> rf_My u = map (\<lambda>ph. exp (- real_of_int (frame'' - rf_frame) / rf_T2) * sin ph)
                              (rf_phases u)
                \<and> rf_Mz u = replicate n_spins 0)"
    if s: "rf_shape st"
  proof -
    consider "frame'' < rf_frame" | "frame'' = rf_frame" | "rf_frame < frame''" by linarith
    then show ?thesis
    proof cases
      case 1
      with rf_update_before [OF s 1] show ?thesis by auto
    next
      case 2
      with rf_update_pulse [OF s 2] show ?thesis by auto
    next
      case 3
      with rf_update_after [OF s 3] show ?thesis by auto
    qed
  qed
  have td: "td_update w frame = Inr w' \<longrightarrow> td_sig w' = td_sig w"
    using td_update_signals [of w frame w'] by blast
  have sd: "sd_update v frame' = Inr v' \<longrightarrow> sd_sig v' = sd_sig v"
    using sd_update_signals [of v frame' v'] by blast
  have tf: "td_frames (td_sig w) \<noteq> 0
        \<and> 0.9 \<le> real_of_int frame / real_of_int (td_frames (td_sig w)) \<longrightarrow>
        td_update w frame =
          bind (td_fitted (td_sig w)) (\<lambda>fitted.
            Inr (w\<lparr>td_art := (td_art w)\<lparr>td_sum_red := (td_t (td_sig w), np_real fitted)\<rparr>\<rparr>))"
    using td_update_show_fit [of w frame] by blast
  have sf: "sd_frames (sd_sig v) \<noteq> 0
        \<and> 0.9 \<le> real_of_int frame' / real_of_int (sd_frames (sd_sig v)) \<longrightarrow>
        sd_update v frame' =
          bind (sd_fitted (sd_sig v)) (\<lambda>fitted.
            Inr (v\<lparr>sd_art := (sd_art v)\<lparr>sd_sum_red := (sd_freq (sd_sig v), fitted)\<rparr>\<rparr>))"
    using sd_update_show_fit [of v frame'] by blast
  have fid: "rf_update st frame'' = Inr st' \<longrightarrow>
        rf_fid st' = rf_fid st @ [if frame'' > rf_frame then sum_list (rf_Mx st') else 0]"
    using rf_update_fid [of st frame'' st'] by blast
  from rf have rf': "rf_shape st \<longrightarrow>
        (\<exists>u. rf_update st frame'' = Inr u \<and> rf_shape u
           \<and> (frame'' < rf_frame \<longrightarrow>
                rf_Mx u = replicate n_spins 0 \<and> rf_My u = replicate n_spins 0
                \<and> rf_Mz u = replicate n_spins 1 \<and> rf_phases u = rf_phases st)
           \<and> (frame'' = rf_frame \<longrightarrow>
                rf_Mx u = replicate n_spins 1 \<and> rf_My u = replicate n_spins 0
                \<and> rf_Mz u = replicate n_spins 0 \<and> rf_phases u = rf_phases st)
           \<and> (frame'' > rf_frame \<longrightarrow>
                rf_phases u = map2 (\<lambda>ph off. ph + (0.3 + off)) (rf_phases st) freq_offsets
                \<and> rf_Mx u = map (\<lambda>ph. exp (- real_of_int (frame'' - rf_frame) / rf_T2) * cos ph)
                              (rf_phases u)
                \<and> rf_My u = map (\<lambda>ph. exp (- real_of_int (frame'' - rf_frame) / rf_T2) * sin ph)
                              (rf_phases u)
                \<and> rf_Mz u = replicate n_spins 0))"
    by (rule impI)
  show ?thesis using td sd tf sf fid rf' by (intro conjI) assumption+
qed

lemma td_demo_fitted: "td_fitted (td_sig td_demo) = Inr (Array [5, 5 / 2])"
  by (simp add: td_fitted_def td_demo_def dict_get_def py_sum_def)

lemma sd_demo_fitted: "sd_fitted (sd_sig sd_demo) = Inr (Array [5])"
  by (simp add: sd_fitted_def sd_demo_def dict_get_def py_sum_def)

lemma rf_init_shape: "length ph = n_spins \<Longrightarrow> rf_shape (rf_init ph)"
  by (simp add: rf_shape_def rf_init_def)

theorem update_effect_on_signals_witness:
  "td_update td_demo 95 =
     Inr (td_demo\<lparr>td_art := (td_art td_demo)\<lparr>td_sum_red := ([0, 1 / 2000], Array [5, 5 / 2])\<rparr>\<rparr>)
   \<and> map_sum id td_sig (td_update td_demo 95) = Inr (td_sig td_demo)
   \<and> sd_update sd_demo 95 =
       Inr (sd_demo\<lparr>sd_art := (sd_art sd_demo)\<lparr>sd_sum_red := ([- 400], Array [5])\<rparr>\<rparr>)
   \<and> map_sum id sd_sig (sd_update sd_demo 95) = Inr (sd_sig sd_demo)
   \<and> (\<exists>u. rf_update (rf_init [0, 0, 0, 0, 0, 0]) 0 = Inr u
          \<and> rf_fid u = [0] \<and> rf_Mx u = [0, 0, 0, 0, 0, 0] \<and> rf_My u = [0, 0, 0, 0, 0, 0]
          \<and> rf_Mz u = [1, 1, 1, 1, 1, 1] \<and> rf_phases u = [0, 0, 0, 0, 0, 0])
   \<and> (\<exists>u. rf_update (rf_init [0, 0, 0, 0, 0, 0]) 120 = Inr u
          \<and> rf_fid u = [0] \<and> rf_Mx u = [1, 1, 1, 1, 1, 1] \<and> rf_My u = [0, 0, 0, 0, 0, 0]
          \<and> rf_Mz u = [0, 0, 0, 0, 0, 0] \<and> rf_phases u = [0, 0, 0, 0, 0, 0])
   \<and> (\<exists>u. rf_update (rf_init [0, 0, 0, 0, 0, 0]) 121 = Inr u
          \<and> rf_fid u = [sum_list (rf_Mx u)]
          \<and> rf_phases u = [1 / 5, 6 / 25, 7 / 25, 8 / 25, 9 / 25, 2 / 5]
          \<and> rf_Mx u = map (\<lambda>ph. exp (- 1 / 250) * cos ph)
                        [1 / 5, 6 / 25, 7 / 25, 8 / 25, 9 / 25, 2 / 5]
          \<and> rf_My u = map (\<lambda>ph. exp (- 1 / 250) * sin ph)
                        [1 / 5, 6 / 25, 7 / 25, 8 / 25, 9 / 25, 2 / 5]
          \<and> rf_Mz u = [0, 0, 0, 0, 0, 0])"
proof -
  let ?Z = "[0, 0, 0, 0, 0, 0] :: real list"
  have sh: "rf_shape (rf_init ?Z)" by (rule rf_init_shape) (simp add: n_spins_def)
  have ph: "rf_phases (rf_init ?Z) = ?Z" "rf_fid (rf_init ?Z) = []" by (simp_all add: rf_init_def)
  have fr: "td_frames (td_sig td_demo) \<noteq> 0
            \<and> 0.9 \<le> real_of_int 95 / real_of_int (td_frames (td_sig td_demo))"
    "sd_frames (sd_sig sd_demo) \<noteq> 0
            \<and> 0.9 \<le> real_of_int 95 / real_of_int (sd_frames (sd_sig sd_demo))"
    by (simp_all add: td_demo_def sd_demo_def)
  have ax: "td_t (td_sig td_demo) = [0, 1 / 2000]" "sd_freq (sd_sig sd_demo) = [- 400]"
    by (simp_all add: td_demo_def sd_demo_def)
  have c: "(0 :: int) < rf_frame" "(120 :: int) = rf_frame" "(121 :: int) > rf_frame"
      "\<not> (0 :: int) > rf_frame" "\<not> (120 :: int) > rf_frame"
      "exp (- real_of_int (121 - rf_frame) / rf_T2) = exp (- 1 / 250)"
    by (simp_all add: rf_frame_val rf_T2_def)
  have r: "replicate n_spins (0 :: real) = ?Z" "replicate n_spins (1 :: real) = [1, 1, 1, 1, 1, 1]"
    by (simp_all add: n_spins_def eval_nat_numeral)
  have m: "map2 (\<lambda>ph off. ph + (0.3 + off)) ?Z freq_offsets
             = [1 / 5, 6 / 25, 7 / 25, 8 / 25, 9 / 25, 2 / 5]"
    by (simp add: freq_offsets_val)
  note T = update_effect_on_signals [where w = td_demo and frame = 95 and v = sd_demo
      and frame' = 95 and st = "rf_init ?Z"]
  from T [where frame'' = 0] fr have
    td: "td_update td_demo 95 =
          bind (td_fitted (td_sig td_demo)) (\<lambda>fitted.
            Inr (td_demo\<lparr>td_art := (td_art td_demo)
                   \<lparr>td_sum_red := (td_t (td_sig td_demo), np_real fitted)\<rparr>\<rparr>))"
    and sd: "sd_update sd_demo 95 =
          bind (sd_fitted (sd_sig sd_demo)) (\<lambda>fitted.
            Inr (sd_demo\<lparr>sd_art := (sd_art sd_demo)
                   \<lparr>sd_sum_red := (sd_freq (sd_sig sd_demo), fitted)\<rparr>\<rparr>))"
    by blast+
  have td': "td_update td_demo 95 =
     Inr (td_demo\<lparr>td_art := (td_art td_demo)\<lparr>td_sum_red := ([0, 1 / 2000], Array [5, 5 / 2])\<rparr>\<rparr>)"
    unfolding td td_demo_fitted ax by simp
  have sd': "sd_update sd_demo 95 =
       Inr (sd_demo\<lparr>sd_art := (sd_art sd_demo)\<lparr>sd_sum_red := ([- 400], Array [5])\<rparr>\<rparr>)"
    unfolding sd sd_demo_fitted ax by simp
  from T [where frame'' = 0 and w' = "projr (td_update td_demo 95)"
      and v' = "projr (sd_update sd_demo 95)"] td' sd'
  have sig: "map_sum id td_sig (td_update td_demo 95) = Inr (td_sig td_demo)"
    "map_sum id sd_sig (sd_update sd_demo 95) = Inr (sd_sig sd_demo)"
    by simp_all
  from T [where frame'' = 0] sh c(1,4) obtain u0 where
    u0: "rf_update (rf_init ?Z) 0 = Inr u0" "rf_Mx u0 = replicate n_spins 0"
      "rf_My u0 = replicate n_spins 0" "rf_Mz u0 = replicate n_spins 1"
      "rf_phases u0 = rf_phases (rf_init ?Z)"
    by blast
  from T [where frame'' = 0 and st' = u0] u0(1) c(4)
  have f0: "rf_fid u0 = rf_fid (rf_init ?Z) @ [0]" by simp
  from T [where frame'' = 120] sh c(2) obtain u1 where
    u1: "rf_update (rf_init ?Z) 120 = Inr u1" "rf_Mx u1 = replicate n_spins 1"
      "rf_My u1 = replicate n_spins 0" "rf_Mz u1 = replicate n_spins 0"
      "rf_phases u1 = rf_phases (rf_init ?Z)"
    by blast
  from T [where frame'' = 120 and st' = u1] u1(1) c(5)
  have f1: "rf_fid u1 = rf_fid (rf_init ?Z) @ [0]" by simp
  from T [where frame'' = 121] sh c(3) obtain u2 where
    u2: "rf_update (rf_init ?Z) 121 = Inr u2"
      "rf_phases u2 = map2 (\<lambda>ph off. ph + (0.3 + off)) (rf_phases (rf_init ?Z)) freq_offsets"
      "rf_Mx u2 = map (\<lambda>ph. exp (- real_of_int (121 - rf_frame) / rf_T2) * cos ph) (rf_phases u2)"
      "rf_My u2 = map (\<lambda>ph. exp (- real_of_int (121 - rf_frame) / rf_T2) * sin ph) (rf_phases u2)"
      "rf_Mz u2 = replicate n_spins 0"
    by blast
  from T [where frame'' = 121 and st' = u2] u2(1) c(3)
  have f2: "rf_fid u2 = rf_fid (rf_init ?Z) @ [sum_list (rf_Mx u2)]" by simp
  have p2: "rf_phases u2 = [1 / 5, 6 / 25, 7 / 25, 8 / 25, 9 / 25, 2 / 5]"
    unfolding u2(2) ph(1) by (rule m)
  have e0: "\<exists>u. rf_update (rf_init ?Z) 0 = Inr u
          \<and> rf_fid u = [0] \<and> rf_Mx u = ?Z \<and> rf_My u = ?Z
          \<and> rf_Mz u = [1, 1, 1, 1, 1, 1] \<and> rf_phases u = ?Z"
    using u0 f0 by (simp add: r ph)
  have e1: "\<exists>u. rf_update (rf_init ?Z) 120 = Inr u
          \<and> rf_fid u = [0] \<and> rf_Mx u = [1, 1, 1, 1, 1, 1] \<and> rf_My u = ?Z
          \<and> rf_Mz u = ?Z \<and> rf_phases u = ?Z"
    using u1 f1 by (simp add: r ph)
  have e2: "\<exists>u. rf_update (rf_init ?Z) 121 = Inr u
          \<and> rf_fid u = [sum_list (rf_Mx u)]
          \<and> rf_phases u = [1 / 5, 6 / 25, 7 / 25, 8 / 25, 9 / 25, 2 / 5]
          \<and> rf_Mx u = map (\<lambda>ph. exp (- 1 / 250) * cos ph)
                        [1 / 5, 6 / 25, 7 / 25, 8 / 25, 9 / 25, 2 / 5]
          \<and> rf_My u = map (\<lambda>ph. exp (- 1 / 250) * sin ph)
                        [1 / 5, 6 / 25, 7 / 25, 8 / 25, 9 / 25, 2 / 5]
          \<and> rf_Mz u = ?Z"
  proof (intro exI [of _ u2] conjI)
    show "rf_update (rf_init ?Z) 121 = Inr u2" by (rule u2(1))
    show "rf_fid u2 = [sum_list (rf_Mx u2)]" using f2 unfolding ph(2) append_Nil .
    show "rf_phases u2 = [1 / 5, 6 / 25, 7 / 25, 8 / 25, 9 / 25, 2 / 5]" by (rule p2)
    show "rf_Mx u2 = map (\<lambda>ph. exp (- 1 / 250) * cos ph)
                        [1 / 5, 6 / 25, 7 / 25, 8 / 25, 9 / 25, 2 / 5]"
      using u2(3) unfolding c(6) p2 .
    show "rf_My u2 = map (\<lambda>ph. exp (- 1 / 250) * sin ph)
                        [1 / 5, 6 / 25, 7 / 25, 8 / 25, 9 / 25, 2 / 5]"
      using u2(4) unfolding c(6) p2 .
    show "rf_Mz u2 = ?Z" using u2(5) unfolding r(1) .
  qed
  show ?thesis using td' sig(1) sd' sig(2) e0 e1 e2 by (intro conjI) assumption+
qed

text \<open>
  Setup stores no fitted signal: the world it returns holds the axis, the molecules, the
  basis and real signals and \<open>real_sum\<close>, and its red sum line is empty. The fitted
  signal first exists in a frame of the last phase, where \<open>update\<close> computes it; in a
  world whose \<open>basis_fids\<close> has lost its entries that frame raises the \<open>KeyError\<close> of
  \<open>basis_fids[n]\<close>. In the RF-pulse script the first frame extends the empty \<open>fid\<close> to
  \<open>[0]\<close>, and frame 120, reached after the frames 0 to 119 with \<open>Mx\<close> all 0 and 120
  samples in \<open>fid\<close>, sets every entry of \<open>Mx\<close> to 1, every entry of \<open>Mz\<close> to 0 and appends
  a sample.
\<close>

theorem update_computes_fitted_and_changes_rf_state:
  "td_setup 100 [0, 1 / 2000] [(''A'', ([1, 1 / 2], 5))] = Inr td_demo
   \<and> td_sum_red (td_art td_demo) = empty_line
   \<and> td_update td_demo 95 =
       Inr (td_demo\<lparr>td_art := (td_art td_demo)\<lparr>td_sum_red := ([0, 1 / 2000], Array [5, 5 / 2])\<rparr>\<rparr>)
   \<and> td_update (td_demo\<lparr>td_sig := (td_sig td_demo)\<lparr>basis_fids := []\<rparr>\<rparr>) 95 = Inl KeyError
   \<and> rf_fid (rf_init [0, 0, 0, 0, 0, 0]) = []
   \<and> map_sum id rf_fid (rf_update (rf_init [0, 0, 0, 0, 0, 0]) 0) = Inr [0]
   \<and> rf_run (rf_init [0, 0, 0, 0, 0, 0]) 120 =
       Inr ((rf_init [0, 0, 0, 0, 0, 0])
              \<lparr>rf_fid := replicate 120 0, rf_title := TitleWaiting,
               rf_arrows := replicate 7 (0, 0, 1)\<rparr>)
   \<and> rf_Mx ((rf_init [0, 0, 0, 0, 0, 0])
              \<lparr>rf_fid := replicate 120 0, rf_title := TitleWaiting,
               rf_arrows := replicate 7 (0, 0, 1)\<rparr>) = [0, 0, 0, 0, 0, 0]
   \<and> map_sum id (\<lambda>u. (rf_Mx u, rf_Mz u, length (rf_fid u)))
       (rf_update ((rf_init [0, 0, 0, 0, 0, 0])
              \<lparr>rf_fid := replicate 120 0, rf_title := TitleWaiting,
               rf_arrows := replicate 7 (0, 0, 1)\<rparr>) 120)
       = Inr ([1, 1, 1, 1, 1, 1], [0, 0, 0, 0, 0, 0], 121)"
proof -
  let ?Z = "[0, 0, 0, 0, 0, 0] :: real list"
  let ?s = "(rf_init ?Z)\<lparr>rf_fid := replicate 120 0, rf_title := TitleWaiting,
               rf_arrows := replicate 7 (0, 0, 1)\<rparr>"
  have a: "td_sum_red (td_art td_demo) = empty_line" by (simp add: td_demo_def td_figure_def)
  have fr: "td_frames (td_sig td_demo) \<noteq> 0"
      "0.9 \<le> real_of_int 95 / real_of_int (td_frames (td_sig td_demo))"
    by (simp_all add: td_demo_def)
  have b: "td_update td_demo 95 =
       Inr (td_demo\<lparr>td_art := (td_art td_demo)\<lparr>td_sum_red := ([0, 1 / 2000], Array [5, 5 / 2])\<rparr>\<rparr>)"
    unfolding td_update_show_fit [OF fr] td_demo_fitted by (simp add: td_demo_def)
  let ?w = "td_demo\<lparr>td_sig := (td_sig td_demo)\<lparr>basis_fids := []\<rparr>\<rparr>"
  have fr': "td_frames (td_sig ?w) \<noteq> 0"
      "0.9 \<le> real_of_int 95 / real_of_int (td_frames (td_sig ?w))"
    by (simp_all add: td_demo_def)
  have k: "td_fitted (td_sig ?w) = Inl KeyError"
    by (simp add: td_fitted_def td_demo_def dict_get_def)
  have c: "td_update ?w 95 = Inl KeyError"
    unfolding td_update_show_fit [OF fr'] k by simp
  have d: "rf_fid (rf_init ?Z) = []" by (simp add: rf_init_def)
  have e: "map_sum id rf_fid (rf_update (rf_init ?Z) 0) = Inr [0]"
    using rf_first_frame by simp
  have l: "length ?Z = n_spins" by (simp add: n_spins_def)
  have "rf_run (rf_init ?Z) (Suc 119) =
          Inr ((rf_init ?Z)\<lparr>rf_fid := replicate (Suc 119) 0, rf_title := TitleWaiting,
                             rf_arrows := replicate (Suc n_spins) (0, 0, 1)\<rparr>)"
    by (rule rf_run_waiting [OF l]) simp
  then have f: "rf_run (rf_init ?Z) 120 = Inr ?s" by (simp add: n_spins_def)
  have g: "rf_Mx ?s = ?Z" by (simp add: rf_init_def n_spins_def eval_nat_numeral)
  have sh: "rf_shape ?s" by (simp add: rf_shape_def rf_init_def n_spins_def)
  from rf_update_pulse [OF sh, of 120] obtain u where
    u: "rf_update ?s 120 = Inr u" "rf_Mx u = replicate n_spins 1" "rf_Mz u = replicate n_spins 0"
    by (auto simp: rf_frame_val)
  from rf_update_fid [OF u(1)] have "length (rf_fid u) = 121" by simp
  with u have h: "map_sum id (\<lambda>u. (rf_Mx u, rf_Mz u, length (rf_fid u))) (rf_update ?s 120)
       = Inr ([1, 1, 1, 1, 1, 1], [0, 0, 0, 0, 0, 0], 121)"
    by (simp add: n_spins_def eval_nat_numeral)
  show ?thesis using td_demo_setup a b c d e f g h by (intro conjI) assumption+
qed

section \<open>Multiplet synthesis\<close>

lemma vadd_length [simp]: "length (vadd xs ys) = min (length xs) (length ys)"
  by (simp add: vadd_def)

lemma sum_list_enumerate:
  "sum_list (map f (enumerate 0 xs)) = (\<Sum>i<length xs. f (i, xs ! i))"
proof -
  have "sum_list (map f (enumerate 0 xs)) = (\<Sum>i = 0..<length xs. map f (enumerate 0 xs) ! i)"
    by (simp add: sum_list_sum_nth)
  also have "\<dots> = (\<Sum>i = 0..<length xs. f (i, xs ! i))"
    by (rule sum.cong) (simp_all add: nth_enumerate_eq)
  finally show ?thesis by (simp add: atLeast0LessThan)
qed

lemma sum_list_zip:
  "sum_list (map f (zip xs ys)) = (\<Sum>i<min (length xs) (length ys). f (xs ! i, ys ! i))"
proof -
  have "sum_list (map f (zip xs ys)) = (\<Sum>i = 0..<length (zip xs ys). map f (zip xs ys) ! i)"
    by (simp only: sum_list_sum_nth length_map)
  also have "\<dots> = (\<Sum>i = 0..<min (length xs) (length ys). f (xs ! i, ys ! i))"
    by (rule sum.cong) simp_all
  finally show ?thesis by (simp add: atLeast0LessThan)
qed

text \<open>The accumulator after the loop: what it held before plus one term per item.\<close>

lemma multiplet_loop_eq:
  "length sig = length t \<Longrightarrow>
   multiplet_loop t center J n sig items =
     map2 (\<lambda>s \<tau>. s + sum_list (map (\<lambda>(i, a).
             of_real a * exp (\<i> * of_real (2 * pi * spec_peak center n J i * \<tau>))) items)) sig t"
proof (induction items arbitrary: sig)
  case Nil
  then show ?case by (simp add: list_eq_iff_nth_eq)
next
  case (Cons x items)
  obtain i a where x: "x = (i, a)" by (cases x)
  have len: "length (vadd sig (osc t a (spec_peak center n J i))) = length t"
    using Cons.prems by (simp add: osc_def)
  show ?case
    using Cons.prems
    by (simp add: x Let_def Cons.IH [OF len] spec_peak_def [symmetric])
       (simp add: list_eq_iff_nth_eq vadd_def osc_def add.assoc)
qed

lemma multiplet_fa_loop_eq:
  "length signal = length t \<Longrightarrow>
   multiplet_fa_loop t signal items =
     map2 (\<lambda>s \<tau>. s + sum_list (map (\<lambda>(f, a).
             of_real a * exp (\<i> * of_real (2 * pi * f * \<tau>))) items)) signal t"
proof (induction items arbitrary: signal)
  case Nil
  then show ?case by (simp add: list_eq_iff_nth_eq)
next
  case (Cons x items)
  obtain f a where x: "x = (f, a)" by (cases x)
  have len: "length (vadd signal (osc t a f)) = length t"
    using Cons.prems by (simp add: osc_def)
  show ?case
    using Cons.prems
    by (simp add: x Cons.IH [OF len])
       (simp add: list_eq_iff_nth_eq vadd_def osc_def add.assoc)
qed

lemma multiplet_eq:
  "multiplet g center pattern J = vmul (spec_multiplet (t_arr g) center pattern J) (decay_arr g)"
proof -
  have "multiplet_loop (t_arr g) center J (length pattern) (zeros_like (t_arr g))
          (enumerate 0 pattern) = spec_multiplet (t_arr g) center pattern J"
    by (simp add: multiplet_loop_eq zeros_like_def sum_list_enumerate spec_multiplet_def
        list_eq_iff_nth_eq)
  then show ?thesis by (simp add: multiplet_def Let_def)
qed

lemma multiplet_fa_eq:
  "multiplet_fa g freqs amps = spec_multiplet_fa (t_arr g) freqs amps"
  by (simp add: multiplet_fa_def multiplet_fa_loop_eq zeros_like_def sum_list_zip
      spec_multiplet_fa_def list_eq_iff_nth_eq)

lemma mk_globals_decay:
  "mk_globals BW N T2 = Inr g \<Longrightarrow> decay_arr g = map (\<lambda>\<tau>. exp (- \<tau> / T2)) (t_arr g)"
  by (auto simp: mk_globals_def decay_env_def np_div_def bind_eq_Inr comp_def split: if_splits)

lemma damped_singlet_differs:
  assumes "0 < T2" and "g = \<lparr>t_arr = [0, 1 / 2000], decay_arr = [1, exp (- (1 / 2000) / T2)]\<rparr>"
  shows "multiplet g c [1] J \<noteq> spec_multiplet (t_arr g) c [1] J"
proof
  assume eq: "multiplet g c [1] J = spec_multiplet (t_arr g) c [1] J"
  define z where "z = exp (\<i> * of_real (2 * pi * spec_peak c 1 J 0 * (1 / 2000)))"
  define d where "d = exp (- (1 / 2000) / T2)"
  have sp: "spec_multiplet (t_arr g) c [1] J ! 1 = z"
    by (simp add: spec_multiplet_def assms(2) z_def)
  have "multiplet g c [1] J ! 1 = z * of_real d"
    by (simp add: multiplet_eq vmul_def spec_multiplet_def assms(2) z_def d_def)
  with eq sp have "z * of_real d = z" by simp
  then have "cmod (z * of_real d) = cmod z" by (simp only:)
  moreover have "cmod z = 1" unfolding z_def by (simp add: cis_conv_exp [symmetric])
  moreover have "0 < d" by (simp add: d_def)
  ultimately have "d = 1" by (simp add: norm_mult)
  then have "- (1 / 2000) / T2 = 0" by (simp add: d_def)
  then show False using assms(1) by simp
qed

text \<open>
  C3, as the code has it. For a pattern with \<open>n\<close> amplitudes, center \<open>c\<close> and coupling
  \<open>J\<close>, \<open>multiplet\<close> places peak \<open>i\<close> at \<open>c + (i - (n-1)/2) J\<close>; these offsets are \<open>J\<close>
  apart and symmetric around the center. The signal it returns is, at each time \<open>t\<close>
  of the shared axis, the sum over \<open>i\<close> of \<open>amplitude\<^sub>i exp(i 2\<pi> f\<^sub>i t)\<close> multiplied by
  the decay envelope \<open>exp(-t/T2)\<close>: the function ends with \<open>return sig*decay\<close>.
\<close>

theorem pattern_multiplet_signal:
  assumes "mk_globals BW N T2 = Inr g"
  shows "multiplet g center pattern J =
           map (\<lambda>\<tau>. (\<Sum>i<length pattern.
                        of_real (pattern ! i)
                          * exp (\<i> * of_real (2 * pi * spec_peak center (length pattern) J i * \<tau>)))
                     * of_real (exp (- \<tau> / T2)))
               (t_arr g)
         \<and> spec_peak center n J i = center + (real i - (real n - 1) / 2) * J
         \<and> spec_peak center n J (Suc i) - spec_peak center n J i = J
         \<and> (i < n \<longrightarrow>
              spec_peak center n J (n - 1 - i) - center = - (spec_peak center n J i - center))"
proof -
  have d: "decay_arr g = map (\<lambda>\<tau>. exp (- \<tau> / T2)) (t_arr g)"
    by (rule mk_globals_decay [OF assms])
  have a: "multiplet g center pattern J =
           map (\<lambda>\<tau>. (\<Sum>i<length pattern.
                        of_real (pattern ! i)
                          * exp (\<i> * of_real (2 * pi * spec_peak center (length pattern) J i * \<tau>)))
                     * of_real (exp (- \<tau> / T2)))
               (t_arr g)"
    by (simp add: multiplet_eq d vmul_def spec_multiplet_def list_eq_iff_nth_eq)
  have b: "spec_peak center n J (Suc i) - spec_peak center n J i = J"
    by (simp add: spec_peak_def algebra_simps)
  have c: "spec_peak center n J (n - 1 - i) - center = - (spec_peak center n J i - center)"
    if "i < n"
  proof -
    have h: "real (n - 1 - i) = real n - 1 - real i" using that by (simp add: of_nat_diff)
    have "spec_peak center n J (n - 1 - i)
            = center + (real n - 1 - real i - (real n - 1) / 2) * J"
      by (simp only: spec_peak_def h)
    then show ?thesis by (simp add: spec_peak_def field_simps)
  qed
  show ?thesis using a b c by (simp add: spec_peak_def)
qed

theorem pattern_multiplet_signal_witness:
  "multiplet \<lparr>t_arr = [0, 1 / 2000], decay_arr = [1, exp (- (1 / 2000) / 0.18)]\<rparr> 200 [1, 1] 7 =
     map (\<lambda>\<tau>. (\<Sum>i<length [1, 1 :: real].
                  of_real ([1, 1] ! i) * exp (\<i> * of_real (2 * pi * spec_peak 200 (length [1, 1 :: real]) 7 i * \<tau>)))
               * of_real (exp (- \<tau> / 0.18)))
         [0, 1 / 2000]
   \<and> spec_peak 200 2 7 0 = 200 - 7 / 2 \<and> spec_peak 200 2 7 1 = 200 + 7 / 2"
proof -
  have g: "mk_globals 2000 2 0.18 =
             Inr \<lparr>t_arr = [0, 1 / 2000], decay_arr = [1, exp (- (1 / 2000) / 0.18)]\<rparr>"
    by (simp add: mk_globals_def time_axis_def decay_env_def np_div_def eval_nat_numeral)
  have p: "spec_peak 200 2 7 0 = 200 - 7 / 2" "spec_peak 200 2 7 1 = 200 + 7 / 2"
    by (simp_all add: spec_peak_def)
  from pattern_multiplet_signal [OF g, of 200 "[1, 1]" 7 2 0] p show ?thesis by simp
qed

theorem pattern_multiplet_is_damped:
  "mk_globals 2000 2 0.18 = Inr \<lparr>t_arr = [0, 1 / 2000], decay_arr = [1, exp (- (1 / 2000) / 0.18)]\<rparr>
   \<and> multiplet \<lparr>t_arr = [0, 1 / 2000], decay_arr = [1, exp (- (1 / 2000) / 0.18)]\<rparr> 80 [1] 7
       \<noteq> spec_multiplet [0, 1 / 2000] 80 [1] 7"
proof -
  have g: "mk_globals 2000 2 0.18 =
             Inr \<lparr>t_arr = [0, 1 / 2000], decay_arr = [1, exp (- (1 / 2000) / 0.18)]\<rparr>"
    by (simp add: mk_globals_def time_axis_def decay_env_def np_div_def eval_nat_numeral)
  from damped_singlet_differs [where ?T2.0 = "0.18" and c = 80 and J = 7, OF _ refl] g show ?thesis by simp
qed

text \<open>
  C4, as the code has it. No \<open>multiplet\<close> normalises. The \<open>multiplet(freqs, amps)\<close> of
  the FID-to-spectrum and concentration scripts applies no decay either: it returns the
  undamped superposition of its terms, and the caller (\<open>molecule_type\<close>, \<open>build_case\<close>)
  multiplies by the envelope afterwards. The \<open>multiplet(center, pattern, J)\<close> of the two
  basis-fitting scripts applies the decay itself: it returns the undamped superposition
  multiplied by the envelope.
\<close>

theorem multiplet_decay_placement:
  "multiplet_fa g freqs amps = spec_multiplet_fa (t_arr g) freqs amps
   \<and> molecule_type g 1 =
       Some (vmul (vadd (spec_multiplet_fa (t_arr g) [80] [1])
                        (spec_multiplet_fa (t_arr g) [200 - 7 / 2, 200 + 7 / 2] [1, 1]))
                  (decay_arr g))
   \<and> molecule_type g 3 =
       Some (vmul (spec_multiplet_fa (t_arr g)
                     [250 - 1.5 * 7, 250 - 0.5 * 7, 250 + 0.5 * 7, 250 + 1.5 * 7] [1, 3, 3, 1])
                  (decay_arr g))
   \<and> fst (build_case g 1) = [vmul (spec_multiplet_fa (t_arr g) [80] [1]) (decay_arr g)]
   \<and> multiplet g center pattern J =
       vmul (spec_multiplet (t_arr g) center pattern J) (decay_arr g)"
  by (simp add: multiplet_fa_eq multiplet_eq molecule_type_def build_case_def Let_def)

theorem pattern_multiplet_applies_decay:
  "mk_globals 2000 2 0.15 = Inr \<lparr>t_arr = [0, 1 / 2000], decay_arr = [1, exp (- (1 / 2000) / 0.15)]\<rparr>
   \<and> multiplet \<lparr>t_arr = [0, 1 / 2000], decay_arr = [1, exp (- (1 / 2000) / 0.15)]\<rparr> 140 [1] 7
       \<noteq> spec_multiplet [0, 1 / 2000] 140 [1] 7"
proof -
  have g: "mk_globals 2000 2 0.15 =
             Inr \<lparr>t_arr = [0, 1 / 2000], decay_arr = [1, exp (- (1 / 2000) / 0.15)]\<rparr>"
    by (simp add: mk_globals_def time_axis_def decay_env_def np_div_def eval_nat_numeral)
  from damped_singlet_differs [where ?T2.0 = "0.15" and c = 140 and J = 7, OF _ refl] g show ?thesis by simp
qed

section \<open>Normalisation\<close>

lemma Max_normalized:
  fixes xs :: "real list"
  assumes "xs \<noteq> []" and "\<forall>x \<in> set xs. 0 \<le> x" and "Max (set xs) \<noteq> 0"
  shows "Max (set (map (\<lambda>x. x / Max (set xs)) xs)) = 1"
proof -
  let ?m = "Max (set xs)"
  have fin: "finite (set xs)" "set xs \<noteq> {}" using assms(1) by simp_all
  have min': "?m \<in> set xs" using fin by (rule Max_in)
  then have "0 \<le> ?m" using assms(2) by blast
  with assms(3) have mpos: "0 < ?m" by simp
  let ?S = "set (map (\<lambda>x. x / ?m) xs)"
  have fS: "finite ?S" "?S \<noteq> {}" using assms(1) by simp_all
  have "1 \<in> ?S" using min' mpos by (force simp: image_iff)
  moreover have "y \<le> 1" if "y \<in> ?S" for y
  proof -
    from that obtain x where x: "x \<in> set xs" "y = x / ?m" by auto
    have "x \<le> ?m" using fin(1) x(1) by (rule Max_ge)
    then show ?thesis using mpos by (simp add: x(2))
  qed
  ultimately show ?thesis using fS by (intro Max_eqI) auto
qed

lemma td_normalize_peak:
  assumes "fid \<noteq> []" and "\<exists>z \<in> set fid. z \<noteq> 0"
  shows "\<exists>basis. td_normalize fid = Inr basis
           \<and> basis = map (\<lambda>z. z / of_real (Max (set (map cmod fid)))) fid
           \<and> Max (set (map cmod basis)) = 1"
proof -
  let ?a = "map cmod fid"
  let ?m = "Max (set ?a)"
  have ne: "?a \<noteq> []" using assms(1) by simp
  have nonneg: "\<forall>x \<in> set ?a. 0 \<le> x" by auto
  from assms(2) obtain z where z: "z \<in> set fid" "z \<noteq> 0" by blast
  have "cmod z \<le> ?m" using z(1) by (intro Max_ge) auto
  moreover have "0 < cmod z" using z(2) by simp
  ultimately have mpos: "0 < ?m" by linarith
  have norm: "td_normalize fid = Inr (map (\<lambda>z. z / of_real ?m) fid)"
    using assms(1) mpos by (simp add: td_normalize_def np_max_def np_div_def)
  have e1: "map cmod (map (\<lambda>z. z / of_real ?m) fid) = map (\<lambda>x. x / ?m) ?a"
    using mpos by (simp add: norm_divide)
  have e2: "Max (set (map (\<lambda>x. x / ?m) ?a)) = 1"
    by (rule Max_normalized [OF ne nonneg]) (use mpos in simp)
  have "Max (set (map cmod (map (\<lambda>z. z / of_real ?m) fid))) = 1"
    by (simp only: e1 e2)
  with norm show ?thesis by blast
qed

lemma spectrum_nonneg: "spectrum x = Inr spec \<Longrightarrow> \<forall>v \<in> set spec. 0 \<le> v"
  by (auto simp: spectrum_def bind_eq_Inr)

lemma sd_normalize_peak:
  assumes "spectrum x = Inr spec" and "\<exists>v \<in> set spec. v \<noteq> 0"
  shows "\<exists>basis. sd_normalize spec = Inr basis
           \<and> basis = map (\<lambda>v. v / Max (set spec)) spec
           \<and> Max (set (map abs basis)) = 1"
proof -
  let ?m = "Max (set spec)"
  have nonneg: "\<forall>v \<in> set spec. 0 \<le> v" by (rule spectrum_nonneg [OF assms(1)])
  from assms(2) obtain v where v: "v \<in> set spec" "v \<noteq> 0" by blast
  then have ne: "spec \<noteq> []" by auto
  have "v \<le> ?m" using v(1) by (intro Max_ge) auto
  moreover have "0 < v" using v nonneg by force
  ultimately have mpos: "0 < ?m" by linarith
  have norm: "sd_normalize spec = Inr (map (\<lambda>v. v / ?m) spec)"
    using ne mpos by (simp add: sd_normalize_def np_max_def np_div_def)
  have e1: "map abs (map (\<lambda>v. v / ?m) spec) = map (\<lambda>v. v / ?m) spec"
    using nonneg mpos by (simp add: abs_of_nonneg)
  have e2: "Max (set (map (\<lambda>v. v / ?m) spec)) = 1"
    by (rule Max_normalized [OF ne nonneg]) (use mpos in simp)
  have "Max (set (map abs (map (\<lambda>v. v / ?m) spec))) = 1"
    by (simp only: e1 e2)
  with norm show ?thesis by blast
qed

text \<open>A normaliser that returns was given a signal that is not identically zero.\<close>

lemma td_normalize_Inr:
  assumes "td_normalize fid = Inr basis"
  shows "fid \<noteq> [] \<and> (\<exists>z \<in> set fid. z \<noteq> 0)"
proof -
  have ne: "fid \<noteq> []" using assms by (auto simp: td_normalize_def np_max_def)
  have "\<exists>z \<in> set fid. z \<noteq> 0"
  proof (rule ccontr)
    assume a: "\<not> (\<exists>z \<in> set fid. z \<noteq> 0)"
    from ne obtain x where "x \<in> set fid" by (cases fid) auto
    with a have "set (map cmod fid) = {0}" by (auto simp: image_iff)
    then have "Max (set (map cmod fid)) = 0" by simp
    with assms ne show False by (simp add: td_normalize_def np_max_def np_div_def)
  qed
  with ne show ?thesis by simp
qed

lemma sd_normalize_Inr:
  assumes "sd_normalize spec = Inr basis"
  shows "spec \<noteq> [] \<and> (\<exists>v \<in> set spec. v \<noteq> 0)"
proof -
  have ne: "spec \<noteq> []" using assms by (auto simp: sd_normalize_def np_max_def)
  have "\<exists>v \<in> set spec. v \<noteq> 0"
  proof (rule ccontr)
    assume a: "\<not> (\<exists>v \<in> set spec. v \<noteq> 0)"
    from ne obtain x where "x \<in> set spec" by (cases spec) auto
    with a have "set spec = {0}" by auto
    then have "Max (set spec) = 0" by simp
    with assms ne show False by (simp add: sd_normalize_def np_max_def np_div_def)
  qed
  with ne show ?thesis by simp
qed

section \<open>The loops that build the basis and real signals\<close>

lemma update_fresh: "k \<notin> fst ` set al \<Longrightarrow> AList.update k v al = al @ [(k, v)]"
  by (induction al) auto

lemma td_build_step_Inr:
  assumes "td_build_step (n, (fid, c)) (bf, rf) = Inr (bf', rf')"
  shows "\<exists>basis. td_normalize fid = Inr basis \<and> bf' = dict_put bf n basis
           \<and> rf' = dict_put rf n (map (\<lambda>z. z * of_real c) basis)"
  using assms by (auto simp: bind_eq_Inr Let_def)

lemma td_build_loop:
  assumes "for_each td_build_step mols (bf, rf) = Inr (bf', rf')"
    and "distinct (map fst mols)"
    and "fst ` set mols \<inter> fst ` set bf = {}" and "fst ` set mols \<inter> fst ` set rf = {}"
  shows "bf' = bf @ map (\<lambda>(n, (fid, c)). (n, projr (td_normalize fid))) mols
       \<and> rf' = rf @ map (\<lambda>(n, (fid, c)).
                  (n, map (\<lambda>z. z * of_real c) (projr (td_normalize fid)))) mols
       \<and> (\<forall>(n, (fid, c)) \<in> set mols. \<exists>basis. td_normalize fid = Inr basis)"
  using assms
proof (induction mols arbitrary: bf rf)
  case Nil
  then show ?case by simp
next
  case (Cons m mols)
  obtain n fid c where m: "m = (n, (fid, c))" by (cases m) auto
  from Cons.prems(1) obtain bf1 rf1 where
    step: "td_build_step (n, (fid, c)) (bf, rf) = Inr (bf1, rf1)"
    and rest: "for_each td_build_step mols (bf1, rf1) = Inr (bf', rf')"
    by (auto simp: m bind_eq_Inr)
  from td_build_step_Inr [OF step] obtain basis where
    b: "td_normalize fid = Inr basis" "bf1 = dict_put bf n basis"
       "rf1 = dict_put rf n (map (\<lambda>z. z * of_real c) basis)"
    by blast
  have nb: "n \<notin> fst ` set bf" "n \<notin> fst ` set rf" using Cons.prems(3,4) by (auto simp: m)
  have bf1: "bf1 = bf @ [(n, basis)]" using b(2) nb(1) by (simp add: dict_put_def update_fresh)
  have rf1: "rf1 = rf @ [(n, map (\<lambda>z. z * of_real c) basis)]"
    using b(3) nb(2) by (simp add: dict_put_def update_fresh)
  have d: "distinct (map fst mols)" "n \<notin> fst ` set mols" using Cons.prems(2) by (auto simp: m)
  have i1: "fst ` set mols \<inter> fst ` set bf1 = {}" using Cons.prems(3) d(2) by (auto simp: bf1 m)
  have i2: "fst ` set mols \<inter> fst ` set rf1 = {}" using Cons.prems(4) d(2) by (auto simp: rf1 m)
  from Cons.IH [OF rest d(1) i1 i2] show ?case by (simp add: bf1 rf1 m b(1))
qed

lemma sd_build_step_Inr:
  assumes "sd_build_step (n, (peaks, c)) (bs, rs) = Inr (bs', rs')"
  shows "\<exists>spec basis. spectrum (py_sum peaks) = Inr spec \<and> sd_normalize spec = Inr basis
           \<and> bind (spectrum (py_sum peaks)) sd_normalize = Inr basis
           \<and> bs' = dict_put bs n basis
           \<and> rs' = dict_put rs n (map (\<lambda>x. x * c) basis)"
  using assms by (auto simp: bind_eq_Inr Let_def)

lemma sd_build_loop:
  assumes "for_each sd_build_step mols (bs, rs) = Inr (bs', rs')"
    and "distinct (map fst mols)"
    and "fst ` set mols \<inter> fst ` set bs = {}" and "fst ` set mols \<inter> fst ` set rs = {}"
  shows "bs' = bs @ map (\<lambda>(n, (peaks, c)).
                  (n, projr (bind (spectrum (py_sum peaks)) sd_normalize))) mols
       \<and> rs' = rs @ map (\<lambda>(n, (peaks, c)).
                  (n, map (\<lambda>x. x * c) (projr (bind (spectrum (py_sum peaks)) sd_normalize)))) mols
       \<and> (\<forall>(n, (peaks, c)) \<in> set mols.
             \<exists>spec basis. spectrum (py_sum peaks) = Inr spec \<and> sd_normalize spec = Inr basis)"
  using assms
proof (induction mols arbitrary: bs rs)
  case Nil
  then show ?case by simp
next
  case (Cons m mols)
  obtain n peaks c where m: "m = (n, (peaks, c))" by (cases m) auto
  from Cons.prems(1) obtain bs1 rs1 where
    step: "sd_build_step (n, (peaks, c)) (bs, rs) = Inr (bs1, rs1)"
    and rest: "for_each sd_build_step mols (bs1, rs1) = Inr (bs', rs')"
    by (auto simp: m bind_eq_Inr)
  from sd_build_step_Inr [OF step] obtain spec basis where
    b: "spectrum (py_sum peaks) = Inr spec" "sd_normalize spec = Inr basis"
       "bind (spectrum (py_sum peaks)) sd_normalize = Inr basis"
       "bs1 = dict_put bs n basis" "rs1 = dict_put rs n (map (\<lambda>x. x * c) basis)"
    by blast
  have nb: "n \<notin> fst ` set bs" "n \<notin> fst ` set rs" using Cons.prems(3,4) by (auto simp: m)
  have bs1: "bs1 = bs @ [(n, basis)]" using b(4) nb(1) by (simp add: dict_put_def update_fresh)
  have rs1: "rs1 = rs @ [(n, map (\<lambda>x. x * c) basis)]"
    using b(5) nb(2) by (simp add: dict_put_def update_fresh)
  have d: "distinct (map fst mols)" "n \<notin> fst ` set mols" using Cons.prems(2) by (auto simp: m)
  have i1: "fst ` set mols \<inter> fst ` set bs1 = {}" using Cons.prems(3) d(2) by (auto simp: bs1 m)
  have i2: "fst ` set mols \<inter> fst ` set rs1 = {}" using Cons.prems(4) d(2) by (auto simp: rs1 m)
  from Cons.IH [OF rest d(1) i1 i2] b(1,2) show ?case by (simp add: bs1 rs1 m b(3))
qed

lemma map_of_mapped:
  assumes "distinct (map fst mols)" and "(n, d) \<in> set mols"
  shows "map_of (map (\<lambda>(k, v). (k, f v)) mols) n = Some (f d)"
proof -
  have "map_of mols n = Some d" using assms by simp
  then show ?thesis by (simp add: map_of_map)
qed

lemma td_fitted_items_eq:
  assumes "distinct (map fst (td_molecules s))"
    and "basis_fids s = map (\<lambda>(n, (fid, c)). (n, B fid)) (td_molecules s)"
    and "set ms \<subseteq> set (td_molecules s)"
  shows "td_fitted_items s (map fst ms)
           = Inr (map (\<lambda>(n, (fid, c)). map (\<lambda>z. z * of_real c) (B fid)) ms)"
  using assms(3)
proof (induction ms)
  case Nil
  then show ?case by simp
next
  case (Cons m ms)
  obtain n fid c where m: "m = (n, (fid, c))" by (cases m) auto
  have mem: "(n, (fid, c)) \<in> set (td_molecules s)" using Cons.prems by (simp add: m)
  have "basis_fids s = map (\<lambda>(k, v). (k, (B \<circ> fst) v)) (td_molecules s)"
    by (simp add: assms(2) case_prod_unfold)
  then have g1: "dict_get (basis_fids s) n = Inr (B fid)"
    using map_of_mapped [OF assms(1) mem, of "B \<circ> fst"] by (simp add: dict_get_def)
  have g2: "dict_get (td_molecules s) n = Inr (fid, c)"
    using assms(1) mem by (simp add: dict_get_def)
  show ?case using Cons g1 g2 by (simp add: m)
qed

lemma sd_fitted_items_eq:
  assumes "distinct (map fst (sd_molecules s))"
    and "basis_specs s = map (\<lambda>(n, (peaks, c)). (n, B peaks)) (sd_molecules s)"
    and "set ms \<subseteq> set (sd_molecules s)"
  shows "sd_fitted_items s (map fst ms)
           = Inr (map (\<lambda>(n, (peaks, c)). map (\<lambda>x. x * c) (B peaks)) ms)"
  using assms(3)
proof (induction ms)
  case Nil
  then show ?case by simp
next
  case (Cons m ms)
  obtain n peaks c where m: "m = (n, (peaks, c))" by (cases m) auto
  have mem: "(n, (peaks, c)) \<in> set (sd_molecules s)" using Cons.prems by (simp add: m)
  have "basis_specs s = map (\<lambda>(k, v). (k, (B \<circ> fst) v)) (sd_molecules s)"
    by (simp add: assms(2) case_prod_unfold)
  then have g1: "dict_get (basis_specs s) n = Inr (B peaks)"
    using map_of_mapped [OF assms(1) mem, of "B \<circ> fst"] by (simp add: dict_get_def)
  have g2: "dict_get (sd_molecules s) n = Inr (peaks, c)"
    using assms(1) mem by (simp add: dict_get_def)
  show ?case using Cons g1 g2 by (simp add: m)
qed

text \<open>What the setup of each script returns, when it returns.\<close>

lemma td_setup_Inr:
  assumes "td_setup frames t mols = Inr w" and "distinct (map fst mols)"
  shows "td_frames (td_sig w) = frames" and "td_t (td_sig w) = t"
    and "td_molecules (td_sig w) = mols"
    and "basis_fids (td_sig w) = map (\<lambda>(n, (fid, c)). (n, projr (td_normalize fid))) mols"
    and "real_fids (td_sig w) = map (\<lambda>(n, (fid, c)).
                   (n, map (\<lambda>z. z * of_real c) (projr (td_normalize fid)))) mols"
    and "td_real_sum (td_sig w) = py_sum (map snd (real_fids (td_sig w)))"
    and "td_art w = td_figure mols"
    and "\<forall>(n, (fid, c)) \<in> set mols. \<exists>basis. td_normalize fid = Inr basis"
proof -
  from assms(1) obtain bf rf where
    loop: "for_each td_build_step mols ([], []) = Inr (bf, rf)"
    and w: "w = \<lparr>td_sig = \<lparr>td_frames = frames, td_t = t, td_molecules = mols,
                       basis_fids = bf, real_fids = rf,
                       td_real_sum = py_sum (map snd rf)\<rparr>,
            td_art = td_figure mols\<rparr>"
    by (auto simp: td_setup_def bind_eq_Inr)
  from td_build_loop [OF loop assms(2)] have
    bf: "bf = map (\<lambda>(n, (fid, c)). (n, projr (td_normalize fid))) mols"
    and rf: "rf = map (\<lambda>(n, (fid, c)).
                  (n, map (\<lambda>z. z * of_real c) (projr (td_normalize fid)))) mols"
    and ok: "\<forall>(n, (fid, c)) \<in> set mols. \<exists>basis. td_normalize fid = Inr basis"
    by simp_all
  show "td_frames (td_sig w) = frames" "td_t (td_sig w) = t" "td_molecules (td_sig w) = mols"
    "td_real_sum (td_sig w) = py_sum (map snd (real_fids (td_sig w)))"
    "td_art w = td_figure mols"
    by (simp_all add: w)
  show "basis_fids (td_sig w) = map (\<lambda>(n, (fid, c)). (n, projr (td_normalize fid))) mols"
    by (simp add: w bf)
  show "real_fids (td_sig w) = map (\<lambda>(n, (fid, c)).
                   (n, map (\<lambda>z. z * of_real c) (projr (td_normalize fid)))) mols"
    by (simp add: w rf)
  show "\<forall>(n, (fid, c)) \<in> set mols. \<exists>basis. td_normalize fid = Inr basis" by (rule ok)
qed

lemma sd_setup_Inr:
  assumes "sd_setup frames freq mols = Inr w" and "distinct (map fst mols)"
  shows "sd_frames (sd_sig w) = frames" and "sd_freq (sd_sig w) = freq"
    and "sd_molecules (sd_sig w) = mols"
    and "basis_specs (sd_sig w) = map (\<lambda>(n, (peaks, c)).
                   (n, projr (bind (spectrum (py_sum peaks)) sd_normalize))) mols"
    and "real_specs (sd_sig w) = map (\<lambda>(n, (peaks, c)).
                   (n, map (\<lambda>x. x * c) (projr (bind (spectrum (py_sum peaks)) sd_normalize)))) mols"
    and "sd_real_sum (sd_sig w) = py_sum (map snd (real_specs (sd_sig w)))"
    and "sd_art w = sd_figure mols"
    and "\<forall>(n, (peaks, c)) \<in> set mols.
             \<exists>spec basis. spectrum (py_sum peaks) = Inr spec \<and> sd_normalize spec = Inr basis"
proof -
  from assms(1) obtain bs rs where
    loop: "for_each sd_build_step mols ([], []) = Inr (bs, rs)"
    and w: "w = \<lparr>sd_sig = \<lparr>sd_frames = frames, sd_freq = freq, sd_molecules = mols,
                       basis_specs = bs, real_specs = rs,
                       sd_real_sum = py_sum (map snd rs)\<rparr>,
            sd_art = sd_figure mols\<rparr>"
    by (auto simp: sd_setup_def bind_eq_Inr)
  from sd_build_loop [OF loop assms(2)] have
    bs: "bs = map (\<lambda>(n, (peaks, c)).
                  (n, projr (bind (spectrum (py_sum peaks)) sd_normalize))) mols"
    and rs: "rs = map (\<lambda>(n, (peaks, c)).
                  (n, map (\<lambda>x. x * c) (projr (bind (spectrum (py_sum peaks)) sd_normalize)))) mols"
    and ok: "\<forall>(n, (peaks, c)) \<in> set mols.
             \<exists>spec basis. spectrum (py_sum peaks) = Inr spec \<and> sd_normalize spec = Inr basis"
    by simp_all
  show "sd_frames (sd_sig w) = frames" "sd_freq (sd_sig w) = freq" "sd_molecules (sd_sig w) = mols"
    "sd_real_sum (sd_sig w) = py_sum (map snd (real_specs (sd_sig w)))"
    "sd_art w = sd_figure mols"
    by (simp_all add: w)
  show "basis_specs (sd_sig w) = map (\<lambda>(n, (peaks, c)).
                   (n, projr (bind (spectrum (py_sum peaks)) sd_normalize))) mols"
    by (simp add: w bs)
  show "real_specs (sd_sig w) = map (\<lambda>(n, (peaks, c)).
                   (n, map (\<lambda>x. x * c) (projr (bind (spectrum (py_sum peaks)) sd_normalize)))) mols"
    by (simp add: w rs)
  show "\<forall>(n, (peaks, c)) \<in> set mols.
             \<exists>spec basis. spectrum (py_sum peaks) = Inr spec \<and> sd_normalize spec = Inr basis"
    by (rule ok)
qed

lemma td_fitted_is_real_sum:
  assumes "td_setup frames t mols = Inr w" and "distinct (map fst mols)"
  shows "td_fitted (td_sig w) = Inr (td_real_sum (td_sig w))"
proof -
  note w = td_setup_Inr [OF assms]
  have items: "td_fitted_items (td_sig w) (map fst mols)
           = Inr (map (\<lambda>(n, (fid, c)). map (\<lambda>z. z * of_real c) (projr (td_normalize fid))) mols)"
    using td_fitted_items_eq [of "td_sig w" "\<lambda>fid. projr (td_normalize fid)" mols] assms(2)
    by (simp add: w(3,4))
  have "map snd (real_fids (td_sig w))
          = map (\<lambda>(n, (fid, c)). map (\<lambda>z. z * of_real c) (projr (td_normalize fid))) mols"
    by (simp add: w(5) case_prod_unfold comp_def)
  then show ?thesis using items by (simp add: td_fitted_def w(3,6))
qed

lemma sd_fitted_is_real_sum:
  assumes "sd_setup frames freq mols = Inr w" and "distinct (map fst mols)"
  shows "sd_fitted (sd_sig w) = Inr (sd_real_sum (sd_sig w))"
proof -
  note w = sd_setup_Inr [OF assms]
  have items: "sd_fitted_items (sd_sig w) (map fst mols)
           = Inr (map (\<lambda>(n, (peaks, c)).
               map (\<lambda>x. x * c) (projr (bind (spectrum (py_sum peaks)) sd_normalize))) mols)"
    using sd_fitted_items_eq [of "sd_sig w"
        "\<lambda>peaks. projr (bind (spectrum (py_sum peaks)) sd_normalize)" mols] assms(2)
    by (simp add: w(3,4))
  have "map snd (real_specs (sd_sig w))
          = map (\<lambda>(n, (peaks, c)).
               map (\<lambda>x. x * c) (projr (bind (spectrum (py_sum peaks)) sd_normalize))) mols"
    by (simp add: w(5) case_prod_unfold comp_def)
  then show ?thesis using items by (simp add: sd_fitted_def w(3,6))
qed

lemma distinct_dict_literal: "distinct (map fst (dict_literal items))"
proof -
  have "distinct (map fst d) \<Longrightarrow>
          distinct (map fst (foldl (\<lambda>d (k, v). dict_put d k v) d items))" for d :: "('a \<times> 'b) list"
    by (induction items arbitrary: d) (auto simp: dict_put_def distinct_update)
  then show ?thesis by (simp add: dict_literal_def)
qed


section \<open>Unit peak of every basis\<close>

lemma td_basis_peak:
  assumes "td_setup frames t mols = Inr w" and "distinct (map fst mols)"
    and "(n, b) \<in> set (basis_fids (td_sig w))"
  shows "Max (set (map cmod b)) = 1"
proof -
  note w = td_setup_Inr [OF assms(1,2)]
  from assms(3) obtain fid c where m: "(n, (fid, c)) \<in> set mols" "b = projr (td_normalize fid)"
    by (auto simp: w(4))
  from w(8) m(1) obtain basis where basis: "td_normalize fid = Inr basis" by auto
  from td_normalize_Inr [OF basis] have nd: "fid \<noteq> []" "\<exists>z \<in> set fid. z \<noteq> 0"
    by simp_all
  from td_normalize_peak [OF nd] obtain basis' where
    p: "td_normalize fid = Inr basis'" "Max (set (map cmod basis')) = 1" by blast
  have "b = basis'" using m(2) p(1) by simp
  with p(2) show ?thesis by (simp only:)
qed

lemma sd_basis_peak:
  assumes "sd_setup frames freq mols = Inr w" and "distinct (map fst mols)"
    and "(n, b) \<in> set (basis_specs (sd_sig w))"
  shows "Max (set (map abs b)) = 1"
proof -
  note w = sd_setup_Inr [OF assms(1,2)]
  from assms(3) obtain peaks c where m: "(n, (peaks, c)) \<in> set mols"
      "b = projr (bind (spectrum (py_sum peaks)) sd_normalize)"
    by (auto simp: w(4))
  from w(8) m(1) obtain spec basis where
    sb: "spectrum (py_sum peaks) = Inr spec" "sd_normalize spec = Inr basis" by auto
  from sd_normalize_Inr [OF sb(2)] have nd: "\<exists>u \<in> set spec. u \<noteq> 0" by simp
  from sd_normalize_peak [OF sb(1) nd] obtain basis' where
    p: "sd_normalize spec = Inr basis'" "Max (set (map abs basis')) = 1" by blast
  have "b = basis'" using m(2) sb(1) p(1) by simp
  with p(2) show ?thesis by (simp only:)
qed

text \<open>
  C2. For a decayed signal that is not identically zero, the time-domain normaliser
  (divide by \<open>max(|fid|)\<close>) returns a basis with \<open>max |basis| = 1\<close>; for a magnitude spectrum
  that is not identically zero, the frequency-domain normaliser (divide by \<open>spec.max()\<close>)
  returns a basis with \<open>max |basis| = 1\<close>. Hence every basis that a completed setup has
  stored has peak magnitude 1. (Arithmetic is exact, so the peak is exactly 1.)
\<close>

theorem basis_peak_is_one:
  "(fid \<noteq> [] \<and> (\<exists>z \<in> set fid. z \<noteq> 0) \<longrightarrow>
      (\<exists>basis. td_normalize fid = Inr basis \<and> Max (set (map cmod basis)) = 1))
   \<and> (spectrum x = Inr spec \<and> (\<exists>u \<in> set spec. u \<noteq> 0) \<longrightarrow>
      (\<exists>basis. sd_normalize spec = Inr basis \<and> Max (set (map abs basis)) = 1))
   \<and> (td_setup frames t mols = Inr w \<and> distinct (map fst mols)
        \<and> (n, b) \<in> set (basis_fids (td_sig w)) \<longrightarrow> Max (set (map cmod b)) = 1)
   \<and> (sd_setup frames' freq mols' = Inr v \<and> distinct (map fst mols')
        \<and> (n', b') \<in> set (basis_specs (sd_sig v)) \<longrightarrow> Max (set (map abs b')) = 1)"
  using td_normalize_peak [of fid] sd_normalize_peak [of x spec]
    td_basis_peak [of frames t mols w n b] sd_basis_peak [of frames' freq mols' v n' b']
  by blast

theorem basis_peak_is_one_witness:
  "(\<exists>basis. td_normalize [1, 1 / 2] = Inr basis \<and> Max (set (map cmod basis)) = 1)
   \<and> spectrum (Array [1]) = Inr [1]
   \<and> (\<exists>basis. sd_normalize [1] = Inr basis \<and> Max (set (map abs basis)) = 1)
   \<and> td_setup 100 [0, 1 / 2000] [(''A'', ([1, 1 / 2], 5))] = Inr td_demo
   \<and> (''A'', [1, 1 / 2]) \<in> set (basis_fids (td_sig td_demo))
   \<and> Max (set (map cmod [1, 1 / 2])) = 1
   \<and> sd_setup 100 [- 400] [(''A'', ([[1]], 5))] = Inr sd_demo
   \<and> (''A'', [1]) \<in> set (basis_specs (sd_sig sd_demo))
   \<and> Max (set (map abs [1 :: real])) = 1"
proof -
  have sp: "spectrum (Array [1]) = Inr [1]"
    by (simp add: spectrum_def np_fft_def dft_def fftshift_def)
  have m1: "(''A'', [1, 1 / 2]) \<in> set (basis_fids (td_sig td_demo))"
    by (simp add: td_demo_def)
  have m2: "(''A'', [1]) \<in> set (basis_specs (sd_sig sd_demo))"
    by (simp add: sd_demo_def)
  from basis_peak_is_one [where fid = "[1, 1 / 2]" and x = "Array [1]" and spec = "[1]"
      and frames = 100 and t = "[0, 1 / 2000]" and mols = "[(''A'', ([1, 1 / 2], 5))]"
      and w = td_demo and n = "''A''" and b = "[1, 1 / 2]"
      and frames' = 100 and freq = "[- 400]" and mols' = "[(''A'', ([[1]], 5))]"
      and v = sd_demo and n' = "''A''" and b' = "[1]"]
    sp m1 m2 td_demo_setup sd_demo_setup
  show ?thesis by simp
qed

section \<open>The fitted signal and the composite signal\<close>

lemma td_script_fitted:
  assumes "td_script BW N T2 fr = Inr w"
  shows "td_fitted (td_sig w) = Inr (td_real_sum (td_sig w))"
proof -
  from assms obtain g where "td_setup fr (t_arr g) (td_molecules_src g) = Inr w"
    by (auto simp: td_script_def bind_eq_Inr)
  then show ?thesis
    by (rule td_fitted_is_real_sum) (simp add: td_molecules_src_def distinct_dict_literal)
qed

lemma sd_script_fitted:
  assumes "sd_script BW N T2 fr = Inr w"
  shows "sd_fitted (sd_sig w) = Inr (sd_real_sum (sd_sig w))"
proof -
  from assms obtain g where
    "sd_setup fr (np_linspace (- 400) 400 N) (sd_molecules_src g) = Inr w"
    by (auto simp: sd_script_def bind_eq_Inr)
  then show ?thesis
    by (rule sd_fitted_is_real_sum) (simp add: sd_molecules_src_def distinct_dict_literal)
qed

text \<open>
  C1. Whenever the setup of a basis-fitting script completes, the fitted signal that the
  last phase computes, the sum over the species of \<open>basis * concentration\<close>, is the very
  value \<open>real_sum\<close> that the setup computed as the sum of the real signals
  \<open>real = basis * concentration\<close>: same length, equal entry by entry. So the last phase
  draws on the red sum line what the second phase draws on the black one. This holds
  for every dict of species, in the time domain and in the spectral domain, and for the
  molecules of the two scripts with any globals.
\<close>

theorem fitted_equals_composite:
  "(td_setup frames t mols = Inr w \<and> distinct (map fst mols) \<longrightarrow>
       td_fitted (td_sig w) = Inr (td_real_sum (td_sig w))
     \<and> td_phase5 (td_sig w) a
         = Inr (a\<lparr>td_sum_red := (t, np_real (td_real_sum (td_sig w)))\<rparr>))
   \<and> (sd_setup frames' freq mols' = Inr v \<and> distinct (map fst mols') \<longrightarrow>
       sd_fitted (sd_sig v) = Inr (sd_real_sum (sd_sig v))
     \<and> sd_phase5 (sd_sig v) a' = Inr (a'\<lparr>sd_sum_red := (freq, sd_real_sum (sd_sig v))\<rparr>))
   \<and> (td_script BW N T2 fr = Inr ws \<longrightarrow>
       td_fitted (td_sig ws) = Inr (td_real_sum (td_sig ws)))
   \<and> (sd_script BW' N' T2' fr' = Inr vs \<longrightarrow>
       sd_fitted (sd_sig vs) = Inr (sd_real_sum (sd_sig vs)))"
proof -
  have 1: "td_fitted (td_sig w) = Inr (td_real_sum (td_sig w))
     \<and> td_phase5 (td_sig w) a
         = Inr (a\<lparr>td_sum_red := (t, np_real (td_real_sum (td_sig w)))\<rparr>)"
    if h: "td_setup frames t mols = Inr w" "distinct (map fst mols)"
    using td_fitted_is_real_sum [OF h] td_setup_Inr(2) [OF h] by (simp add: td_phase5_def)
  have 2: "sd_fitted (sd_sig v) = Inr (sd_real_sum (sd_sig v))
     \<and> sd_phase5 (sd_sig v) a' = Inr (a'\<lparr>sd_sum_red := (freq, sd_real_sum (sd_sig v))\<rparr>)"
    if h: "sd_setup frames' freq mols' = Inr v" "distinct (map fst mols')"
    using sd_fitted_is_real_sum [OF h] sd_setup_Inr(2) [OF h] by (simp add: sd_phase5_def)
  show ?thesis
    using 1 2 td_script_fitted [of BW N T2 fr ws] sd_script_fitted [of BW' N' T2' fr' vs]
    by blast
qed

theorem fitted_equals_composite_witness:
  "td_setup 100 [0, 1 / 2000] [(''A'', ([1, 1 / 2], 5))] = Inr td_demo
   \<and> td_fitted (td_sig td_demo) = Inr (Array [5, 5 / 2])
   \<and> td_real_sum (td_sig td_demo) = Array [5, 5 / 2]
   \<and> sd_setup 100 [- 400] [(''A'', ([[1]], 5))] = Inr sd_demo
   \<and> sd_fitted (sd_sig sd_demo) = Inr (Array [5])
   \<and> sd_real_sum (sd_sig sd_demo) = Array [5]
   \<and> td_fitted (td_sig (projr (td_script 2000 1 0.18 450)))
       = Inr (td_real_sum (td_sig (projr (td_script 2000 1 0.18 450))))
   \<and> sd_fitted (sd_sig (projr (sd_script 2000 1 0.15 450)))
       = Inr (sd_real_sum (sd_sig (projr (sd_script 2000 1 0.15 450))))"
proof -
  obtain ws where ws: "td_script 2000 1 0.18 450 = Inr ws"
    by (simp add: mk_globals_def time_axis_def decay_env_def np_div_def
        td_script_def td_setup_def td_molecules_src_def dict_literal_def dict_put_def
        multiplet_def zeros_like_def vmul_def vadd_def osc_def td_normalize_def np_max_def
        py_sum_def Let_def)
  obtain vs where vs: "sd_script 2000 1 0.15 450 = Inr vs"
    by (simp add: mk_globals_def time_axis_def decay_env_def np_div_def
        sd_script_def sd_setup_def sd_molecules_src_def dict_literal_def dict_put_def
        multiplet_def zeros_like_def vmul_def vadd_def osc_def sd_normalize_def np_max_def
        py_sum_def Let_def spectrum_def np_fft_def dft_def fftshift_def)
  have r: "td_real_sum (td_sig td_demo) = Array [5, 5 / 2]"
      "sd_real_sum (sd_sig sd_demo) = Array [5]"
    by (simp_all add: td_demo_def sd_demo_def)
  from fitted_equals_composite [where frames = 100 and t = "[0, 1 / 2000]"
      and mols = "[(''A'', ([1, 1 / 2], 5))]" and w = td_demo
      and frames' = 100 and freq = "[- 400]" and mols' = "[(''A'', ([[1]], 5))]"
      and v = sd_demo and BW = 2000 and N = 1 and ?T2.0 = "0.18" and fr = 450 and ws = ws
      and BW' = 2000 and N' = 1 and T2' = "0.15" and fr' = 450 and vs = vs]
    td_demo_setup sd_demo_setup ws vs r
  show ?thesis by simp
qed

section \<open>The loops of the update blocks\<close>

lemma artist_set_map_of:
  "artist_set d k f = Inr d' \<Longrightarrow> \<exists>a. map_of d k = Some a \<and> map_of d' = (map_of d)(k \<mapsto> f a)"
  by (auto simp: artist_set_def update_conv' split: option.splits)

lemma artist_set_keys:
  "artist_set d k f = Inr d' \<Longrightarrow> map fst d' = map fst d"
  by (auto simp: artist_set_def update_keys split: option.splits)
     (metis domI dom_map_of_conv_image_fst)

lemma artist_set_total:
  "k \<in> set (map fst d) \<Longrightarrow> \<exists>d'. artist_set d k f = Inr d'"
  by (cases "map_of d k") (auto simp: artist_set_def map_of_eq_None_iff)

lemma dict_get_total:
  "k \<in> set (map fst d) \<Longrightarrow> \<exists>v. dict_get d k = Inr v"
  by (cases "map_of d k") (auto simp: dict_get_def map_of_eq_None_iff)

lemma dict_get_Inr: "dict_get d k = Inr v \<longleftrightarrow> map_of d k = Some v"
  by (simp add: dict_get_def split: option.splits)

lemma map_of_nth_key:
  assumes "distinct (map fst m)" and "map fst d = map fst m" and "j < length m"
  shows "map_of d (fst (m ! j)) = Some (snd (d ! j))"
proof -
  have l: "j < length d" using assms(2,3) by (metis length_map)
  have "fst (d ! j) = fst (m ! j)" using assms(2) l by (metis nth_map assms(3))
  moreover have "distinct (map fst d)" using assms(1,2) by simp
  ultimately show ?thesis using l by (metis map_of_is_SomeI nth_mem prod.collapse)
qed

lemma distinct_keys_index:
  "distinct (map fst m) \<Longrightarrow> i < length m \<Longrightarrow> j < length m \<Longrightarrow> fst (m ! i) = fst (m ! j)
     \<Longrightarrow> i = j"
  by (metis length_map nth_eq_iff_index_eq nth_map)

lemma enumerate_key_inj:
  assumes "distinct (map fst m)" and "j < length m"
    and "y \<in> set (enumerate 0 m)" and "fst (snd y) = fst (m ! j)"
  shows "y = (j, m ! j)"
proof -
  obtain i z where y: "y = (i, z)" by (cases y)
  from assms(3) have i: "i < length m" "m ! i = z" by (auto simp: y in_set_enumerate_eq)
  from assms(4) have "fst (m ! i) = fst (m ! j)" by (simp add: y i)
  then have "i = j" using distinct_keys_index [OF assms(1) i(1) assms(2)] by simp
  then show ?thesis using i by (simp add: y)
qed

lemma enumerate_key_mem:
  assumes "(i, nm, d) \<in> set (enumerate 0 m)"
  shows "nm \<in> set (map fst m)"
proof -
  from assms have "i < length m" "m ! i = (nm, d)" by (auto simp: in_set_enumerate_eq)
  then have "(nm, d) \<in> set m" by (metis nth_mem)
  then show ?thesis by force
qed

lemma item_key_inj:
  assumes "distinct (map fst m)" and "j < length m" and "y \<in> set m" and "fst y = fst (m ! j)"
  shows "y = m ! j"
proof -
  from assms(3) obtain i where i: "i < length m" "m ! i = y" by (auto simp: in_set_conv_nth)
  then have "i = j" using distinct_keys_index [OF assms(1) i(1) assms(2)] assms(4) by simp
  then show ?thesis using i by simp
qed

lemma for_each_keyed:
  assumes loop: "for_each body xs a = Inr a'"
    and xin: "x \<in> set xs"
    and inj: "\<And>y. y \<in> set xs \<Longrightarrow> key y = key x \<Longrightarrow> y = x"
    and own: "\<And>u u'. body x u = Inr u' \<Longrightarrow> map_of (get u') (key x) = Some v"
    and other: "\<And>y u u'. y \<in> set xs \<Longrightarrow> body y u = Inr u' \<Longrightarrow> key y \<noteq> key x \<Longrightarrow>
                  map_of (get u') (key x) = map_of (get u) (key x)"
  shows "map_of (get a') (key x) = Some v"
proof (rule for_each_establish [where Q = "\<lambda>u. map_of (get u) (key x) = Some v", OF loop xin])
  fix u u' assume "body x u = Inr u'"
  then show "map_of (get u') (key x) = Some v" by (rule own)
next
  fix y u u' assume y: "y \<in> set xs" "y \<noteq> x" and q: "map_of (get u) (key x) = Some v"
    and b: "body y u = Inr u'"
  have "key y \<noteq> key x" using inj [OF y(1)] y(2) by blast
  from other [OF y(1) b this] q show "map_of (get u') (key x) = Some v" by simp
qed

lemma for_each_untouched:
  assumes loop: "for_each body xs a = Inr a'"
    and same: "\<And>y u u'. y \<in> set xs \<Longrightarrow> body y u = Inr u' \<Longrightarrow> map_of (get u') k = map_of (get u) k"
  shows "map_of (get a') k = map_of (get a) k"
proof (rule for_each_invariant [where I = "\<lambda>u. map_of (get u) k = map_of (get a) k", OF loop])
  show "map_of (get a) k = map_of (get a) k" by simp
next
  fix y u u' assume "y \<in> set xs" "map_of (get u) k = map_of (get a) k" "body y u = Inr u'"
  then show "map_of (get u') k = map_of (get a) k" using same [of y u u'] by simp
qed

subsection \<open>Time domain\<close>

lemma td_reveal_body_shown:
  assumes "td_reveal_body s k (i, nm, d) u = Inr u'" and "int i \<le> k"
  shows "\<exists>rf. map_of (real_fids s) nm = Some rf
           \<and> map_of (td_black_lines u')
               = (map_of (td_black_lines u))(nm \<mapsto> (td_t s, Array (map Re rf)))"
proof -
  obtain fid conc where d: "d = (fid, conc)" by (cases d)
  from assms obtain rf bl where
    rf: "dict_get (real_fids s) nm = Inr rf"
    and bl: "artist_set (td_black_lines u) nm (\<lambda>_. (td_t s, Array (map Re rf))) = Inr bl"
    and u': "td_black_lines u' = bl"
    by (auto simp: td_reveal_body_def d bind_eq_Inr Let_def)
  from artist_set_map_of [OF bl] rf u' show ?thesis
    by (auto simp: dict_get_Inr)
qed

lemma td_reveal_body_hidden:
  "td_reveal_body s k (i, nm, d) u = Inr u' \<Longrightarrow> \<not> int i \<le> k \<Longrightarrow> u' = u"
  by (cases d) (simp add: td_reveal_body_def)

lemma td_reveal_body_other:
  assumes "td_reveal_body s k (i, nm, d) u = Inr u'" and "nm' \<noteq> nm"
  shows "map_of (td_black_lines u') nm' = map_of (td_black_lines u) nm'"
proof (cases "int i \<le> k")
  case True
  from td_reveal_body_shown [OF assms(1) True] assms(2) show ?thesis by auto
next
  case False
  from td_reveal_body_hidden [OF assms(1) False] show ?thesis by simp
qed

lemma td_phase1_lines:
  assumes run: "td_phase1 s p a = Inr a'"
    and dist: "distinct (map fst (td_molecules s))"
    and keys: "map fst (real_fids s) = map fst (td_molecules s)"
    and j: "j < length (td_molecules s)"
  shows "map_of (td_black_lines a') (fst (td_molecules s ! j)) =
           (if int j \<le> reveal_k p (length (td_molecules s))
            then Some (td_t s, Array (map Re (snd (real_fids s ! j))))
            else map_of (td_black_lines a) (fst (td_molecules s ! j)))"
proof -
  define k where "k = reveal_k p (length (td_molecules s))"
  define m where "m = td_molecules s"
  define x where "x = (j, m ! j)"
  have loop: "for_each (td_reveal_body s k) (enumerate 0 m) a = Inr a'"
    using run by (simp add: td_phase1_def k_def m_def Let_def)
  have xin: "x \<in> set (enumerate 0 m)"
    using j by (simp add: x_def m_def in_set_enumerate_eq)
  have inj: "y = x" if "y \<in> set (enumerate 0 m)" "fst (snd y) = fst (snd x)" for y
    using enumerate_key_inj [of m j y] dist j that by (simp add: m_def x_def)
  have rfj: "map_of (real_fids s) (fst (m ! j)) = Some (snd (real_fids s ! j))"
    using map_of_nth_key [OF dist keys j] by (simp add: m_def)
  show ?thesis
  proof (cases "int j \<le> k")
    case True
    have "map_of (td_black_lines a') (fst (snd x))
            = Some (td_t s, Array (map Re (snd (real_fids s ! j))))"
    proof (rule for_each_keyed [where key = "\<lambda>y. fst (snd y)", OF loop xin inj])
      fix u u' assume "td_reveal_body s k x u = Inr u'"
      then have "td_reveal_body s k (j, fst (m ! j), snd (m ! j)) u = Inr u'"
        by (simp add: x_def)
      from td_reveal_body_shown [OF this True] rfj
      show "map_of (td_black_lines u') (fst (snd x))
              = Some (td_t s, Array (map Re (snd (real_fids s ! j))))"
        by (auto simp: x_def)
    next
      fix y u u' assume "y \<in> set (enumerate 0 m)" and b: "td_reveal_body s k y u = Inr u'"
        and ne: "fst (snd y) \<noteq> fst (snd x)"
      obtain i n d where yy: "y = (i, n, d)" by (cases y) auto
      show "map_of (td_black_lines u') (fst (snd x)) = map_of (td_black_lines u) (fst (snd x))"
        using td_reveal_body_other [of s k i n d u u' "fst (snd x)"] b ne by (simp add: yy)
    qed simp_all
    with True show ?thesis by (simp add: k_def m_def x_def)
  next
    case False
    have "map_of (td_black_lines a') (fst (m ! j)) = map_of (td_black_lines a) (fst (m ! j))"
    proof (rule for_each_untouched [OF loop])
      fix y u u' assume y: "y \<in> set (enumerate 0 m)" and b: "td_reveal_body s k y u = Inr u'"
      obtain i n d where yy: "y = (i, n, d)" by (cases y) auto
      show "map_of (td_black_lines u') (fst (m ! j)) = map_of (td_black_lines u) (fst (m ! j))"
      proof (cases "n = fst (m ! j)")
        case True
        then have "y = x" using inj [OF y] by (simp add: yy x_def)
        then have "i = j" by (simp add: yy x_def)
        then have "u' = u" using td_reveal_body_hidden [of s k i n d u u'] b False
          by (simp add: yy)
        then show ?thesis by simp
      next
        case ne: False
        then show ?thesis
          using td_reveal_body_other [of s k i n d u u' "fst (m ! j)"] b by (simp add: yy)
      qed
    qed
    with False show ?thesis by (simp add: k_def m_def)
  qed
qed

lemma td_reveal_body_keys:
  assumes "td_reveal_body s k y u = Inr u'"
  shows "map fst (td_black_lines u') = map fst (td_black_lines u)
       \<and> map fst (td_labels_real u') = map fst (td_labels_real u)
       \<and> map fst (td_red_lines u') = map fst (td_red_lines u)
       \<and> map fst (td_labels_basis u') = map fst (td_labels_basis u)"
proof -
  obtain i nm fid conc where y: "y = (i, nm, (fid, conc))" by (cases y) auto
  show ?thesis
  proof (cases "int i \<le> k")
    case True
    with assms obtain rf bl lr lr' where
      "artist_set (td_black_lines u) nm (\<lambda>_. (td_t s, Array (map Re rf))) = Inr bl"
      "artist_set (td_labels_real u) nm (\<lambda>l. l\<lparr>pos := (0.25, 18 - 4 * real i)\<rparr>) = Inr lr"
      "artist_set lr nm (\<lambda>l. l\<lparr>caption := RealText nm conc\<rparr>) = Inr lr'"
      "u' = u\<lparr>td_black_lines := bl, td_labels_real := lr'\<rparr>"
      by (auto simp: td_reveal_body_def y bind_eq_Inr Let_def)
    then show ?thesis by (auto dest!: artist_set_keys)
  next
    case False
    with assms show ?thesis by (simp add: td_reveal_body_def y)
  qed
qed

lemma td_reveal_body_total:
  assumes "nm \<in> set (map fst (real_fids s))" and "nm \<in> set (map fst (td_black_lines u))"
    and "nm \<in> set (map fst (td_labels_real u))"
  shows "\<exists>u'. td_reveal_body s k (i, nm, d) u = Inr u'"
proof -
  obtain fid conc where d: "d = (fid, conc)" by (cases d)
  from dict_get_total [OF assms(1)] obtain rf where rf: "dict_get (real_fids s) nm = Inr rf"
    by blast
  from artist_set_total [OF assms(2)] obtain bl where
    bl: "artist_set (td_black_lines u) nm (\<lambda>_. (td_t s, Array (map Re rf))) = Inr bl" by blast
  from artist_set_total [OF assms(3)] obtain lr where
    lr: "artist_set (td_labels_real u) nm (\<lambda>l. l\<lparr>pos := (0.25, 18 - 4 * real i)\<rparr>) = Inr lr"
    by blast
  have "nm \<in> set (map fst lr)" using artist_set_keys [OF lr] assms(3) by simp
  from artist_set_total [OF this] obtain lr' where
    "artist_set lr nm (\<lambda>l. l\<lparr>caption := RealText nm conc\<rparr>) = Inr lr'" by blast
  with rf bl lr show ?thesis by (simp add: td_reveal_body_def d Let_def)
qed

lemma td_phase1_total:
  assumes "td_wf w"
  shows "\<exists>a'. td_phase1 (td_sig w) p (td_art w) = Inr a'"
proof -
  let ?s = "td_sig w"
  let ?names = "map fst (td_molecules ?s)"
  let ?I = "\<lambda>u. map fst (td_black_lines u) = ?names \<and> map fst (td_labels_real u) = ?names"
  have wf: "map fst (real_fids ?s) = ?names" "?I (td_art w)"
    using assms by (simp_all add: td_wf_def Let_def)
  have "\<exists>a'. for_each (td_reveal_body ?s (reveal_k p (length (td_molecules ?s))))
                (enumerate 0 (td_molecules ?s)) (td_art w) = Inr a' \<and> ?I a'"
  proof (rule for_each_total [where I = ?I, OF wf(2)])
    fix y and u :: td_artists
    assume y: "y \<in> set (enumerate 0 (td_molecules ?s))" and i: "?I u"
    obtain i nm d where yy: "y = (i, nm, d)" by (cases y) auto
    from y have nm: "nm \<in> set ?names" unfolding yy by (rule enumerate_key_mem)
    have m1: "nm \<in> set (map fst (real_fids ?s))" using nm wf(1) by simp
    have m2: "nm \<in> set (map fst (td_black_lines u))" using nm i by simp
    have m3: "nm \<in> set (map fst (td_labels_real u))" using nm i by simp
    from td_reveal_body_total [OF m1 m2 m3] obtain u' where
      u': "td_reveal_body ?s (reveal_k p (length (td_molecules ?s))) (i, nm, d) u = Inr u'"
      by blast
    from td_reveal_body_keys [OF u'] i have "?I u'" by simp
    with u' show "\<exists>u'. td_reveal_body ?s (reveal_k p (length (td_molecules ?s))) y u = Inr u'
                    \<and> ?I u'"
      by (auto simp: yy)
  qed
  then show ?thesis by (auto simp: td_phase1_def Let_def)
qed

lemma td_scale_body_line:
  assumes "td_scale_body s sc (i, nm, (fid, c)) u = Inr u'"
  shows "\<exists>b. map_of (basis_fids s) nm = Some b
           \<and> map_of (td_red_lines u')
               = (map_of (td_red_lines u))
                   (nm \<mapsto> (td_t s, Array (map (\<lambda>z. Re (z * of_real c * of_real sc)) b)))"
proof -
  from assms obtain b rl where
    b: "dict_get (basis_fids s) nm = Inr b"
    and rl: "artist_set (td_red_lines u) nm
               (\<lambda>_. (td_t s, Array (map (\<lambda>z. Re (z * of_real c * of_real sc)) b))) = Inr rl"
    and u': "td_red_lines u' = rl"
    by (auto simp: td_scale_body_def bind_eq_Inr Let_def)
  from artist_set_map_of [OF rl] b u' show ?thesis
    by (auto simp: dict_get_Inr)
qed

lemma td_phase4_lines:
  assumes run: "td_phase4 s p a = Inr a'"
    and dist: "distinct (map fst (td_molecules s))"
    and keys: "map fst (basis_fids s) = map fst (td_molecules s)"
    and j: "j < length (td_molecules s)"
  shows "map_of (td_red_lines a') (fst (td_molecules s ! j)) =
           Some (td_t s, Array (map (\<lambda>z. Re (z * of_real (snd (snd (td_molecules s ! j)))
                                            * of_real (scale_s p)))
                                   (snd (basis_fids s ! j))))"
proof -
  define m where "m = td_molecules s"
  define x where "x = (j, m ! j)"
  obtain nm fid c where mj: "m ! j = (nm, (fid, c))" by (cases "m ! j") auto
  have loop: "for_each (td_scale_body s (scale_s p)) (enumerate 0 m) a = Inr a'"
    using run by (simp add: td_phase4_def m_def Let_def)
  have xin: "x \<in> set (enumerate 0 m)"
    using j by (simp add: x_def m_def in_set_enumerate_eq)
  have inj: "y = x" if "y \<in> set (enumerate 0 m)" "fst (snd y) = fst (snd x)" for y
    using enumerate_key_inj [of m j y] dist j that by (simp add: m_def x_def)
  have bj: "map_of (basis_fids s) nm = Some (snd (basis_fids s ! j))"
    using map_of_nth_key [OF dist keys j] by (simp add: m_def [symmetric] mj)
  have "map_of (td_red_lines a') (fst (snd x)) =
          Some (td_t s, Array (map (\<lambda>z. Re (z * of_real c * of_real (scale_s p)))
                                  (snd (basis_fids s ! j))))"
  proof (rule for_each_keyed [where key = "\<lambda>y. fst (snd y)", OF loop xin inj])
    fix u u' assume "td_scale_body s (scale_s p) x u = Inr u'"
    then have "td_scale_body s (scale_s p) (j, nm, (fid, c)) u = Inr u'"
      by (simp add: x_def mj)
    from td_scale_body_line [OF this] bj
    show "map_of (td_red_lines u') (fst (snd x)) =
            Some (td_t s, Array (map (\<lambda>z. Re (z * of_real c * of_real (scale_s p)))
                                    (snd (basis_fids s ! j))))"
      by (auto simp: x_def mj)
  next
    fix y u u' assume "y \<in> set (enumerate 0 m)" and b: "td_scale_body s (scale_s p) y u = Inr u'"
      and ne: "fst (snd y) \<noteq> fst (snd x)"
    obtain i n f' c' where yy: "y = (i, n, (f', c'))" by (cases y) auto
    from td_scale_body_line [of s "scale_s p" i n f' c' u u'] b ne
    show "map_of (td_red_lines u') (fst (snd x)) = map_of (td_red_lines u) (fst (snd x))"
      by (auto simp: yy)
  qed simp_all
  then show ?thesis by (simp add: x_def m_def [symmetric] mj)
qed

lemma td_scale_body_total:
  assumes "nm \<in> set (map fst (basis_fids s))" and "nm \<in> set (map fst (td_red_lines u))"
    and "nm \<in> set (map fst (td_labels_basis u))"
  shows "\<exists>u'. td_scale_body s sc (i, nm, d) u = Inr u'
           \<and> map fst (td_red_lines u') = map fst (td_red_lines u)
           \<and> map fst (td_labels_basis u') = map fst (td_labels_basis u)"
proof -
  obtain fid conc where d: "d = (fid, conc)" by (cases d)
  from dict_get_total [OF assms(1)] obtain b where b: "dict_get (basis_fids s) nm = Inr b"
    by blast
  from artist_set_total [OF assms(2)] obtain rl where
    rl: "artist_set (td_red_lines u) nm
           (\<lambda>_. (td_t s, Array (map (\<lambda>z. Re (z * of_real conc * of_real sc)) b))) = Inr rl"
    by blast
  from artist_set_total [OF assms(3)] obtain lb where
    lb: "artist_set (td_labels_basis u) nm (\<lambda>l. l\<lparr>pos := (0.25, 18 - 4 * real i)\<rparr>) = Inr lb"
    by blast
  have "nm \<in> set (map fst lb)" using artist_set_keys [OF lb] assms(3) by simp
  from artist_set_total [OF this] obtain lb' where
    lb': "artist_set lb nm (\<lambda>l. l\<lparr>caption := ConcText conc\<rparr>) = Inr lb'" by blast
  have "td_scale_body s sc (i, nm, d) u = Inr (u\<lparr>td_red_lines := rl, td_labels_basis := lb'\<rparr>)"
    using b rl lb lb' by (simp add: td_scale_body_def d Let_def)
  moreover have "map fst rl = map fst (td_red_lines u)" by (rule artist_set_keys [OF rl])
  moreover have "map fst lb' = map fst (td_labels_basis u)"
    using artist_set_keys [OF lb] artist_set_keys [OF lb'] by simp
  ultimately show ?thesis by simp
qed

lemma td_phase4_total:
  assumes "td_wf w"
  shows "\<exists>a'. td_phase4 (td_sig w) p (td_art w) = Inr a'"
proof -
  let ?s = "td_sig w"
  let ?names = "map fst (td_molecules ?s)"
  let ?I = "\<lambda>u. map fst (td_red_lines u) = ?names \<and> map fst (td_labels_basis u) = ?names"
  have wf: "map fst (basis_fids ?s) = ?names" "?I (td_art w)"
    using assms by (simp_all add: td_wf_def Let_def)
  have "\<exists>a'. for_each (td_scale_body ?s (scale_s p)) (enumerate 0 (td_molecules ?s)) (td_art w)
                = Inr a' \<and> ?I a'"
  proof (rule for_each_total [where I = ?I, OF wf(2)])
    fix y and u :: td_artists
    assume y: "y \<in> set (enumerate 0 (td_molecules ?s))" and i: "?I u"
    obtain i nm d where yy: "y = (i, nm, d)" by (cases y) auto
    from y have nm: "nm \<in> set ?names" unfolding yy by (rule enumerate_key_mem)
    have m1: "nm \<in> set (map fst (basis_fids ?s))" using nm wf(1) by simp
    have m2: "nm \<in> set (map fst (td_red_lines u))" using nm i by simp
    have m3: "nm \<in> set (map fst (td_labels_basis u))" using nm i by simp
    from td_scale_body_total [OF m1 m2 m3, of "scale_s p" i d] i
    show "\<exists>u'. td_scale_body ?s (scale_s p) y u = Inr u' \<and> ?I u'"
      by (auto simp: yy)
  qed
  then show ?thesis by (auto simp: td_phase4_def Let_def)
qed

subsection \<open>Spectral domain\<close>

lemma sd_reveal_body_shown:
  assumes "sd_reveal_body s k (i, nm, d) u = Inr u'" and "int i \<le> k"
  shows "\<exists>y. map_of (real_specs s) nm = Some y
           \<and> map_of (sd_black_lines u')
               = (map_of (sd_black_lines u))(nm \<mapsto> (sd_freq s, Array y))"
proof -
  obtain peaks conc where d: "d = (peaks, conc)" by (cases d)
  from assms obtain y bl where
    y: "dict_get (real_specs s) nm = Inr y"
    and bl: "artist_set (sd_black_lines u) nm (\<lambda>_. (sd_freq s, Array y)) = Inr bl"
    and u': "sd_black_lines u' = bl"
    by (auto simp: sd_reveal_body_def d bind_eq_Inr Let_def)
  from artist_set_map_of [OF bl] y u' show ?thesis
    by (auto simp: dict_get_Inr)
qed

lemma sd_reveal_body_hidden:
  "sd_reveal_body s k (i, nm, d) u = Inr u' \<Longrightarrow> \<not> int i \<le> k \<Longrightarrow> u' = u"
  by (cases d) (simp add: sd_reveal_body_def)

lemma sd_reveal_body_other:
  assumes "sd_reveal_body s k (i, nm, d) u = Inr u'" and "nm' \<noteq> nm"
  shows "map_of (sd_black_lines u') nm' = map_of (sd_black_lines u) nm'"
proof (cases "int i \<le> k")
  case True
  from sd_reveal_body_shown [OF assms(1) True] assms(2) show ?thesis by auto
next
  case False
  from sd_reveal_body_hidden [OF assms(1) False] show ?thesis by simp
qed

lemma sd_phase1_lines:
  assumes run: "sd_phase1 s p a = Inr a'"
    and dist: "distinct (map fst (sd_molecules s))"
    and keys: "map fst (real_specs s) = map fst (sd_molecules s)"
    and j: "j < length (sd_molecules s)"
  shows "map_of (sd_black_lines a') (fst (sd_molecules s ! j)) =
           (if int j \<le> reveal_k p (length (sd_molecules s))
            then Some (sd_freq s, Array (snd (real_specs s ! j)))
            else map_of (sd_black_lines a) (fst (sd_molecules s ! j)))"
proof -
  define k where "k = reveal_k p (length (sd_molecules s))"
  define m where "m = sd_molecules s"
  define x where "x = (j, m ! j)"
  have loop: "for_each (sd_reveal_body s k) (enumerate 0 m) a = Inr a'"
    using run by (simp add: sd_phase1_def k_def m_def Let_def)
  have xin: "x \<in> set (enumerate 0 m)"
    using j by (simp add: x_def m_def in_set_enumerate_eq)
  have inj: "y = x" if "y \<in> set (enumerate 0 m)" "fst (snd y) = fst (snd x)" for y
    using enumerate_key_inj [of m j y] dist j that by (simp add: m_def x_def)
  have rfj: "map_of (real_specs s) (fst (m ! j)) = Some (snd (real_specs s ! j))"
    using map_of_nth_key [OF dist keys j] by (simp add: m_def)
  show ?thesis
  proof (cases "int j \<le> k")
    case True
    have "map_of (sd_black_lines a') (fst (snd x))
            = Some (sd_freq s, Array (snd (real_specs s ! j)))"
    proof (rule for_each_keyed [where key = "\<lambda>y. fst (snd y)", OF loop xin inj])
      fix u u' assume "sd_reveal_body s k x u = Inr u'"
      then have "sd_reveal_body s k (j, fst (m ! j), snd (m ! j)) u = Inr u'"
        by (simp add: x_def)
      from sd_reveal_body_shown [OF this True] rfj
      show "map_of (sd_black_lines u') (fst (snd x))
              = Some (sd_freq s, Array (snd (real_specs s ! j)))"
        by (auto simp: x_def)
    next
      fix y u u' assume "y \<in> set (enumerate 0 m)" and b: "sd_reveal_body s k y u = Inr u'"
        and ne: "fst (snd y) \<noteq> fst (snd x)"
      obtain i n d where yy: "y = (i, n, d)" by (cases y) auto
      show "map_of (sd_black_lines u') (fst (snd x)) = map_of (sd_black_lines u) (fst (snd x))"
        using sd_reveal_body_other [of s k i n d u u' "fst (snd x)"] b ne by (simp add: yy)
    qed simp_all
    with True show ?thesis by (simp add: k_def m_def x_def)
  next
    case False
    have "map_of (sd_black_lines a') (fst (m ! j)) = map_of (sd_black_lines a) (fst (m ! j))"
    proof (rule for_each_untouched [OF loop])
      fix y u u' assume y: "y \<in> set (enumerate 0 m)" and b: "sd_reveal_body s k y u = Inr u'"
      obtain i n d where yy: "y = (i, n, d)" by (cases y) auto
      show "map_of (sd_black_lines u') (fst (m ! j)) = map_of (sd_black_lines u) (fst (m ! j))"
      proof (cases "n = fst (m ! j)")
        case True
        then have "y = x" using inj [OF y] by (simp add: yy x_def)
        then have "i = j" by (simp add: yy x_def)
        then have "u' = u" using sd_reveal_body_hidden [of s k i n d u u'] b False
          by (simp add: yy)
        then show ?thesis by simp
      next
        case ne: False
        then show ?thesis
          using sd_reveal_body_other [of s k i n d u u' "fst (m ! j)"] b by (simp add: yy)
      qed
    qed
    with False show ?thesis by (simp add: k_def m_def)
  qed
qed

lemma sd_scale_body_line:
  assumes "sd_scale_body s sc (nm, (peaks, c)) u = Inr u'"
  shows "\<exists>b. map_of (basis_specs s) nm = Some b
           \<and> map_of (sd_red_lines u')
               = (map_of (sd_red_lines u))
                   (nm \<mapsto> (sd_freq s, Array (map (\<lambda>x. x * c * sc) b)))"
proof -
  from assms obtain b rl where
    b: "dict_get (basis_specs s) nm = Inr b"
    and rl: "artist_set (sd_red_lines u) nm
               (\<lambda>_. (sd_freq s, Array (map (\<lambda>x. x * c * sc) b))) = Inr rl"
    and u': "sd_red_lines u' = rl"
    by (auto simp: sd_scale_body_def bind_eq_Inr Let_def)
  from artist_set_map_of [OF rl] b u' show ?thesis
    by (auto simp: dict_get_Inr)
qed

lemma sd_phase4_lines:
  assumes run: "sd_phase4 s p a = Inr a'"
    and dist: "distinct (map fst (sd_molecules s))"
    and keys: "map fst (basis_specs s) = map fst (sd_molecules s)"
    and j: "j < length (sd_molecules s)"
  shows "map_of (sd_red_lines a') (fst (sd_molecules s ! j)) =
           Some (sd_freq s, Array (map (\<lambda>x. x * snd (snd (sd_molecules s ! j)) * scale_s p)
                                      (snd (basis_specs s ! j))))"
proof -
  define m where "m = sd_molecules s"
  define x where "x = m ! j"
  obtain nm peaks c where mj: "m ! j = (nm, (peaks, c))" by (cases "m ! j") auto
  have loop: "for_each (sd_scale_body s (scale_s p)) m a = Inr a'"
    using run by (simp add: sd_phase4_def m_def Let_def)
  have xin: "x \<in> set m" using j by (simp add: x_def m_def)
  have inj: "y = x" if "y \<in> set m" "fst y = fst x" for y
    using item_key_inj [of m j y] dist j that by (simp add: m_def x_def)
  have bj: "map_of (basis_specs s) nm = Some (snd (basis_specs s ! j))"
    using map_of_nth_key [OF dist keys j] by (simp add: m_def [symmetric] mj)
  have "map_of (sd_red_lines a') (fst x) =
          Some (sd_freq s, Array (map (\<lambda>x. x * c * scale_s p) (snd (basis_specs s ! j))))"
  proof (rule for_each_keyed [where key = fst, OF loop xin inj])
    fix u u' assume "sd_scale_body s (scale_s p) x u = Inr u'"
    then have "sd_scale_body s (scale_s p) (nm, (peaks, c)) u = Inr u'"
      by (simp add: x_def mj)
    from sd_scale_body_line [OF this] bj
    show "map_of (sd_red_lines u') (fst x) =
            Some (sd_freq s, Array (map (\<lambda>x. x * c * scale_s p) (snd (basis_specs s ! j))))"
      by (auto simp: x_def mj)
  next
    fix y u u' assume "y \<in> set m" and b: "sd_scale_body s (scale_s p) y u = Inr u'"
      and ne: "fst y \<noteq> fst x"
    obtain n p' c' where yy: "y = (n, (p', c'))" by (cases y) auto
    from sd_scale_body_line [of s "scale_s p" n p' c' u u'] b ne
    show "map_of (sd_red_lines u') (fst x) = map_of (sd_red_lines u) (fst x)"
      by (auto simp: yy)
  qed simp_all
  then show ?thesis by (simp add: x_def m_def [symmetric] mj)
qed

section \<open>Rounding to double precision\<close>

lemma rne_bounds: "\<lfloor>x\<rfloor> \<le> rne x \<and> rne x \<le> \<lfloor>x\<rfloor> + 1"
  by (simp add: rne_def Let_def)

lemma rne_of_int [simp]: "rne (of_int n) = n"
  by (simp add: rne_def)

lemma rne_mono: "x \<le> y \<Longrightarrow> rne x \<le> rne y"
proof -
  assume xy: "x \<le> y"
  have fl: "\<lfloor>x\<rfloor> \<le> \<lfloor>y\<rfloor>" using xy by (rule floor_mono)
  show ?thesis
  proof (cases "\<lfloor>x\<rfloor> = \<lfloor>y\<rfloor>")
    case True
    then have "x - of_int \<lfloor>x\<rfloor> \<le> y - of_int \<lfloor>y\<rfloor>" using xy by simp
    then show ?thesis using True by (auto simp: rne_def Let_def)
  next
    case False
    with fl have "\<lfloor>x\<rfloor> + 1 \<le> \<lfloor>y\<rfloor>" by simp
    with rne_bounds [of x] rne_bounds [of y] show ?thesis by linarith
  qed
qed

lemma round64_zero [simp]: "round64 0 = 0"
  by (simp add: round64_def)

lemma pow52: "(2::real) ^ 52 = 2 powr 52" and pow53: "(2::real) ^ 53 = 2 powr 53"
  by (simp_all add: powr_numeral)

lemma round64_pos_eq:
  "0 < x \<Longrightarrow>
     round64 x = of_int (rne (x / 2 powr (of_int (\<lfloor>log 2 x\<rfloor> - 52))))
                   * 2 powr (of_int (\<lfloor>log 2 x\<rfloor> - 52))"
  by (simp add: round64_def Let_def)

lemma round64_pos_bounds:
  assumes "0 < x"
  shows "2 powr (of_int \<lfloor>log 2 x\<rfloor>) \<le> round64 x"
    and "round64 x \<le> 2 powr (of_int (\<lfloor>log 2 x\<rfloor> + 1))"
proof -
  define E where "E = \<lfloor>log 2 x\<rfloor>"
  define u :: real where "u = 2 powr (of_int (E - 52))"
  have up: "0 < u" by (simp add: u_def)
  have b: "2 powr (of_int E) \<le> x" "x < 2 powr (of_int (E + 1))"
    using floor_log_eq_powr_iff [of x 2 E] assms by (simp_all add: E_def)
  have u52: "u * 2 ^ 52 = 2 powr (of_int E)"
  proof -
    have "u * 2 ^ 52 = 2 powr (of_int (E - 52)) * 2 powr 52" unfolding u_def pow52 ..
    also have "\<dots> = 2 powr (of_int (E - 52) + 52)" by (simp only: powr_add)
    also have "of_int (E - 52) + (52::real) = of_int E" by simp
    finally show ?thesis .
  qed
  have u53: "u * 2 ^ 53 = 2 powr (of_int (E + 1))"
  proof -
    have "u * 2 ^ 53 = 2 powr (of_int (E - 52)) * 2 powr 53" unfolding u_def pow53 ..
    also have "\<dots> = 2 powr (of_int (E - 52) + 53)" by (simp only: powr_add)
    also have "of_int (E - 52) + (53::real) = of_int (E + 1)" by simp
    finally show ?thesis .
  qed
  have lo: "2 ^ 52 \<le> x / u"
  proof -
    have "u * 2 ^ 52 \<le> x" using b(1) by (simp only: u52)
    then show ?thesis using up by (simp only: pos_le_divide_eq mult.commute [of _ u])
  qed
  have hi: "x / u \<le> 2 ^ 53"
  proof -
    have "x \<le> u * 2 ^ 53" using b(2) by (simp only: u53 less_imp_le)
    then show ?thesis using up by (simp only: pos_divide_le_eq mult.commute [of _ u])
  qed
  have i52: "real_of_int (2 ^ 52) = 2 ^ 52" and i53: "real_of_int (2 ^ 53) = 2 ^ 53" by simp_all
  have "rne (of_int (2 ^ 52)) \<le> rne (x / u)" using lo by (intro rne_mono) (simp only: i52)
  then have rlo: "(2::int) ^ 52 \<le> rne (x / u)" by (simp only: rne_of_int)
  have "rne (x / u) \<le> rne (of_int (2 ^ 53))" using hi by (intro rne_mono) (simp only: i53)
  then have rhi: "rne (x / u) \<le> (2::int) ^ 53" by (simp only: rne_of_int)
  have r: "round64 x = of_int (rne (x / u)) * u"
    using round64_pos_eq [OF assms] by (simp only: u_def E_def)
  have "real_of_int (2 ^ 52) \<le> of_int (rne (x / u))" using rlo by (simp only: of_int_le_iff)
  then have "(2::real) ^ 52 \<le> of_int (rne (x / u))" by (simp only: i52)
  then have "2 ^ 52 * u \<le> of_int (rne (x / u)) * u" using up by (intro mult_right_mono) simp_all
  then have "u * 2 ^ 52 \<le> round64 x" by (simp only: r mult.commute [of u])
  then show "2 powr (of_int \<lfloor>log 2 x\<rfloor>) \<le> round64 x" by (simp only: u52 E_def)
  have "of_int (rne (x / u)) \<le> real_of_int (2 ^ 53)" using rhi by (simp only: of_int_le_iff)
  then have "of_int (rne (x / u)) \<le> (2::real) ^ 53" by (simp only: i53)
  then have "of_int (rne (x / u)) * u \<le> 2 ^ 53 * u" using up by (intro mult_right_mono) simp_all
  then have "round64 x \<le> u * 2 ^ 53" by (simp only: r mult.commute [of u])
  then show "round64 x \<le> 2 powr (of_int (\<lfloor>log 2 x\<rfloor> + 1))" by (simp only: u53 E_def)
qed

lemma round64_pos: "0 < x \<Longrightarrow> 0 < round64 x"
proof -
  assume "0 < x"
  from round64_pos_bounds(1) [OF this] have "2 powr (of_int \<lfloor>log 2 x\<rfloor>) \<le> round64 x" .
  moreover have "(0::real) < 2 powr (of_int \<lfloor>log 2 x\<rfloor>)" by simp
  ultimately show ?thesis by linarith
qed

lemma round64_mono_pos:
  assumes "0 < x" and "x \<le> y"
  shows "round64 x \<le> round64 y"
proof -
  have y: "0 < y" using assms by simp
  have E: "\<lfloor>log 2 x\<rfloor> \<le> \<lfloor>log 2 y\<rfloor>"
    using assms by (intro floor_mono) simp
  show ?thesis
  proof (cases "\<lfloor>log 2 x\<rfloor> = \<lfloor>log 2 y\<rfloor>")
    case True
    define u :: real where "u = 2 powr (of_int (\<lfloor>log 2 x\<rfloor> - 52))"
    have up: "0 < u" by (simp add: u_def)
    have "x / u \<le> y / u" using assms(2) up by (simp add: divide_right_mono)
    then have "rne (x / u) \<le> rne (y / u)" by (rule rne_mono)
    then have "of_int (rne (x / u)) * u \<le> of_int (rne (y / u)) * u"
      using up by (simp add: mult_right_mono)
    then show ?thesis using assms(1) y True by (simp add: round64_def Let_def u_def)
  next
    case False
    with E have "\<lfloor>log 2 x\<rfloor> + 1 \<le> \<lfloor>log 2 y\<rfloor>" by simp
    then have "(2::real) powr (of_int (\<lfloor>log 2 x\<rfloor> + 1)) \<le> 2 powr (of_int \<lfloor>log 2 y\<rfloor>)"
      by (intro powr_mono) simp_all
    with round64_pos_bounds(2) [OF assms(1)] round64_pos_bounds(1) [OF y]
    show ?thesis by linarith
  qed
qed

lemma round64_mono_nonneg:
  assumes "0 \<le> x" and "x \<le> y"
  shows "round64 x \<le> round64 y"
proof (cases "x = 0")
  case True
  show ?thesis
  proof (cases "y = 0")
    case True
    with \<open>x = 0\<close> show ?thesis by simp
  next
    case False
    with assms True have "0 < y" by simp
    from round64_pos [OF this] True show ?thesis by simp
  qed
next
  case False
  with assms(1) have "0 < x" by simp
  then show ?thesis using assms(2) by (rule round64_mono_pos)
qed

lemma round64_nonneg: "0 \<le> x \<Longrightarrow> 0 \<le> round64 x"
  using round64_mono_nonneg [of 0 x] by simp

lemma round64_eval:
  assumes "rne (x * 2 ^ k) = m" and "2 ^ 52 \<le> x * 2 ^ k" and "x * 2 ^ k < 2 ^ 53"
  shows "round64 x = of_int m / 2 ^ k"
proof -
  have k: "(0::real) < 2 ^ k" by simp
  have x: "0 < x"
  proof (rule ccontr)
    assume "\<not> 0 < x"
    then have "x * 2 ^ k \<le> 0" using k by (simp add: mult_le_0_iff)
    moreover have "(0::real) < 2 ^ 52" by simp
    ultimately show False using assms(2) by linarith
  qed
  have u: "(2::real) powr (of_int (- int k)) = 1 / 2 ^ k"
  proof -
    have "(2::real) powr (of_int (- int k)) = 2 powr (- real k)" by simp
    also have "\<dots> = inverse (2 powr (real k))" by (simp only: powr_minus)
    also have "\<dots> = 1 / 2 ^ k" by (simp add: powr_realpow inverse_eq_divide)
    finally show ?thesis .
  qed
  have p: "(2::real) powr (of_int (52 - int k)) = 2 ^ 52 / 2 ^ k"
  proof -
    have "of_int (52 - int k) = (52::real) + of_int (- int k)" by simp
    then have "(2::real) powr (of_int (52 - int k)) = 2 powr 52 * 2 powr (of_int (- int k))"
      by (simp only: powr_add)
    then show ?thesis by (simp only: u pow52 [symmetric] times_divide_eq_right mult_1_right)
  qed
  have q: "(2::real) powr (of_int (52 - int k + 1)) = 2 ^ 53 / 2 ^ k"
  proof -
    have "of_int (52 - int k + 1) = (53::real) + of_int (- int k)" by simp
    then have "(2::real) powr (of_int (52 - int k + 1)) = 2 powr 53 * 2 powr (of_int (- int k))"
      by (simp only: powr_add)
    then show ?thesis by (simp only: u pow53 [symmetric] times_divide_eq_right mult_1_right)
  qed
  have "2 ^ 52 / 2 ^ k \<le> x" using assms(2) k by (simp only: pos_divide_le_eq)
  then have lo: "2 powr (of_int (52 - int k)) \<le> x" by (simp only: p)
  have "x < 2 ^ 53 / 2 ^ k" using assms(3) k by (simp only: pos_less_divide_eq)
  then have hi: "x < 2 powr (of_int (52 - int k + 1))" by (simp only: q)
  have E: "\<lfloor>log 2 x\<rfloor> = 52 - int k"
    using floor_log_eq_powr_iff [of x 2 "52 - int k"] x lo hi by simp
  have E': "\<lfloor>log 2 x\<rfloor> - 52 = - int k" by (simp add: E)
  have "round64 x = of_int (rne (x / (1 / 2 ^ k))) * (1 / 2 ^ k)"
    using round64_pos_eq [OF x] by (simp only: E' u)
  then show ?thesis using assms(1) by simp
qed

section \<open>Revealing the components\<close>

lemma py_int_mono: "x \<le> y \<Longrightarrow> py_int x \<le> py_int y"
proof -
  assume xy: "x \<le> y"
  show ?thesis
  proof (cases "0 \<le> x")
    case True
    then show ?thesis using xy by (simp add: py_int_def floor_mono)
  next
    case False
    show ?thesis
    proof (cases "0 \<le> y")
      case True
      have "\<lceil>x\<rceil> \<le> 0" using False by (simp add: ceiling_le_iff)
      moreover have "0 \<le> \<lfloor>y\<rfloor>" using True by simp
      ultimately have "\<lceil>x\<rceil> \<le> \<lfloor>y\<rfloor>" by linarith
      then show ?thesis using False True by (simp add: py_int_def)
    next
      case ny: False
      then show ?thesis using False xy by (simp add: py_int_def ceiling_mono)
    qed
  qed
qed

lemma reveal_k_floor:
  assumes "0 \<le> p"
  shows "reveal_k p n = \<lfloor>round64 (round64 (round64 p / round64 0.3) * real n)\<rfloor>"
proof -
  have c: "0 < round64 0.3" by (rule round64_pos) simp
  have "0 \<le> round64 p" using assms by (rule round64_nonneg)
  then have "0 \<le> round64 p / round64 0.3" using c by simp
  then have "0 \<le> round64 (round64 p / round64 0.3)" by (rule round64_nonneg)
  then have "0 \<le> round64 (round64 p / round64 0.3) * real n" by simp
  then have "0 \<le> round64 (round64 (round64 p / round64 0.3) * real n)" by (rule round64_nonneg)
  then show ?thesis by (simp only: reveal_k_def py_int_def if_True)
qed

lemma reveal_k_mono:
  assumes "0 \<le> p1" and "p1 \<le> p2"
  shows "reveal_k p1 n \<le> reveal_k p2 n"
proof -
  have c: "0 < round64 0.3" by (rule round64_pos) simp
  have a0: "0 \<le> round64 p1" using assms(1) by (rule round64_nonneg)
  have a: "round64 p1 \<le> round64 p2" using assms by (rule round64_mono_nonneg)
  have q0: "0 \<le> round64 p1 / round64 0.3" using a0 c by simp
  have q: "round64 p1 / round64 0.3 \<le> round64 p2 / round64 0.3"
    using a c by (simp add: divide_right_mono)
  have b0: "0 \<le> round64 (round64 p1 / round64 0.3)" using q0 by (rule round64_nonneg)
  have b: "round64 (round64 p1 / round64 0.3) \<le> round64 (round64 p2 / round64 0.3)"
    using q0 q by (rule round64_mono_nonneg)
  have r0: "0 \<le> round64 (round64 p1 / round64 0.3) * real n" using b0 by simp
  have r: "round64 (round64 p1 / round64 0.3) * real n
             \<le> round64 (round64 p2 / round64 0.3) * real n"
    using b by (simp add: mult_right_mono)
  have "round64 (round64 (round64 p1 / round64 0.3) * real n)
          \<le> round64 (round64 (round64 p2 / round64 0.3) * real n)"
    using r0 r by (rule round64_mono_nonneg)
  then show ?thesis unfolding reveal_k_def by (rule py_int_mono)
qed

lemma reveal_k_frame_11_of_60: "reveal_k (11 / 60) 18 = 10"
proof -
  have a: "round64 (11 / 60) = 6605279453476727 / 36028797018963968"
  proof -
    have "rne (11 / 60 * 2 ^ 55) = 6605279453476727" by (simp add: rne_def)
    from round64_eval [OF this] show ?thesis by simp
  qed
  have c: "round64 (3 / 10) = 5404319552844595 / 18014398509481984"
  proof -
    have "rne (3 / 10 * 2 ^ 54) = 5404319552844595" by (simp add: rne_def)
    from round64_eval [OF this] show ?thesis by simp
  qed
  have q: "(6605279453476727 / 36028797018963968) / (5404319552844595 / 18014398509481984) = (6605279453476727 / 10808639105689190 :: real)" by simp
  have b: "round64 (6605279453476727 / 10808639105689190) = 5504399544563939 / 9007199254740992"
  proof -
    have "rne (6605279453476727 / 10808639105689190 * 2 ^ 53) = 5504399544563939" by (simp add: rne_def)
    from round64_eval [OF this] show ?thesis by simp
  qed
  have r: "(5504399544563939 / 9007199254740992) * real (18 :: nat) = 49539595901075451 / 4503599627370496" by simp
  have d: "round64 (49539595901075451 / 4503599627370496) = 6192449487634431 / 562949953421312"
  proof -
    have "rne (49539595901075451 / 4503599627370496 * 2 ^ 49) = 6192449487634431" by (simp add: rne_def)
    from round64_eval [OF this] show ?thesis by simp
  qed
  have f: "py_int (6192449487634431 / 562949953421312) = 10" by (simp add: py_int_def)
  show ?thesis unfolding reveal_k_def a c q b r d f ..
qed

lemma reveal_k_quarter: "reveal_k (1 / 4) 4 = 3"
proof -
  have a: "round64 (1 / 4) = 1 / 4"
  proof -
    have "rne (1 / 4 * 2 ^ 54) = 4503599627370496" by (simp add: rne_def)
    from round64_eval [OF this] show ?thesis by simp
  qed
  have c: "round64 (3 / 10) = 5404319552844595 / 18014398509481984"
  proof -
    have "rne (3 / 10 * 2 ^ 54) = 5404319552844595" by (simp add: rne_def)
    from round64_eval [OF this] show ?thesis by simp
  qed
  have q: "(1 / 4) / (5404319552844595 / 18014398509481984) = (4503599627370496 / 5404319552844595 :: real)" by simp
  have b: "round64 (4503599627370496 / 5404319552844595) = 7505999378950827 / 9007199254740992"
  proof -
    have "rne (4503599627370496 / 5404319552844595 * 2 ^ 53) = 7505999378950827" by (simp add: rne_def)
    from round64_eval [OF this] show ?thesis by simp
  qed
  have r: "(7505999378950827 / 9007199254740992) * real (4 :: nat) = 7505999378950827 / 2251799813685248" by simp
  have d: "round64 (7505999378950827 / 2251799813685248) = 7505999378950827 / 2251799813685248"
  proof -
    have "rne (7505999378950827 / 2251799813685248 * 2 ^ 51) = 7505999378950827" by (simp add: rne_def)
    from round64_eval [OF this] show ?thesis by simp
  qed
  have f: "py_int (7505999378950827 / 2251799813685248) = 3" by (simp add: py_int_def)
  show ?thesis unfolding reveal_k_def a c q b r d f ..
qed

lemma revealed_eq: "revealed p n = [0..<min n (nat (reveal_k p n + 1))]"
proof -
  have "filter (\<lambda>i. int i \<le> k) [0..<n] = [0..<min n (nat (k + 1))]" for k :: int
  proof (induction n)
    case 0
    then show ?case by simp
  next
    case (Suc n)
    show ?case
    proof (cases "int n \<le> k")
      case True
      then have "min (Suc n) (nat (k + 1)) = Suc n" "min n (nat (k + 1)) = n" by linarith+
      with Suc True show ?thesis by simp
    next
      case False
      then have "min (Suc n) (nat (k + 1)) = min n (nat (k + 1))" by linarith
      with Suc False show ?thesis by simp
    qed
  qed
  then show ?thesis by (simp add: revealed_def)
qed

lemma revealed_iff: "j \<in> set (revealed p n) \<longleftrightarrow> j < n \<and> int j \<le> reveal_k p n"
  by (auto simp: revealed_def)

text \<open>
  C6, as the code has it. For a progress fraction \<open>p \<ge> 0\<close> the reveal index \<open>k\<close> is the
  integer part of \<open>(p/0.30) * species_count\<close> as double-precision arithmetic computes it,
  every operand and every result rounded to the nearest double, and the species revealed
  are those of index up to \<open>k\<close>: the first \<open>min(n, k+1)\<close> of the \<open>n\<close> species. For
  \<open>p1 \<le> p2\<close> the index, the count of the revealed species and the set of the revealed
  species at \<open>p1\<close> are at most those at \<open>p2\<close>. The reveal block of \<open>update\<close> sets the black
  line of every revealed species to its real signal and leaves the black line of every
  other species as it was, so a line that shows its species before the block shows it
  after the block.
\<close>

theorem reveal_count_monotone:
  assumes "0 \<le> p1" and "p1 \<le> p2"
  shows "reveal_k p1 n = \<lfloor>round64 (round64 (round64 p1 / round64 0.3) * real n)\<rfloor>
       \<and> revealed p1 n = [0..<min n (nat (reveal_k p1 n + 1))]
       \<and> reveal_k p1 n \<le> reveal_k p2 n
       \<and> length (revealed p1 n) \<le> length (revealed p2 n)
       \<and> set (revealed p1 n) \<subseteq> set (revealed p2 n)
       \<and> (td_wf w \<and> length (td_molecules (td_sig w)) = n \<and> j < n \<longrightarrow>
            (\<exists>a'. td_block REVEAL_COMPONENTS (td_sig w) p1 (td_art w) = Inr a'
               \<and> map_of (td_black_lines a') (fst (td_molecules (td_sig w) ! j)) =
                   (if j \<in> set (revealed p1 n)
                    then Some (td_t (td_sig w), Array (map Re (snd (real_fids (td_sig w) ! j))))
                    else map_of (td_black_lines (td_art w)) (fst (td_molecules (td_sig w) ! j)))
               \<and> (map_of (td_black_lines (td_art w)) (fst (td_molecules (td_sig w) ! j))
                     = Some (td_t (td_sig w), Array (map Re (snd (real_fids (td_sig w) ! j))))
                   \<longrightarrow> map_of (td_black_lines a') (fst (td_molecules (td_sig w) ! j))
                     = Some (td_t (td_sig w), Array (map Re (snd (real_fids (td_sig w) ! j)))))))
       \<and> (sd_wf v \<and> length (sd_molecules (sd_sig v)) = n \<and> j < n
            \<and> sd_block REVEAL_COMPONENTS (sd_sig v) p1 (sd_art v) = Inr b' \<longrightarrow>
            map_of (sd_black_lines b') (fst (sd_molecules (sd_sig v) ! j)) =
              (if j \<in> set (revealed p1 n)
               then Some (sd_freq (sd_sig v), Array (snd (real_specs (sd_sig v) ! j)))
               else map_of (sd_black_lines (sd_art v)) (fst (sd_molecules (sd_sig v) ! j))))"
proof -
  have k: "reveal_k p1 n = \<lfloor>round64 (round64 (round64 p1 / round64 0.3) * real n)\<rfloor>"
    using assms(1) by (rule reveal_k_floor)
  have mono: "reveal_k p1 n \<le> reveal_k p2 n" using assms by (rule reveal_k_mono)
  have sub: "set (revealed p1 n) \<subseteq> set (revealed p2 n)"
    using mono by (auto simp: revealed_iff)
  have len: "length (revealed p1 n) \<le> length (revealed p2 n)"
    using mono by (simp add: revealed_eq)
  have td: "\<exists>a'. td_block REVEAL_COMPONENTS (td_sig w) p1 (td_art w) = Inr a'
               \<and> map_of (td_black_lines a') (fst (td_molecules (td_sig w) ! j)) =
                   (if j \<in> set (revealed p1 n)
                    then Some (td_t (td_sig w), Array (map Re (snd (real_fids (td_sig w) ! j))))
                    else map_of (td_black_lines (td_art w)) (fst (td_molecules (td_sig w) ! j)))
               \<and> (map_of (td_black_lines (td_art w)) (fst (td_molecules (td_sig w) ! j))
                     = Some (td_t (td_sig w), Array (map Re (snd (real_fids (td_sig w) ! j))))
                   \<longrightarrow> map_of (td_black_lines a') (fst (td_molecules (td_sig w) ! j))
                     = Some (td_t (td_sig w), Array (map Re (snd (real_fids (td_sig w) ! j)))))"
    if h: "td_wf w" "length (td_molecules (td_sig w)) = n" "j < n"
  proof -
    from td_phase1_total [OF h(1)] obtain a' where
      a': "td_phase1 (td_sig w) p1 (td_art w) = Inr a'" by blast
    have d: "distinct (map fst (td_molecules (td_sig w)))"
      "map fst (real_fids (td_sig w)) = map fst (td_molecules (td_sig w))"
      using h(1) by (simp_all add: td_wf_def Let_def)
    have jj: "j < length (td_molecules (td_sig w))" using h(2,3) by simp
    note l = td_phase1_lines [OF a' d jj]
    have "map_of (td_black_lines a') (fst (td_molecules (td_sig w) ! j)) =
                   (if j \<in> set (revealed p1 n)
                    then Some (td_t (td_sig w), Array (map Re (snd (real_fids (td_sig w) ! j))))
                    else map_of (td_black_lines (td_art w)) (fst (td_molecules (td_sig w) ! j)))"
      using l h(2,3) by (simp add: revealed_iff)
    then show ?thesis using a' by (auto simp: td_block_def)
  qed
  have sd: "map_of (sd_black_lines b') (fst (sd_molecules (sd_sig v) ! j)) =
              (if j \<in> set (revealed p1 n)
               then Some (sd_freq (sd_sig v), Array (snd (real_specs (sd_sig v) ! j)))
               else map_of (sd_black_lines (sd_art v)) (fst (sd_molecules (sd_sig v) ! j)))"
    if h: "sd_wf v" "length (sd_molecules (sd_sig v)) = n" "j < n"
      "sd_block REVEAL_COMPONENTS (sd_sig v) p1 (sd_art v) = Inr b'"
  proof -
    have b': "sd_phase1 (sd_sig v) p1 (sd_art v) = Inr b'" using h(4) by (simp add: sd_block_def)
    have d: "distinct (map fst (sd_molecules (sd_sig v)))"
      "map fst (real_specs (sd_sig v)) = map fst (sd_molecules (sd_sig v))"
      using h(1) by (simp_all add: sd_wf_def Let_def)
    have jj: "j < length (sd_molecules (sd_sig v))" using h(2,3) by simp
    from sd_phase1_lines [OF b' d jj] h(2,3) show ?thesis by (simp add: revealed_iff)
  qed
  show ?thesis using k revealed_eq [of p1 n] mono len sub td sd by blast
qed

theorem reveal_count_monotone_witness:
  "reveal_k 0 4 = 0 \<and> reveal_k (1 / 4) 4 = 3
   \<and> revealed 0 4 = [0] \<and> revealed (1 / 4) 4 = [0, 1, 2, 3]
   \<and> length (revealed 0 4) \<le> length (revealed (1 / 4) 4)
   \<and> set (revealed 0 4) \<subseteq> set (revealed (1 / 4) 4)
   \<and> td_script 2000 1 0.18 100 = Inr td_four
   \<and> sd_script 2000 1 0.15 100 = Inr sd_four
   \<and> (\<exists>a'. td_block REVEAL_COMPONENTS (td_sig td_four) 0 (td_art td_four) = Inr a'
         \<and> map_of (td_black_lines a') ''A'' = Some ([0], Array [5])
         \<and> map_of (td_black_lines a') ''D'' = Some empty_line)
   \<and> (\<exists>a'. td_block REVEAL_COMPONENTS (td_sig td_four) (1 / 4) (td_art td_four) = Inr a'
         \<and> map_of (td_black_lines a') ''A'' = Some ([0], Array [5])
         \<and> map_of (td_black_lines a') ''D'' = Some ([0], Array [12]))
   \<and> (\<exists>b'. sd_block REVEAL_COMPONENTS (sd_sig sd_four) 0 (sd_art sd_four) = Inr b'
         \<and> map_of (sd_black_lines b') ''D'' = Some empty_line)
   \<and> (\<exists>b'. sd_block REVEAL_COMPONENTS (sd_sig sd_four) (1 / 4) (sd_art sd_four) = Inr b'
         \<and> map_of (sd_black_lines b') ''D'' = Some ([- 400], Array [12]))"
proof -
  have k0: "reveal_k 0 4 = 0" by (simp add: reveal_k_def py_int_def)
  note k1 = reveal_k_quarter
  have l: "length (td_molecules (td_sig td_four)) = 4" "length (sd_molecules (sd_sig sd_four)) = 4"
    by (simp_all add: td_four_def sd_four_def)
  have j: "(0 :: nat) < 4" "(3 :: nat) < 4" by simp_all
  have p: "(0 :: real) \<le> 0" "(0 :: real) \<le> 1 / 4" "(1 :: real) / 4 \<le> 1 / 4" by simp_all
  have e: "fst (td_molecules (td_sig td_four) ! 0) = ''A''"
      "fst (td_molecules (td_sig td_four) ! 3) = ''D''"
      "fst (sd_molecules (sd_sig sd_four) ! 3) = ''D''"
      "td_t (td_sig td_four) = [0]" "sd_freq (sd_sig sd_four) = [- 400]"
      "map Re (snd (real_fids (td_sig td_four) ! 0)) = [5]"
      "map Re (snd (real_fids (td_sig td_four) ! 3)) = [12]"
      "snd (real_specs (sd_sig sd_four) ! 3) = [12]"
      "map_of (td_black_lines (td_art td_four)) ''D'' = Some empty_line"
      "map_of (sd_black_lines (sd_art sd_four)) ''D'' = Some empty_line"
    by (simp_all add: td_four_def sd_four_def td_figure_def sd_figure_def)
  obtain b0 where b0: "sd_block REVEAL_COMPONENTS (sd_sig sd_four) 0 (sd_art sd_four) = Inr b0"
    unfolding sd_block_def sd_phase1_def l k0
    by (simp add: sd_four_def sd_figure_def sd_reveal_body_def dict_get_def artist_set_def
        sd_label_pos_def np_argmax_def np_index_def np_max_def)
  obtain b1 where
    b1: "sd_block REVEAL_COMPONENTS (sd_sig sd_four) (1 / 4) (sd_art sd_four) = Inr b1"
    unfolding sd_block_def sd_phase1_def l k1
    by (simp add: sd_four_def sd_figure_def sd_reveal_body_def dict_get_def artist_set_def
        sd_label_pos_def np_argmax_def np_index_def np_max_def)
  note T0 = reveal_count_monotone [where ?p1.0 = 0 and ?p2.0 = "1 / 4" and n = 4
      and w = td_four and v = sd_four and b' = b0, OF p(1,2)]
  note T1 = reveal_count_monotone [where ?p1.0 = "1 / 4" and ?p2.0 = "1 / 4" and n = 4
      and w = td_four and v = sd_four and b' = b1, OF p(2,3)]
  from T0 [where j = 0] have r0: "revealed 0 4 = [0..<min 4 (nat (reveal_k 0 4 + 1))]"
    and len: "length (revealed 0 4) \<le> length (revealed (1 / 4) 4)"
    and sub: "set (revealed 0 4) \<subseteq> set (revealed (1 / 4) 4)"
    by blast+
  from T1 [where j = 0] have
    r1: "revealed (1 / 4) 4 = [0..<min 4 (nat (reveal_k (1 / 4) 4 + 1))]"
    by blast
  have rev0: "revealed 0 4 = [0]" unfolding r0 k0 by (simp add: upt_rec)
  have rev1: "revealed (1 / 4) 4 = [0, 1, 2, 3]"
    unfolding r1 k1 by (simp add: upt_rec_numeral eval_nat_numeral)
  have m: "0 \<in> set (revealed 0 4)" "3 \<notin> set (revealed 0 4)"
      "0 \<in> set (revealed (1 / 4) 4)" "3 \<in> set (revealed (1 / 4) 4)"
    unfolding rev0 rev1 by simp_all
  from T0 [where j = 0] td_four_wf l(1) j(1) obtain a0 where
    a0: "td_block REVEAL_COMPONENTS (td_sig td_four) 0 (td_art td_four) = Inr a0"
      "map_of (td_black_lines a0) (fst (td_molecules (td_sig td_four) ! 0)) =
         (if 0 \<in> set (revealed 0 4)
          then Some (td_t (td_sig td_four), Array (map Re (snd (real_fids (td_sig td_four) ! 0))))
          else map_of (td_black_lines (td_art td_four)) (fst (td_molecules (td_sig td_four) ! 0)))"
    by blast
  from T0 [where j = 3] td_four_wf l(1) j(2) obtain a0' where
    a0': "td_block REVEAL_COMPONENTS (td_sig td_four) 0 (td_art td_four) = Inr a0'"
      "map_of (td_black_lines a0') (fst (td_molecules (td_sig td_four) ! 3)) =
         (if 3 \<in> set (revealed 0 4)
          then Some (td_t (td_sig td_four), Array (map Re (snd (real_fids (td_sig td_four) ! 3))))
          else map_of (td_black_lines (td_art td_four)) (fst (td_molecules (td_sig td_four) ! 3)))"
    by blast
  from a0(1) a0'(1) have same0: "a0' = a0" by simp
  from T1 [where j = 0] td_four_wf l(1) j(1) obtain a1 where
    a1: "td_block REVEAL_COMPONENTS (td_sig td_four) (1 / 4) (td_art td_four) = Inr a1"
      "map_of (td_black_lines a1) (fst (td_molecules (td_sig td_four) ! 0)) =
         (if 0 \<in> set (revealed (1 / 4) 4)
          then Some (td_t (td_sig td_four), Array (map Re (snd (real_fids (td_sig td_four) ! 0))))
          else map_of (td_black_lines (td_art td_four)) (fst (td_molecules (td_sig td_four) ! 0)))"
    by blast
  from T1 [where j = 3] td_four_wf l(1) j(2) obtain a1' where
    a1': "td_block REVEAL_COMPONENTS (td_sig td_four) (1 / 4) (td_art td_four) = Inr a1'"
      "map_of (td_black_lines a1') (fst (td_molecules (td_sig td_four) ! 3)) =
         (if 3 \<in> set (revealed (1 / 4) 4)
          then Some (td_t (td_sig td_four), Array (map Re (snd (real_fids (td_sig td_four) ! 3))))
          else map_of (td_black_lines (td_art td_four)) (fst (td_molecules (td_sig td_four) ! 3)))"
    by blast
  from a1(1) a1'(1) have same1: "a1' = a1" by simp
  from T0 [where j = 3] sd_four_wf l(2) j(2) b0 have
    s0: "map_of (sd_black_lines b0) (fst (sd_molecules (sd_sig sd_four) ! 3)) =
           (if 3 \<in> set (revealed 0 4)
            then Some (sd_freq (sd_sig sd_four), Array (snd (real_specs (sd_sig sd_four) ! 3)))
            else map_of (sd_black_lines (sd_art sd_four)) (fst (sd_molecules (sd_sig sd_four) ! 3)))"
    by blast
  from T1 [where j = 3] sd_four_wf l(2) j(2) b1 have
    s1: "map_of (sd_black_lines b1) (fst (sd_molecules (sd_sig sd_four) ! 3)) =
           (if 3 \<in> set (revealed (1 / 4) 4)
            then Some (sd_freq (sd_sig sd_four), Array (snd (real_specs (sd_sig sd_four) ! 3)))
            else map_of (sd_black_lines (sd_art sd_four)) (fst (sd_molecules (sd_sig sd_four) ! 3)))"
    by blast
  have A0: "map_of (td_black_lines a0) ''A'' = Some ([0], Array [5])"
    using a0(2) m(1) by (simp only: e if_True)
  have D0: "map_of (td_black_lines a0) ''D'' = Some empty_line"
    using a0'(2) m(2) by (simp only: e if_False same0)
  have A1: "map_of (td_black_lines a1) ''A'' = Some ([0], Array [5])"
    using a1(2) m(3) by (simp only: e if_True)
  have D1: "map_of (td_black_lines a1) ''D'' = Some ([0], Array [12])"
    using a1'(2) m(4) by (simp only: e if_True same1)
  have S0: "map_of (sd_black_lines b0) ''D'' = Some empty_line"
    using s0 m(2) by (simp only: e if_False)
  have S1: "map_of (sd_black_lines b1) ''D'' = Some ([- 400], Array [12])"
    using s1 m(4) by (simp only: e if_True)
  from a0(1) A0 D0 have td0:
    "\<exists>a'. td_block REVEAL_COMPONENTS (td_sig td_four) 0 (td_art td_four) = Inr a'
         \<and> map_of (td_black_lines a') ''A'' = Some ([0], Array [5])
         \<and> map_of (td_black_lines a') ''D'' = Some empty_line" by blast
  from a1(1) A1 D1 have td1:
    "\<exists>a'. td_block REVEAL_COMPONENTS (td_sig td_four) (1 / 4) (td_art td_four) = Inr a'
         \<and> map_of (td_black_lines a') ''A'' = Some ([0], Array [5])
         \<and> map_of (td_black_lines a') ''D'' = Some ([0], Array [12])" by blast
  from b0 S0 have sd0:
    "\<exists>b'. sd_block REVEAL_COMPONENTS (sd_sig sd_four) 0 (sd_art sd_four) = Inr b'
         \<and> map_of (sd_black_lines b') ''D'' = Some empty_line" by blast
  from b1 S1 have sd1:
    "\<exists>b'. sd_block REVEAL_COMPONENTS (sd_sig sd_four) (1 / 4) (sd_art sd_four) = Inr b'
         \<and> map_of (sd_black_lines b') ''D'' = Some ([- 400], Array [12])" by blast
  show ?thesis
    using k0 k1 rev0 rev1 len sub td_four_script sd_four_script td0 td1 sd0 sd1 by blast
qed

text \<open>
  The index is not always the floor of the exact product. At frame 11 of 60 with 18
  species the exact product \<open>((11/60)/0.3) * 18\<close> is 11, but the double nearest to
  \<open>11/60\<close> divided by the double nearest to \<open>0.3\<close> rounds to a double just below
  \<open>11/18\<close>, the product with 18 rounds to a double just below 11, and \<open>int\<close> cuts it to
  10: the species of index 11 is not among those revealed, and 11 species are revealed
  where the exact floor gives 12.
\<close>

theorem reveal_index_below_exact_floor:
  "py_truediv 11 60 = Inr (11 / 60)
   \<and> reveal_k (11 / 60) 18 = 10
   \<and> \<lfloor>(11 / 60) / 0.3 * real (18 :: nat)\<rfloor> = (11 :: int)
   \<and> 11 \<notin> set (revealed (11 / 60) 18)
   \<and> length (revealed (11 / 60) 18) = 11"
proof -
  note k = reveal_k_frame_11_of_60
  have "revealed (11 / 60) 18 = [0..<min 18 (nat (reveal_k (11 / 60) 18 + 1))]"
    by (rule revealed_eq)
  then have r: "revealed (11 / 60) 18 = [0..<11]" unfolding k by simp
  have "\<lfloor>(11 / 60) / 0.3 * real (18 :: nat)\<rfloor> = (11 :: int)" by simp
  moreover have "py_truediv 11 60 = Inr (11 / 60)" by (simp add: py_truediv_def)
  ultimately show ?thesis using k unfolding r by simp
qed

section \<open>Scaling the basis\<close>

text \<open>
  C7. For \<open>0.65 \<le> p < 0.90\<close> only the scaling block of \<open>update\<close> runs; its scale factor is
  \<open>s = (p - 0.65)/0.25\<close>, which lies in \<open>[0,1)\<close>, is 0 at \<open>p = 0.65\<close> and grows linearly
  with \<open>p\<close>. The block sets the red line of every species to \<open>basis * concentration * s\<close>:
  in the spectral domain as it is, in the time domain its real part, which is the
  displayed basis (the real part of the basis) times \<open>concentration * s\<close>.
\<close>

theorem scale_basis_ramp:
  assumes "0.65 \<le> p" and "p < 0.9"
  shows "phases_run p = [SCALE_BASIS]
       \<and> scale_s p = (p - 0.65) / 0.25 \<and> 0 \<le> scale_s p \<and> scale_s p < 1
       \<and> scale_s 0.65 = 0 \<and> scale_s q - scale_s p = (q - p) / 0.25
       \<and> (td_wf w \<and> j < length (td_molecules (td_sig w)) \<longrightarrow>
            (\<exists>a'. td_block SCALE_BASIS (td_sig w) p (td_art w) = Inr a'
               \<and> map_of (td_red_lines a') (fst (td_molecules (td_sig w) ! j)) =
                   Some (td_t (td_sig w),
                         Array (map (\<lambda>z. Re (z * of_real (snd (snd (td_molecules (td_sig w) ! j)))
                                               * of_real (scale_s p)))
                                    (snd (basis_fids (td_sig w) ! j))))
               \<and> map (\<lambda>z. Re (z * of_real (snd (snd (td_molecules (td_sig w) ! j)))
                                 * of_real (scale_s p)))
                       (snd (basis_fids (td_sig w) ! j))
                   = map (\<lambda>x. x * snd (snd (td_molecules (td_sig w) ! j)) * scale_s p)
                       (map Re (snd (basis_fids (td_sig w) ! j)))))
       \<and> (sd_wf v \<and> i < length (sd_molecules (sd_sig v))
            \<and> sd_block SCALE_BASIS (sd_sig v) p (sd_art v) = Inr b' \<longrightarrow>
            map_of (sd_red_lines b') (fst (sd_molecules (sd_sig v) ! i)) =
              Some (sd_freq (sd_sig v),
                    Array (map (\<lambda>x. x * snd (snd (sd_molecules (sd_sig v) ! i)) * scale_s p)
                               (snd (basis_specs (sd_sig v) ! i)))))"
proof -
  have run: "phases_run p = [SCALE_BASIS]"
    using assms by (simp add: phases_run_def guard_def)
  have s: "scale_s p = (p - 0.65) / 0.25" "0 \<le> scale_s p" "scale_s p < 1"
      "scale_s 0.65 = 0" "scale_s q - scale_s p = (q - p) / 0.25"
    using assms by (simp_all add: scale_s_def field_simps)
  have td: "\<exists>a'. td_block SCALE_BASIS (td_sig w) p (td_art w) = Inr a'
               \<and> map_of (td_red_lines a') (fst (td_molecules (td_sig w) ! j)) =
                   Some (td_t (td_sig w),
                         Array (map (\<lambda>z. Re (z * of_real (snd (snd (td_molecules (td_sig w) ! j)))
                                               * of_real (scale_s p)))
                                    (snd (basis_fids (td_sig w) ! j))))
               \<and> map (\<lambda>z. Re (z * of_real (snd (snd (td_molecules (td_sig w) ! j)))
                                 * of_real (scale_s p)))
                       (snd (basis_fids (td_sig w) ! j))
                   = map (\<lambda>x. x * snd (snd (td_molecules (td_sig w) ! j)) * scale_s p)
                       (map Re (snd (basis_fids (td_sig w) ! j)))"
    if h: "td_wf w" "j < length (td_molecules (td_sig w))"
  proof -
    from td_phase4_total [OF h(1)] obtain a' where
      a': "td_phase4 (td_sig w) p (td_art w) = Inr a'" by blast
    have d: "distinct (map fst (td_molecules (td_sig w)))"
      "map fst (basis_fids (td_sig w)) = map fst (td_molecules (td_sig w))"
      using h(1) by (simp_all add: td_wf_def Let_def)
    note l = td_phase4_lines [OF a' d h(2)]
    have "map (\<lambda>z. Re (z * of_real c * of_real sc)) zs = map (\<lambda>x. x * c * sc) (map Re zs)"
      for c sc :: real and zs :: "complex list"
      by (simp add: mult.assoc)
    with l a' show ?thesis by (simp add: td_block_def)
  qed
  have sd: "map_of (sd_red_lines b') (fst (sd_molecules (sd_sig v) ! i)) =
              Some (sd_freq (sd_sig v),
                    Array (map (\<lambda>x. x * snd (snd (sd_molecules (sd_sig v) ! i)) * scale_s p)
                               (snd (basis_specs (sd_sig v) ! i))))"
    if h: "sd_wf v" "i < length (sd_molecules (sd_sig v))"
      "sd_block SCALE_BASIS (sd_sig v) p (sd_art v) = Inr b'"
  proof -
    have b': "sd_phase4 (sd_sig v) p (sd_art v) = Inr b'" using h(3) by (simp add: sd_block_def)
    have d: "distinct (map fst (sd_molecules (sd_sig v)))"
      "map fst (basis_specs (sd_sig v)) = map fst (sd_molecules (sd_sig v))"
      using h(1) by (simp_all add: sd_wf_def Let_def)
    show ?thesis by (rule sd_phase4_lines [OF b' d h(2)])
  qed
  show ?thesis using run s td sd by blast
qed

theorem scale_basis_ramp_witness:
  "phases_run (7 / 10) = [SCALE_BASIS] \<and> scale_s (7 / 10) = 1 / 5
   \<and> (\<exists>a'. td_block SCALE_BASIS (td_sig td_demo) (7 / 10) (td_art td_demo) = Inr a'
         \<and> map_of (td_red_lines a') ''A'' = Some ([0, 1 / 2000], Array [1, 1 / 2]))
   \<and> (\<exists>b'. sd_block SCALE_BASIS (sd_sig sd_demo) (7 / 10) (sd_art sd_demo) = Inr b'
         \<and> map_of (sd_red_lines b') ''A'' = Some ([- 400], Array [1]))"
proof -
  have sc: "scale_s (7 / 10) = 1 / 5" by (simp add: scale_s_def)
  obtain b' where b': "sd_block SCALE_BASIS (sd_sig sd_demo) (7 / 10) (sd_art sd_demo) = Inr b'"
    by (simp add: sd_block_def sd_phase4_def sd_demo_def sd_figure_def sd_scale_body_def
        scale_s_def dict_get_def artist_set_def sd_label_pos_def np_argmax_def
        np_index_def np_max_def)
  have e: "fst (td_molecules (td_sig td_demo) ! 0) = ''A''"
      "fst (sd_molecules (sd_sig sd_demo) ! 0) = ''A''"
      "td_t (td_sig td_demo) = [0, 1 / 2000]" "sd_freq (sd_sig sd_demo) = [- 400]"
      "snd (basis_fids (td_sig td_demo) ! 0) = [1, 1 / 2]"
      "snd (basis_specs (sd_sig sd_demo) ! 0) = [1]"
      "snd (snd (td_molecules (td_sig td_demo) ! 0)) = 5"
      "snd (snd (sd_molecules (sd_sig sd_demo) ! 0)) = 5"
      "0 < length (td_molecules (td_sig td_demo))" "0 < length (sd_molecules (sd_sig sd_demo))"
    by (simp_all add: td_demo_def sd_demo_def)
  from scale_basis_ramp [where p = "7 / 10" and w = td_demo and j = 0 and v = sd_demo
      and i = 0 and b' = b']
    td_demo_wf sd_demo_wf b' e sc
  show ?thesis by simp
qed

section \<open>The invariant of the basis-fitting worlds\<close>

lemma td_setup_wf:
  assumes "td_setup frames t mols = Inr w" and "distinct (map fst mols)" and "frames \<noteq> 0"
  shows "td_wf w"
proof -
  note w = td_setup_Inr [OF assms(1,2)]
  have "map fst (basis_fids (td_sig w)) = map fst mols"
    "map fst (real_fids (td_sig w)) = map fst mols"
    by (simp_all add: w(4,5) case_prod_unfold comp_def)
  moreover have "map fst (td_black_lines (td_figure mols)) = map fst mols"
    "map fst (td_red_lines (td_figure mols)) = map fst mols"
    "map fst (td_labels_real (td_figure mols)) = map fst mols"
    "map fst (td_labels_basis (td_figure mols)) = map fst mols"
    by (simp_all add: td_figure_def case_prod_unfold comp_def)
  ultimately show ?thesis
    using assms(2,3) by (simp add: td_wf_def Let_def w(1,3,7))
qed

lemma sd_setup_wf:
  assumes "sd_setup frames freq mols = Inr w" and "distinct (map fst mols)" and "frames \<noteq> 0"
  shows "sd_wf w"
proof -
  note w = sd_setup_Inr [OF assms(1,2)]
  have "map fst (basis_specs (sd_sig w)) = map fst mols"
    "map fst (real_specs (sd_sig w)) = map fst mols"
    by (simp_all add: w(4,5) case_prod_unfold comp_def)
  moreover have "map fst (sd_black_lines (sd_figure mols)) = map fst mols"
    "map fst (sd_red_lines (sd_figure mols)) = map fst mols"
    "map fst (sd_labels_real (sd_figure mols)) = map fst mols"
    "map fst (sd_labels_basis (sd_figure mols)) = map fst mols"
    by (simp_all add: sd_figure_def case_prod_unfold comp_def)
  ultimately show ?thesis
    using assms(2,3) by (simp add: sd_wf_def Let_def w(1,3,7))
qed

lemma td_hide_body_keys: "td_hide_body n u = Inr u' \<Longrightarrow> td_same_keys u u'"
  by (auto simp: td_hide_body_def td_same_keys_def bind_eq_Inr dest!: artist_set_keys)

lemma td_basis_body_keys: "td_basis_body s y u = Inr u' \<Longrightarrow> td_same_keys u u'"
  by (cases y) (auto simp: td_basis_body_def td_same_keys_def bind_eq_Inr Let_def
      dest!: artist_set_keys)

lemma td_scale_body_keys: "td_scale_body s sc y u = Inr u' \<Longrightarrow> td_same_keys u u'"
  by (cases y) (auto simp: td_scale_body_def td_same_keys_def bind_eq_Inr Let_def
      dest!: artist_set_keys)

lemma td_same_keys_loop:
  assumes "for_each body xs a = Inr a'"
    and "\<And>y u u'. body y u = Inr u' \<Longrightarrow> td_same_keys u u'"
  shows "td_same_keys a a'"
proof (rule for_each_invariant [where I = "td_same_keys a", OF assms(1)])
  show "td_same_keys a a" by (simp add: td_same_keys_def)
next
  fix y u u' assume "td_same_keys a u" "body y u = Inr u'"
  then show "td_same_keys a u'" using assms(2) [of y u u'] by (simp add: td_same_keys_def)
qed

lemma td_step_keys:
  assumes "td_step ph s p a = Inr a'"
  shows "td_same_keys a a'"
proof (cases "guard ph p")
  case False
  with assms show ?thesis by (simp add: td_step_def td_same_keys_def)
next
  case True
  with assms have b: "td_block ph s p a = Inr a'" by (simp add: td_step_def)
  show ?thesis
  proof (cases ph)
    case REVEAL_COMPONENTS
    with b have "for_each (td_reveal_body s (reveal_k p (length (td_molecules s))))
                   (enumerate 0 (td_molecules s)) a = Inr a'"
      by (simp add: td_block_def td_phase1_def Let_def)
    then show ?thesis
      by (rule td_same_keys_loop) (auto simp: td_same_keys_def dest!: td_reveal_body_keys)
  next
    case SHOW_SUM
    with b have "for_each td_hide_body (map fst (td_molecules s))
                   (a\<lparr>td_sum_black := (td_t s, np_real (td_real_sum s))\<rparr>) = Inr a'"
      by (simp add: td_block_def td_phase2_def)
    then have "td_same_keys (a\<lparr>td_sum_black := (td_t s, np_real (td_real_sum s))\<rparr>) a'"
      by (rule td_same_keys_loop) (rule td_hide_body_keys)
    then show ?thesis by (simp add: td_same_keys_def)
  next
    case SHOW_BASIS
    with b have "for_each (td_basis_body s) (enumerate 0 (td_molecules s)) a = Inr a'"
      by (simp add: td_block_def td_phase3_def)
    then show ?thesis by (rule td_same_keys_loop) (rule td_basis_body_keys)
  next
    case SCALE_BASIS
    with b have "for_each (td_scale_body s (scale_s p)) (enumerate 0 (td_molecules s)) a = Inr a'"
      by (simp add: td_block_def td_phase4_def Let_def)
    then show ?thesis by (rule td_same_keys_loop) (rule td_scale_body_keys)
  next
    case SHOW_FIT
    with b show ?thesis
      by (auto simp: td_block_def td_phase5_def bind_eq_Inr td_same_keys_def)
  qed
qed

lemma td_update_wf:
  assumes "td_update w frame = Inr w'" and "td_wf w"
  shows "td_wf w'"
proof -
  from assms(1) obtain p a1 a2 a3 a4 a5 where
    st: "td_step REVEAL_COMPONENTS (td_sig w) p (td_art w) = Inr a1"
      "td_step SHOW_SUM (td_sig w) p a1 = Inr a2"
      "td_step SHOW_BASIS (td_sig w) p a2 = Inr a3"
      "td_step SCALE_BASIS (td_sig w) p a3 = Inr a4"
      "td_step SHOW_FIT (td_sig w) p a4 = Inr a5"
    and w': "w' = w\<lparr>td_art := a5\<rparr>"
    by (auto simp: td_update_def Let_def bind_eq_Inr)
  from st [THEN td_step_keys] have "td_same_keys (td_art w) a5"
    by (simp add: td_same_keys_def)
  then show ?thesis using assms(2) by (simp add: td_wf_def Let_def w' td_same_keys_def)
qed

lemma sd_reveal_body_keys: "sd_reveal_body s k y u = Inr u' \<Longrightarrow> sd_same_keys u u'"
  by (cases y) (auto simp: sd_reveal_body_def sd_same_keys_def bind_eq_Inr Let_def
      dest!: artist_set_keys split: if_splits)

lemma sd_hide_body_keys: "sd_hide_body n u = Inr u' \<Longrightarrow> sd_same_keys u u'"
  by (auto simp: sd_hide_body_def sd_same_keys_def bind_eq_Inr dest!: artist_set_keys)

lemma sd_basis_body_keys: "sd_basis_body s y u = Inr u' \<Longrightarrow> sd_same_keys u u'"
  by (auto simp: sd_basis_body_def sd_same_keys_def bind_eq_Inr Let_def
      dest!: artist_set_keys)

lemma sd_scale_body_keys: "sd_scale_body s sc y u = Inr u' \<Longrightarrow> sd_same_keys u u'"
  by (cases y) (auto simp: sd_scale_body_def sd_same_keys_def bind_eq_Inr Let_def
      dest!: artist_set_keys)

lemma sd_same_keys_loop:
  assumes "for_each body xs a = Inr a'"
    and "\<And>y u u'. body y u = Inr u' \<Longrightarrow> sd_same_keys u u'"
  shows "sd_same_keys a a'"
proof (rule for_each_invariant [where I = "sd_same_keys a", OF assms(1)])
  show "sd_same_keys a a" by (simp add: sd_same_keys_def)
next
  fix y u u' assume "sd_same_keys a u" "body y u = Inr u'"
  then show "sd_same_keys a u'" using assms(2) [of y u u'] by (simp add: sd_same_keys_def)
qed

lemma sd_step_keys:
  assumes "sd_step ph s p a = Inr a'"
  shows "sd_same_keys a a'"
proof (cases "guard ph p")
  case False
  with assms show ?thesis by (simp add: sd_step_def sd_same_keys_def)
next
  case True
  with assms have b: "sd_block ph s p a = Inr a'" by (simp add: sd_step_def)
  show ?thesis
  proof (cases ph)
    case REVEAL_COMPONENTS
    with b have "for_each (sd_reveal_body s (reveal_k p (length (sd_molecules s))))
                   (enumerate 0 (sd_molecules s)) a = Inr a'"
      by (simp add: sd_block_def sd_phase1_def Let_def)
    then show ?thesis by (rule sd_same_keys_loop) (rule sd_reveal_body_keys)
  next
    case SHOW_SUM
    with b have "for_each sd_hide_body (map fst (sd_molecules s))
                   (a\<lparr>sd_sum_black := (sd_freq s, sd_real_sum s)\<rparr>) = Inr a'"
      by (simp add: sd_block_def sd_phase2_def)
    then have "sd_same_keys (a\<lparr>sd_sum_black := (sd_freq s, sd_real_sum s)\<rparr>) a'"
      by (rule sd_same_keys_loop) (rule sd_hide_body_keys)
    then show ?thesis by (simp add: sd_same_keys_def)
  next
    case SHOW_BASIS
    with b have "for_each (sd_basis_body s) (map fst (sd_molecules s)) a = Inr a'"
      by (simp add: sd_block_def sd_phase3_def)
    then show ?thesis by (rule sd_same_keys_loop) (rule sd_basis_body_keys)
  next
    case SCALE_BASIS
    with b have "for_each (sd_scale_body s (scale_s p)) (sd_molecules s) a = Inr a'"
      by (simp add: sd_block_def sd_phase4_def Let_def)
    then show ?thesis by (rule sd_same_keys_loop) (rule sd_scale_body_keys)
  next
    case SHOW_FIT
    with b show ?thesis
      by (auto simp: sd_block_def sd_phase5_def bind_eq_Inr sd_same_keys_def)
  qed
qed

lemma sd_update_wf:
  assumes "sd_update w frame = Inr w'" and "sd_wf w"
  shows "sd_wf w'"
proof -
  from assms(1) obtain p a1 a2 a3 a4 a5 where
    st: "sd_step REVEAL_COMPONENTS (sd_sig w) p (sd_art w) = Inr a1"
      "sd_step SHOW_SUM (sd_sig w) p a1 = Inr a2"
      "sd_step SHOW_BASIS (sd_sig w) p a2 = Inr a3"
      "sd_step SCALE_BASIS (sd_sig w) p a3 = Inr a4"
      "sd_step SHOW_FIT (sd_sig w) p a4 = Inr a5"
    and w': "w' = w\<lparr>sd_art := a5\<rparr>"
    by (auto simp: sd_update_def Let_def bind_eq_Inr)
  from st [THEN sd_step_keys] have "sd_same_keys (sd_art w) a5"
    by (simp add: sd_same_keys_def)
  then show ?thesis using assms(2) by (simp add: sd_wf_def Let_def w' sd_same_keys_def)
qed

end
